(* ===== verification/Prelude.thy ===== *)
theory Prelude
  imports Main "HOL-Library.Word" "HOL-Library.Multiset" "HOL-Library.Monad_Syntax"
begin

text \<open>
  Shared vocabulary of the development: the C integer types at their widths, the
  collections of simplification rules the components fill, and the lemmas on lists,
  options, multisets and words that more than one component uses.

  The C unsigned types of the target (an LP64 platform) are machine words, so that
  \<open>+\<close>, \<open>-\<close> and \<open>*\<close> wrap around exactly as the code's do; \<^verbatim>\<open>int\<close> status results
  (\<open>-1\<close>, \<open>0\<close>, \<open>1\<close>) are of type \<open>int\<close>.  A result \<open>None\<close> of a function of this
  development that touches memory stands for undefined behaviour of the C code:
  a dereference of freed memory or of a null pointer.
\<close>

unbundle bit_operations_syntax

type_synonym u8 = "8 word"
type_synonym u16 = "16 word"
type_synonym u32 = "32 word"
type_synonym size_t = "64 word"

named_theorems enet_consts \<open>values of the numeric constants of the headers\<close>
named_theorems wire_simps \<open>encoding and decoding of integers on the wire\<close>
named_theorems refs_simps \<open>the packet references each queue operation holds\<close>

subsection \<open>Words\<close>

lemma unat_u16_lt [simp]: "unat (w :: u16) < 65536"
  using unsigned_less [of w, where ?'a = nat] by simp

lemma unat_u32_lt [simp]: "unat (w :: u32) < 4294967296"
  using unsigned_less [of w, where ?'a = nat] by simp

lemma unat_u8_lt [simp]: "unat (w :: u8) < 256"
  using unsigned_less [of w, where ?'a = nat] by simp

lemma unat_add_no_wrap:
  "unat (a :: 'a::len word) + unat b < 2 ^ LENGTH('a) \<Longrightarrow> unat (a + b) = unat a + unat b"
  by (simp add: unat_word_ariths)

lemma unat_ucast_up:
  assumes "LENGTH('a) \<le> LENGTH('b)"
  shows "unat (ucast (w :: 'a::len word) :: 'b::len word) = unat w"
proof -
  have "unat w < 2 ^ LENGTH('a)"
    by (rule unsigned_less)
  also have "\<dots> \<le> 2 ^ LENGTH('b)"
    using assms by simp
  finally show ?thesis
    by (simp add: unsigned_ucast_eq take_bit_nat_eq_self)
qed

lemma unat_of_nat_less: "n < 2 ^ LENGTH('a) \<Longrightarrow> unat (of_nat n :: 'a::len word) = n"
  by (simp add: unat_of_nat take_bit_nat_eq_self)

lemma unat_ucast_u16_u32 [simp]: "unat (ucast (w :: u16) :: u32) = unat w"
  by (rule unat_ucast_up) simp

lemma unat_ucast_u16_size [simp]: "unat (ucast (w :: u16) :: size_t) = unat w"
  by (rule unat_ucast_up) simp

lemma unat_ucast_u32_size [simp]: "unat (ucast (w :: u32) :: size_t) = unat w"
  by (rule unat_ucast_up) simp

lemma unat_ucast_u8_size [simp]: "unat (ucast (w :: u8) :: size_t) = unat w"
  by (rule unat_ucast_up) simp

subsection \<open>Lists\<close>

lemma nth_append_Cons_length [simp]: "(xs @ y # ys) ! length xs = y"
  by (simp add: nth_append)

lemma last_in_set_append: "xs \<noteq> [] \<Longrightarrow> last xs \<in> set (ys @ xs @ zs)"
  by simp

lemma filter_update_length:
  "i < length xs \<Longrightarrow>
    length (filter P (xs[i := x])) + (if P (xs ! i) then 1 else 0) =
    length (filter P xs) + (if P x then 1 else 0)"
proof (induction xs arbitrary: i)
  case (Cons a xs)
  then show ?case
    by (cases i) (auto split: if_splits)
qed simp

subsection \<open>Options\<close>

lemma bind_eq_Some_conv: "(Option.bind x f = Some y) = (\<exists>z. x = Some z \<and> f z = Some y)"
  by (cases x) simp_all

end
