(* ===== verification/ENet_List.thy ===== *)
theory ENet_List
  imports Prelude
begin

text \<open>
  \<^verbatim>\<open>enet/list.h\<close> and \<^verbatim>\<open>list.c\<close>: the intrusive circular doubly linked list every queue of
  the transport is kept in.  A node is an address; the two fields of
  \<^verbatim>\<open>struct _ENetListNode\<close> are the two maps of the record \<open>list_heap\<close>, and a list is
  the address of its sentinel node.  The functions are the code's pointer assignments in
  the code's order.  \<open>dlist h s xs\<close> says that the heap holds a well-formed ring through
  the sentinel \<open>s\<close> and the nodes \<open>xs\<close>; the theorems show that the pointer operations
  implement the list operations \<open>xs @ d # ys\<close>, removal and block move, which is what
  the other theories of the development use for the queues.
\<close>

type_synonym node = nat

record list_heap =
  nxt :: "node \<Rightarrow> node"
  prv :: "node \<Rightarrow> node"

subsection \<open>The operations of list.c\<close>

definition enet_list_clear :: "node \<Rightarrow> list_heap \<Rightarrow> list_heap" where
  "enet_list_clear l h =
     (let h = h\<lparr>nxt := (nxt h)(l := l)\<rparr>
      in h\<lparr>prv := (prv h)(l := l)\<rparr>)"

definition enet_list_insert :: "node \<Rightarrow> node \<Rightarrow> list_heap \<Rightarrow> list_heap \<times> node" where
  "enet_list_insert position result h =
     (let h = h\<lparr>prv := (prv h)(result := prv h position)\<rparr>;
          h = h\<lparr>nxt := (nxt h)(result := position)\<rparr>;
          h = h\<lparr>nxt := (nxt h)(prv h result := result)\<rparr>;
          h = h\<lparr>prv := (prv h)(position := result)\<rparr>
      in (h, result))"

definition enet_list_remove :: "node \<Rightarrow> list_heap \<Rightarrow> list_heap \<times> node" where
  "enet_list_remove position h =
     (let h = h\<lparr>nxt := (nxt h)(prv h position := nxt h position)\<rparr>;
          h = h\<lparr>prv := (prv h)(nxt h position := prv h position)\<rparr>
      in (h, position))"

definition enet_list_move :: "node \<Rightarrow> node \<Rightarrow> node \<Rightarrow> list_heap \<Rightarrow> list_heap \<times> node" where
  "enet_list_move position dataFirst dataLast h =
     (let h = h\<lparr>nxt := (nxt h)(prv h dataFirst := nxt h dataLast)\<rparr>;
          h = h\<lparr>prv := (prv h)(nxt h dataLast := prv h dataFirst)\<rparr>;
          h = h\<lparr>prv := (prv h)(dataFirst := prv h position)\<rparr>;
          h = h\<lparr>nxt := (nxt h)(dataLast := position)\<rparr>;
          h = h\<lparr>nxt := (nxt h)(prv h dataFirst := dataFirst)\<rparr>;
          h = h\<lparr>prv := (prv h)(position := dataLast)\<rparr>
      in (h, dataFirst))"

definition enet_list_begin :: "node \<Rightarrow> list_heap \<Rightarrow> node" where
  "enet_list_begin l h = nxt h l"

definition enet_list_end :: "node \<Rightarrow> list_heap \<Rightarrow> node" where
  "enet_list_end l h = l"

definition enet_list_empty :: "node \<Rightarrow> list_heap \<Rightarrow> bool" where
  "enet_list_empty l h \<longleftrightarrow> enet_list_begin l h = enet_list_end l h"

definition enet_list_back :: "node \<Rightarrow> list_heap \<Rightarrow> node" where
  "enet_list_back l h = prv h l"

text \<open>
  The loop of \<^verbatim>\<open>enet_list_size\<close> runs over the ring until it meets the sentinel; on a
  heap that is no ring it would not end, so it is a partial function.
\<close>

partial_function (option) list_size_loop ::
  "node \<Rightarrow> list_heap \<Rightarrow> node \<Rightarrow> size_t \<Rightarrow> size_t option" where
  "list_size_loop l h position n =
     (if position \<noteq> enet_list_end l h
      then list_size_loop l h (nxt h position) (n + 1)
      else Some n)"

definition enet_list_size :: "node \<Rightarrow> list_heap \<Rightarrow> size_t option" where
  "enet_list_size l h = list_size_loop l h (enet_list_begin l h) 0"

subsection \<open>Chains of pointers\<close>

fun chain :: "(node \<Rightarrow> node) \<Rightarrow> node list \<Rightarrow> bool" where
  "chain f [] = True"
| "chain f [a] = True"
| "chain f (a # b # xs) = (f a = b \<and> chain f (b # xs))"

lemma chain_upd: "a \<notin> set (butlast xs) \<Longrightarrow> chain (f(a := v)) xs = chain f xs"
  by (induction f xs rule: chain.induct) auto

lemma chain_Cons: "chain f (a # xs) = (xs = [] \<or> f a = hd xs \<and> chain f xs)"
  by (cases xs) auto

lemma chain_append:
  assumes "ys \<noteq> []"
  shows "chain f (xs @ ys) \<longleftrightarrow> chain f xs \<and> (xs \<noteq> [] \<longrightarrow> f (last xs) = hd ys) \<and> chain f ys"
  using assms
proof (induction xs)
  case (Cons a xs)
  then show ?case
    by (cases "xs = []") (simp_all add: chain_Cons del: chain.simps)
qed simp

lemma last_notin_butlast: "distinct xs \<Longrightarrow> last xs \<notin> set (butlast xs)"
  by (induction xs rule: rev_induct) simp_all

text \<open>
  A ring through the sentinel \<open>s\<close>: forward along \<open>nxt\<close>, backward along \<open>prv\<close>,
  without repetition.
\<close>

definition dlist :: "list_heap \<Rightarrow> node \<Rightarrow> node list \<Rightarrow> bool" where
  "dlist h s xs \<longleftrightarrow> distinct (s # xs) \<and>
     chain (nxt h) (s # xs @ [s]) \<and> chain (prv h) (s # rev xs @ [s])"

subsection \<open>Cutting and pasting a block of a ring\<close>

text \<open>One direction of a ring; the backward direction is the same predicate of the reversed list.\<close>

definition ring :: "(node \<Rightarrow> node) \<Rightarrow> node \<Rightarrow> node list \<Rightarrow> bool" where
  "ring f s xs \<longleftrightarrow> chain f (s # xs @ [s])"

lemma dlist_ring:
  "dlist h s xs \<longleftrightarrow> distinct (s # xs) \<and> ring (nxt h) s xs \<and> ring (prv h) s (rev xs)"
  by (simp add: dlist_def ring_def)

lemma ring_frame: "a \<notin> set (s # xs) \<Longrightarrow> ring (f(a := v)) s xs = ring f s xs"
  unfolding ring_def by (rule chain_upd) (simp add: butlast_append)

lemma ring_split:
  "ring f s (xs @ ys) \<longleftrightarrow> chain f (s # xs) \<and> f (last (s # xs)) = hd (ys @ [s]) \<and> chain f (ys @ [s])"
  using chain_append [of "ys @ [s]" f "s # xs"] by (simp add: ring_def del: chain.simps)

lemma ring_next:
  assumes "ring f s (xs @ d # ys)"
  shows "f d = hd (ys @ [s])"
  using assms ring_split [of f s "xs @ [d]" ys] by simp

lemma ring_first: "ring f s xs \<Longrightarrow> f s = hd (xs @ [s])"
  using ring_split [of f s "[]" xs] by simp

lemma dlist_begin: "dlist h s xs \<Longrightarrow> nxt h s = hd (xs @ [s])"
  by (simp add: dlist_ring ring_first)

lemma dlist_back: "dlist h s xs \<Longrightarrow> prv h s = hd (rev xs @ [s])"
  by (simp add: dlist_ring ring_first)

lemma dlist_nxt: "dlist h s (xs @ d # ys) \<Longrightarrow> nxt h d = hd (ys @ [s])"
  by (auto simp: dlist_ring dest: ring_next)

lemma dlist_prv: "dlist h s (xs @ d # ys) \<Longrightarrow> prv h d = hd (rev xs @ [s])"
  using ring_next [of "prv h" s "rev ys" d "rev xs"] by (simp add: dlist_ring)

lemma ring_cut:
  assumes "ring f s (xs @ ms @ ys)" "ms \<noteq> []" "distinct (s # xs @ ms @ ys)"
  shows "ring (f(last (s # xs) := f (last ms))) s (xs @ ys)"
proof -
  let ?p = "last (s # xs)"
  have p: "?p \<in> set (s # xs)"
    by (rule last_in_set) simp
  have "?p \<notin> set ys" "?p \<noteq> last ms"
    using p assms(2,3) by auto
  moreover have "?p \<notin> set (butlast (s # xs))"
    by (rule last_notin_butlast) (use assms(3) in auto)
  moreover have "f (last ms) = hd (ys @ [s])" "chain f (s # xs)" "chain f (ys @ [s])"
    using assms(1,2) ring_split [of f s "xs @ ms" ys] ring_split [of f s xs "ms @ ys"]
    by simp_all
  ultimately show ?thesis
    by (simp add: ring_split chain_upd butlast_append del: last.simps)
qed

lemma ring_paste:
  assumes "ring f t (us @ vs)" "chain f ms" "ms \<noteq> []"
    and "distinct (t # us @ ms @ vs)"
  shows "ring (f(last ms := hd (vs @ [t]), last (t # us) := hd ms)) t (us @ ms @ vs)"
proof -
  let ?p = "last (t # us)" and ?f = "f(last ms := hd (vs @ [t]), last (t # us) := hd ms)"
  have p: "?p \<in> set (t # us)"
    by (rule last_in_set) simp
  have m: "last ms \<in> set ms"
    using assms(3) by simp
  have nb: "?p \<notin> set (butlast (t # us))" "last ms \<notin> set (butlast ms)"
    by (rule last_notin_butlast; use assms(4) in auto)+
  have d: "?p \<noteq> last ms" "?p \<notin> set vs" "?p \<notin> set ms" "last ms \<notin> set (t # us)" "last ms \<notin> set vs"
    using p m assms(4) by auto
  have "last ms \<notin> set (butlast (t # us))" "?p \<notin> set (butlast ms)"
    using d in_set_butlastD by fast+
  then have "chain ?f (t # us) = chain f (t # us)" "chain ?f ms = chain f ms"
    using nb by (simp_all only: chain_upd not_False_eq_True)
  moreover have "chain ?f (vs @ [t])"
    using assms(1) d(2,5) by (simp add: ring_split chain_upd butlast_append del: last.simps)
  moreover have "?f ?p = hd ms" "?f (last ms) = hd (vs @ [t])"
    using d(1) by simp_all
  moreover have "chain f (t # us)"
    using assms(1) by (simp add: ring_split)
  ultimately show ?thesis
    using assms(2,3) by (simp add: ring_split chain_append del: last.simps chain.simps)
qed


subsection \<open>The operations implement the list operations\<close>

lemma dlist_clear: "dlist (enet_list_clear l h) l []"
  by (simp add: enet_list_clear_def Let_def dlist_def)

lemma dlist_empty: "dlist h l xs \<Longrightarrow> enet_list_empty l h \<longleftrightarrow> xs = []"
  by (cases xs) (auto simp: enet_list_empty_def enet_list_begin_def enet_list_end_def
      dlist_begin dlist_def)

lemma hd_rev_last: "hd (rev xs @ [s]) = last (s # xs)"
  by (induction xs rule: rev_induct) simp_all

lemma last_rev_hd: "last (s # rev ys) = hd (ys @ [s])"
  by (cases ys) simp_all

lemma hd_snoc_in: "hd (ys @ [l]) \<in> set (l # ys)"
  by (cases ys) simp_all

lemma dlist_insert:
  assumes "dlist h l (xs @ ys)" "d \<notin> set (l # xs @ ys)"
  shows "dlist (fst (enet_list_insert (hd (ys @ [l])) d h)) l (xs @ d # ys)"
proof -
  let ?pos = "hd (ys @ [l])" and ?p = "last (l # xs)"
  have "ring (prv h) l (rev ys @ rev xs)" and di: "distinct (l # xs @ ys)"
    and rn: "ring (nxt h) l (xs @ ys)"
    using assms(1) by (simp_all add: dlist_ring)
  note rp = this(1)
  have prev: "prv h ?pos = ?p"
    using rp ring_split [of "prv h" l "rev ys" "rev xs"] by (simp add: last_rev_hd hd_rev_last
        del: last.simps)
  have in1: "?pos \<in> set (l # ys)" and in2: "?p \<in> set (l # xs)"
    by (cases ys; simp) (rule last_in_set, simp)
  have ne: "d \<noteq> ?pos" "d \<noteq> ?p"
    using in1 in2 assms(2) by auto
  let ?h = "fst (enet_list_insert ?pos d h)"
  have "nxt ?h = (nxt h)(d := ?pos, ?p := d)" and "prv ?h = (prv h)(d := ?p, ?pos := d)"
    using ne by (simp_all add: enet_list_insert_def Let_def prev del: last.simps)
  moreover have "ring ((nxt h)(last [d] := hd (ys @ [l]), last (l # xs) := hd [d])) l (xs @ [d] @ ys)"
    by (rule ring_paste [OF rn]) (use assms(2) di in auto)
  moreover have "ring ((prv h)(last [d] := hd (rev xs @ [l]), last (l # rev ys) := hd [d]))
      l (rev ys @ [d] @ rev xs)"
    by (rule ring_paste [OF rp]) (use assms(2) di in auto)
  ultimately show ?thesis
    using assms(2) di by (simp add: dlist_ring hd_rev_last last_rev_hd last_ConsL del: last.simps)
qed

text \<open>Cutting a block out: the effect of \<^verbatim>\<open>enet_list_remove\<close> and of the first half of
  \<^verbatim>\<open>enet_list_move\<close>.\<close>

lemma dlist_cut:
  assumes "dlist h l (xs @ ms @ ys)" "ms \<noteq> []"
  shows "dlist (h\<lparr>nxt := (nxt h)(prv h (hd ms) := nxt h (last ms)),
      prv := (prv h)(nxt h (last ms) := prv h (hd ms))\<rparr>) l (xs @ ys)"
    and "prv h (hd ms) = last (l # xs)" and "nxt h (last ms) = hd (ys @ [l])"
proof -
  have rn: "ring (nxt h) l (xs @ ms @ ys)" and rp: "ring (prv h) l (rev ys @ rev ms @ rev xs)"
    and di: "distinct (l # xs @ ms @ ys)"
    using assms(1) by (simp_all add: dlist_ring)
  from assms(2) have hl: "last (rev ms) = hd ms" "rev ms \<noteq> []"
    by (simp_all add: last_rev)
  have a: "prv h (hd ms) = last (l # xs)"
    using rp ring_split [of "prv h" l "rev ys @ rev ms" "rev xs"] assms(2)
    by (simp add: hd_rev_last hl last_append del: last.simps) (simp add: hl)
  moreover have b: "nxt h (last ms) = hd (ys @ [l])"
    using rn ring_split [of "nxt h" l "xs @ ms" ys] assms(2) by simp
  ultimately show "prv h (hd ms) = last (l # xs)" "nxt h (last ms) = hd (ys @ [l])"
    by simp_all
  have "ring ((nxt h)(last (l # xs) := nxt h (last ms))) l (xs @ ys)"
    by (rule ring_cut [OF rn assms(2) di])
  moreover have "ring ((prv h)(last (l # rev ys) := prv h (last (rev ms)))) l (rev ys @ rev xs)"
    by (rule ring_cut [OF rp]) (use di assms(2) in auto)
  ultimately show "dlist (h\<lparr>nxt := (nxt h)(prv h (hd ms) := nxt h (last ms)),
      prv := (prv h)(nxt h (last ms) := prv h (hd ms))\<rparr>) l (xs @ ys)"
    using di a b by (simp add: dlist_ring last_rev_hd hl Int_Un_distrib del: last.simps)
qed

lemma dlist_remove:
  assumes "dlist h l (xs @ d # ys)"
  shows "dlist (fst (enet_list_remove d h)) l (xs @ ys)"
proof -
  have "prv h d \<noteq> d"
    using dlist_prv [OF assms] assms hd_rev_last [of xs l] last_in_set [of "l # xs"]
    by (auto simp: dlist_def)
  then have "fst (enet_list_remove d h) =
      h\<lparr>nxt := (nxt h)(prv h d := nxt h d), prv := (prv h)(nxt h d := prv h d)\<rparr>"
    by (simp add: enet_list_remove_def Let_def)
  then show ?thesis
    using dlist_cut(1) [of h l xs "[d]" ys] assms by simp
qed


text \<open>Rings that do not meet the written nodes are unchanged.\<close>

lemma dlist_frame:
  assumes "dlist h t zs" "\<And>n. n \<in> set (t # zs) \<Longrightarrow> nxt h' n = nxt h n \<and> prv h' n = prv h n"
  shows "dlist h' t zs"
proof -
  have "chain (nxt h') ys = chain (nxt h) ys" if "set ys \<subseteq> set (t # zs)" for ys
    using that assms(2) by (induction "nxt h" ys rule: chain.induct) auto
  moreover have "chain (prv h') ys = chain (prv h) ys" if "set ys \<subseteq> set (t # zs)" for ys
    using that assms(2) by (induction "prv h" ys rule: chain.induct) auto
  ultimately show ?thesis
    using assms(1) by (simp add: dlist_def)
qed

lemma insert_frame:
  assumes "dlist h l (xs @ ys)" "n \<notin> set (l # xs @ ys)" "n \<noteq> d" "d \<notin> set (l # xs @ ys)"
  shows "nxt (fst (enet_list_insert (hd (ys @ [l])) d h)) n = nxt h n \<and>
    prv (fst (enet_list_insert (hd (ys @ [l])) d h)) n = prv h n"
proof -
  let ?pos = "hd (ys @ [l])"
  have "prv h ?pos = last (l # xs)"
    using assms(1) ring_split [of "prv h" l "rev ys" "rev xs"]
    by (simp add: dlist_ring last_rev_hd hd_rev_last del: last.simps)
  moreover have "?pos \<in> set (l # ys)" "last (l # xs) \<in> set (l # xs)"
    by (cases ys; simp) (rule last_in_set, simp)
  ultimately show ?thesis
    using assms(2-4) by (auto simp: enet_list_insert_def Let_def)
qed

lemma remove_frame:
  assumes "dlist h l (xs @ d # ys)" "n \<notin> set (l # xs @ ys)"
  shows "nxt (fst (enet_list_remove d h)) n = nxt h n \<and>
    prv (fst (enet_list_remove d h)) n = prv h n"
proof -
  have "prv h d = last (l # xs)" "nxt h d = hd (ys @ [l])"
    using dlist_prv [OF assms(1)] dlist_nxt [OF assms(1)] by (simp_all add: hd_rev_last)
  moreover have "hd (ys @ [l]) \<in> set (l # ys)" "last (l # xs) \<in> set (l # xs)"
    by (cases ys; simp) (rule last_in_set, simp)
  moreover have "last (l # xs) \<noteq> d"
    using calculation(4) assms(1) by (auto simp: dlist_def)
  ultimately show ?thesis
    using assms(2) by (auto simp: enet_list_remove_def Let_def)
qed

text \<open>
  Moving the block \<open>ms\<close> of the list \<open>l\<close> in front of \<open>vs\<close> in another list \<open>t\<close>.
\<close>

lemma dlist_move:
  assumes l: "dlist h l (xs @ ms @ ys)" "ms \<noteq> []" and t: "dlist h t (us @ vs)"
    and disj: "set (l # xs @ ms @ ys) \<inter> set (t # us @ vs) = {}"
  shows "dlist (fst (enet_list_move (hd (vs @ [t])) (hd ms) (last ms) h)) l (xs @ ys)"
    and "dlist (fst (enet_list_move (hd (vs @ [t])) (hd ms) (last ms) h)) t (us @ ms @ vs)"
proof -
  define f e pos p n q where defs: "f = hd ms" "e = last ms" "pos = hd (vs @ [t])"
    "p = last (l # xs)" "n = hd (ys @ [l])" "q = last (t # us)"
  let ?h' = "fst (enet_list_move pos f e h)"
  let ?h1 = "h\<lparr>nxt := (nxt h)(p := n), prv := (prv h)(n := p)\<rparr>"
  have pf: "prv h f = p" and ne: "nxt h e = n" and cut: "dlist ?h1 l (xs @ ys)"
    using dlist_cut [OF l] by (simp_all only: defs)
  have q: "prv h pos = q"
    using t ring_split [of "prv h" t "rev vs" "rev us"]
    by (simp add: defs dlist_ring last_rev_hd hd_rev_last del: last.simps)
  have mem: "f \<in> set ms" "e \<in> set ms" "p \<in> set (l # xs)" "n \<in> set (l # ys)"
      "pos \<in> set (t # vs)" "q \<in> set (t # us)"
    using l(2) hd_snoc_in [of ys l] hd_snoc_in [of vs t] last_in_set [of "l # xs"] last_in_set [of "t # us"]
    by (simp_all only: defs hd_in_set last_in_set list.distinct not_False_eq_True)
  have di: "distinct (l # xs @ ms @ ys)" "distinct (t # us @ vs)"
    using l(1) t by (simp_all add: dlist_def)
  have sep: "set (l # xs) \<inter> set ms = {}" "set (l # ys) \<inter> set ms = {}"
      "set (l # xs) \<inter> set ys = {}" "set (t # us) \<inter> set vs = {}"
      "set (t # us) \<inter> set ms = {}" "set (t # vs) \<inter> set ms = {}"
      "set (l # xs) \<inter> set (t # us) = {}" "set (l # xs) \<inter> set (t # vs) = {}"
      "set (l # ys) \<inter> set (t # us) = {}" "set (l # ys) \<inter> set (t # vs) = {}"
    using di disj by auto
  have neq: "p \<noteq> e" "p \<noteq> f" "n \<noteq> f" "n \<noteq> e" "pos \<noteq> f" "pos \<noteq> n" "q \<noteq> e" "q \<noteq> p" "pos \<noteq> e" "q \<noteq> f"
    using mem sep by (metis IntI empty_iff)+
  have h': "nxt ?h' = (nxt h)(p := n, e := pos, q := f)"
      "prv ?h' = (prv h)(n := p, f := q, pos := e)"
    using neq by (simp_all add: enet_list_move_def Let_def pf ne q)
  have "dlist ?h' l (xs @ ys)"
  proof (rule dlist_frame [OF cut])
    fix k assume "k \<in> set (l # xs @ ys)"
    then have "k \<noteq> f" "k \<noteq> e" "k \<noteq> q" "k \<noteq> pos"
      using mem sep by auto
    then show "nxt ?h' k = nxt ?h1 k \<and> prv ?h' k = prv ?h1 k"
      by (simp add: h')
  qed
  then show "dlist (fst (enet_list_move (hd (vs @ [t])) (hd ms) (last ms) h)) l (xs @ ys)"
    by (simp only: defs)
  have rt: "ring (nxt h) t (us @ vs)" "ring (prv h) t (rev vs @ rev us)"
    using t by (simp_all add: dlist_ring)
  have cm: "chain (nxt h) ms" "chain (prv h) (rev ms)"
    using l ring_split [of "nxt h" l "xs" "ms @ ys"] ring_split [of "prv h" l "rev ys" "rev ms @ rev xs"]
      chain_append [of "ys @ [l]" "nxt h" ms] chain_append [of "rev xs @ [l]" "prv h" "rev ms"]
    by (simp_all add: dlist_ring)
  have dt: "distinct (t # us @ ms @ vs)" "distinct (t # rev vs @ rev ms @ rev us)"
    using di sep by auto
  have fr: "p \<notin> set (t # us @ ms @ vs)" "n \<notin> set (t # rev vs @ rev ms @ rev us)"
    using mem sep by auto
  have "ring ((nxt h)(e := pos, q := f)) t (us @ ms @ vs)"
    unfolding defs by (rule ring_paste [OF rt(1) cm(1) l(2) dt(1)])
  then have "ring ((nxt h)(e := pos, q := f, p := n)) t (us @ ms @ vs)"
    by (simp only: ring_frame [OF fr(1)])
  moreover have "(nxt h)(e := pos, q := f, p := n) = nxt ?h'"
    unfolding h' using neq by auto
  moreover have "ring ((prv h)(last (rev ms) := hd (rev us @ [t]), last (t # rev vs) := hd (rev ms))) t
      (rev vs @ rev ms @ rev us)"
    by (rule ring_paste [OF rt(2) cm(2) _ dt(2)]) (use l(2) in simp)
  then have "ring ((prv h)(f := q, pos := e)) t (rev vs @ rev ms @ rev us)"
    using l(2) by (simp add: defs last_rev hd_rev hd_rev_last last_rev_hd del: last.simps)
  then have "ring ((prv h)(f := q, pos := e, n := p)) t (rev vs @ rev ms @ rev us)"
    by (simp only: ring_frame [OF fr(2)])
  moreover have "(prv h)(f := q, pos := e, n := p) = prv ?h'"
    unfolding h' using neq by auto
  ultimately have "dlist ?h' t (us @ ms @ vs)"
    using dt by (simp add: dlist_ring Int_Un_distrib)
  then show "dlist (fst (enet_list_move (hd (vs @ [t])) (hd ms) (last ms) h)) t (us @ ms @ vs)"
    by (simp only: defs)
qed

lemma list_size_loop_length:
  "dlist h l (xs @ ys) \<Longrightarrow>
    list_size_loop l h (hd (ys @ [l])) n = Some (n + of_nat (length ys))"
proof (induction ys arbitrary: xs n)
  case Nil
  then show ?case
    by (subst list_size_loop.simps) (simp add: enet_list_end_def)
next
  case (Cons d ys)
  then have "d \<noteq> l" "nxt h d = hd (ys @ [l])"
    using dlist_nxt [of h l xs d ys] by (auto simp: dlist_def)
  moreover have "list_size_loop l h (hd (ys @ [l])) (n + 1) = Some (n + 1 + of_nat (length ys))"
    using Cons.IH [of "xs @ [d]"] Cons.prems by simp
  ultimately show ?case
    by (subst list_size_loop.simps) (simp add: enet_list_end_def)
qed

subsection \<open>The queue interface\<close>

text \<open>
  What the clients of the list rely on: a list of entries \<open>rep h l xs\<close> with insertion
  at the end, removal of the first entry and the emptiness test.  The client of
  \<^verbatim>\<open>enet_peer_send\<close> fills a queue entry by entry and then drains it from the front.
\<close>

definition enqueue_all ::
  "('n \<Rightarrow> 'h \<Rightarrow> 'h) \<Rightarrow> 'n list \<Rightarrow> 'h \<Rightarrow> 'h" where
  "enqueue_all enq ds h = fold enq ds h"

fun drain ::
  "('h \<Rightarrow> bool) \<Rightarrow> ('h \<Rightarrow> 'h \<times> 'n) \<Rightarrow> nat \<Rightarrow> 'h \<Rightarrow> ('h \<times> 'n list) option" where
  "drain is_empty deq 0 h = None"
| "drain is_empty deq (Suc fuel) h =
     (if is_empty h then Some (h, [])
      else let (h', n) = deq h
           in map_option (\<lambda>(h'', ns). (h'', n # ns)) (drain is_empty deq fuel h'))"

locale entry_queue =
  fixes rep :: "'h \<Rightarrow> 'n list \<Rightarrow> bool"
    and fresh :: "'h \<Rightarrow> 'n \<Rightarrow> bool"
    and enq :: "'n \<Rightarrow> 'h \<Rightarrow> 'h"
    and deq :: "'h \<Rightarrow> 'h \<times> 'n"
    and is_empty :: "'h \<Rightarrow> bool"
  assumes rep_enq: "rep h xs \<Longrightarrow> d \<notin> set xs \<Longrightarrow> fresh h d \<Longrightarrow> rep (enq d h) (xs @ [d])"
    and fresh_enq: "fresh h e \<Longrightarrow> fresh (enq d h) e"
    and deq_front: "rep h (d # xs) \<Longrightarrow> snd (deq h) = d"
    and rep_deq: "rep h (d # xs) \<Longrightarrow> rep (fst (deq h)) xs"
    and empty_iff: "rep h xs \<Longrightarrow> is_empty h \<longleftrightarrow> xs = []"
begin

lemma rep_enqueue_all:
  "rep h xs \<Longrightarrow> distinct ds \<Longrightarrow> set ds \<inter> set xs = {} \<Longrightarrow> (\<And>d. d \<in> set ds \<Longrightarrow> fresh h d) \<Longrightarrow>
    rep (enqueue_all enq ds h) (xs @ ds)"
proof (induction ds arbitrary: h xs)
  case (Cons d ds)
  have "rep (enq d h) (xs @ [d])"
    using Cons.prems by (auto intro: rep_enq)
  then have "rep (enqueue_all enq ds (enq d h)) ((xs @ [d]) @ ds)"
    using Cons.prems by (intro Cons.IH) (auto intro: fresh_enq)
  then show ?case
    by (simp add: enqueue_all_def)
qed (simp add: enqueue_all_def)

lemma drain_rep:
  "rep h xs \<Longrightarrow> length xs < fuel \<Longrightarrow>
    \<exists>h'. drain is_empty deq fuel h = Some (h', xs) \<and> rep h' []"
proof (induction fuel arbitrary: h xs)
  case (Suc fuel)
  show ?case
  proof (cases xs)
    case Nil
    with Suc.prems show ?thesis
      using empty_iff [of h xs] by auto
  next
    case (Cons d ys)
    obtain h' n where dq: "deq h = (h', n)"
      by (cases "deq h")
    with Suc.prems Cons have "n = d" "rep h' ys" "\<not> is_empty h"
      using deq_front [of h d ys] rep_deq [of h d ys] empty_iff [of h xs] by auto
    moreover obtain h'' where "drain is_empty deq fuel h' = Some (h'', ys)" "rep h'' []"
      using Suc.IH [OF \<open>rep h' ys\<close>] Suc.prems(2) Cons by auto
    ultimately show ?thesis
      using dq Cons by simp
  qed
qed simp

lemma fill_and_drain:
  assumes "rep h []" "distinct ds" "\<And>d. d \<in> set ds \<Longrightarrow> fresh h d"
  shows "\<exists>h'. drain is_empty deq (Suc (length ds)) (enqueue_all enq ds h) = Some (h', ds) \<and> rep h' []"
  using drain_rep [of "enqueue_all enq ds h" ds "Suc (length ds)"]
    rep_enqueue_all [of h "[]" ds] assms by simp

end

text \<open>The list of \<^verbatim>\<open>list.c\<close> with sentinel \<open>l\<close> provides the interface.\<close>

definition list_enq :: "node \<Rightarrow> node \<Rightarrow> list_heap \<Rightarrow> list_heap" where
  "list_enq l d h = fst (enet_list_insert (enet_list_end l h) d h)"

definition list_deq :: "node \<Rightarrow> list_heap \<Rightarrow> list_heap \<times> node" where
  "list_deq l h = enet_list_remove (enet_list_begin l h) h"

interpretation enet_queue: entry_queue "\<lambda>h xs. dlist h l xs" "\<lambda>h d. d \<noteq> l" "list_enq l"
  "list_deq l" "enet_list_empty l" for l
proof
  fix h xs d
  assume "dlist h l xs" "d \<notin> set xs" "d \<noteq> l"
  then show "dlist (list_enq l d h) l (xs @ [d])"
    using dlist_insert [of h l xs "[]" d] by (simp add: list_enq_def enet_list_end_def)
next
  fix h d xs
  assume "dlist h l (d # xs)"
  then show "snd (list_deq l h) = d" "dlist (fst (list_deq l h)) l xs"
    using dlist_remove [of h l "[]" d xs] dlist_begin [of h l "d # xs"]
    by (simp_all add: list_deq_def enet_list_begin_def enet_list_remove_def Let_def)
qed (simp_all add: dlist_empty)

subsection \<open>Properties\<close>

text \<open>
  C15.  \<^verbatim>\<open>enet_list_insert\<close> in front of any position of a well-formed list, the end
  included, yields the well-formed list with the node at that position, and
  \<^verbatim>\<open>enet_list_remove\<close> of that node restores the contents; every other list of the heap
  is untouched by both.
\<close>

theorem list_insert_remove:
  assumes "dlist h l (xs @ ys)" "d \<notin> set (l # xs @ ys)"
    and "dlist h t zs" "set (t # zs) \<inter> set (l # d # xs @ ys) = {}"
  defines "h' \<equiv> fst (enet_list_insert (hd (ys @ [l])) d h)"
  shows "dlist h' l (xs @ d # ys) \<and> dlist (fst (enet_list_remove d h')) l (xs @ ys) \<and>
    dlist h' t zs \<and> dlist (fst (enet_list_remove d h')) t zs"
proof -
  have 1: "dlist h' l (xs @ d # ys)"
    unfolding h'_def by (rule dlist_insert [OF assms(1,2)])
  have 2: "dlist h' t zs"
    unfolding h'_def
    by (rule dlist_frame [OF assms(3)]) (intro insert_frame [OF assms(1)]; use assms(2,4) in auto)
  have "dlist (fst (enet_list_remove d h')) t zs"
    by (rule dlist_frame [OF 2]) (intro remove_frame [OF 1]; use assms(4) in auto)
  then show ?thesis
    using 1 2 dlist_remove [OF 1] by simp
qed


text \<open>A two-element list over sentinel 0 and an empty one over sentinel 9.\<close>

definition sample_heap :: list_heap where
  "sample_heap = \<lparr>nxt = (\<lambda>n. n)(0 := 1, 1 := 2, 2 := 0), prv = (\<lambda>n. n)(0 := 2, 2 := 1, 1 := 0)\<rparr>"

lemma sample_heap_lists: "dlist sample_heap 0 [1, 2]" "dlist sample_heap 9 []"
  by (simp_all add: sample_heap_def dlist_def)

theorem list_insert_remove_witness:
  "dlist (fst (enet_list_insert 2 5 sample_heap)) 0 [1, 5, 2] \<and>
   dlist (fst (enet_list_insert 2 5 sample_heap)) 9 []"
  using list_insert_remove [of sample_heap 0 "[1]" "[2]" 5 9 "[]"] sample_heap_lists by simp

text \<open>
  \<^verbatim>\<open>enet_list_move\<close> cuts the block \<open>ms\<close> out of one list and inserts it, in order,
  in front of the given position of another list.
\<close>

theorem list_move_block:
  assumes "dlist h l (xs @ ms @ ys)" "ms \<noteq> []" "dlist h t (us @ vs)"
    and "set (l # xs @ ms @ ys) \<inter> set (t # us @ vs) = {}"
  shows "dlist (fst (enet_list_move (hd (vs @ [t])) (hd ms) (last ms) h)) l (xs @ ys) \<and>
    dlist (fst (enet_list_move (hd (vs @ [t])) (hd ms) (last ms) h)) t (us @ ms @ vs)"
  using dlist_move [OF assms] by simp

theorem list_move_block_witness:
  "dlist (fst (enet_list_move 9 1 2 sample_heap)) 0 [] \<and>
   dlist (fst (enet_list_move 9 1 2 sample_heap)) 9 [1, 2]"
  using list_move_block [of sample_heap 0 "[]" "[1, 2]" "[]" 9 "[]" "[]"] sample_heap_lists by simp

text \<open>
  C17.  On a well-formed list the loop of \<^verbatim>\<open>enet_list_size\<close> ends, and it returns the
  number of nodes (modulo the range of \<^verbatim>\<open>size_t\<close>).
\<close>

theorem list_size_returns:
  assumes "dlist h l xs"
  shows "enet_list_size l h = Some (of_nat (length xs))"
  using list_size_loop_length [of h l "[]" xs 0] assms dlist_begin [OF assms]
  by (simp add: enet_list_size_def enet_list_begin_def)

theorem list_size_returns_witness: "enet_list_size 0 sample_heap = Some 2"
  using list_size_returns [OF sample_heap_lists(1)] by simp

text \<open>
  C16.  Entries queued at the end of a cleared list one by one (the fragments of a packet in
  \<^verbatim>\<open>enet_peer_send\<close>) come out of the drain loop in the order they went in, the loop ends,
  and it leaves the list empty.
\<close>

theorem list_fill_drain_fifo:
  assumes "distinct ds" "l \<notin> set ds"
  shows "\<exists>h'. drain (enet_list_empty l) (list_deq l) (Suc (length ds))
      (enqueue_all (list_enq l) ds (enet_list_clear l h)) = Some (h', ds) \<and> dlist h' l []"
  by (rule enet_queue.fill_and_drain [OF dlist_clear]) (use assms in auto)

theorem list_fill_drain_fifo_witness:
  "map_option snd (drain (enet_list_empty 0) (list_deq 0) 4
      (enqueue_all (list_enq 0) [3, 1, 2] (enet_list_clear 0 sample_heap))) = Some [3, 1, 2]"
  using list_fill_drain_fifo [of "[3, 1, 2]" 0 sample_heap] by (auto simp: numeral_eq_Suc)

end
