(* ===== verification/Crc32.thy ===== *)
theory Crc32
  imports Prelude
begin

text \<open>
  The checksum of \<^verbatim>\<open>packet.c\<close>: a table of 256 entries is built once by
  \<^verbatim>\<open>initialize_crc32\<close>, and \<^verbatim>\<open>enet_crc32\<close> runs it over the bytes of all buffers.  The
  reference is the bit-serial CRC-32 with the reflected polynomial \<^verbatim>\<open>0xEDB88320\<close>.
\<close>

subsection \<open>The code\<close>

text \<open>\<^verbatim>\<open>val\<close> and \<^verbatim>\<open>result\<close> are signed 32-bit integers of the code, so \<^verbatim>\<open>>>\<close> is the
  arithmetic shift.\<close>

fun reflect_loop :: "nat \<Rightarrow> nat \<Rightarrow> u32 \<Rightarrow> u32 \<Rightarrow> u32" where
  "reflect_loop bits 0 val result = result"
| "reflect_loop bits (Suc n) val result =
     (let bit = bits - Suc n in
      reflect_loop bits n (signed_drop_bit 1 val)
        (if val AND 1 \<noteq> 0 then result OR push_bit (bits - 1 - bit) 1 else result))"

definition reflect_crc :: "u32 \<Rightarrow> nat \<Rightarrow> u32" where
  "reflect_crc val bits = reflect_loop bits bits val 0"

definition crc_msb_step :: "u32 \<Rightarrow> u32" where
  "crc_msb_step crc =
     (if crc AND 0x80000000 \<noteq> 0 then push_bit 1 crc XOR 0x04c11db7 else push_bit 1 crc)"

definition crc_table_entry :: "nat \<Rightarrow> u32" where
  "crc_table_entry byte =
     (let crc = push_bit 24 (reflect_crc (of_nat byte) 8)
      in reflect_crc ((crc_msb_step ^^ 8) crc) 32)"

definition initialize_crc32 :: "u32 list" where
  "initialize_crc32 = map crc_table_entry [0..<256]"

definition crc_byte_step :: "u32 list \<Rightarrow> u8 \<Rightarrow> u32 \<Rightarrow> u32" where
  "crc_byte_step crcTable b crc =
     drop_bit 8 crc XOR (crcTable ! unat ((crc AND 0xFF) XOR ucast b))"

fun crc_buffers :: "u32 list \<Rightarrow> u8 list list \<Rightarrow> u32 \<Rightarrow> u32" where
  "crc_buffers crcTable [] crc = crc"
| "crc_buffers crcTable (data # buffers) crc =
     crc_buffers crcTable buffers (fold (crc_byte_step crcTable) data crc)"

definition host_to_net_32 :: "u32 \<Rightarrow> u32" where
  "host_to_net_32 w = push_bit 24 (w AND 0xFF) OR push_bit 8 (w AND 0xFF00) OR
     (drop_bit 8 w AND 0xFF00) OR drop_bit 24 w"

definition enet_crc32 :: "u8 list list \<Rightarrow> u32" where
  "enet_crc32 buffers = host_to_net_32 (NOT (crc_buffers initialize_crc32 buffers 0xFFFFFFFF))"

subsection \<open>The reference\<close>

definition crc_bit :: "u32 \<Rightarrow> u32" where
  "crc_bit c = (if bit c 0 then drop_bit 1 c XOR 0xEDB88320 else drop_bit 1 c)"

definition crc_serial_byte :: "u8 \<Rightarrow> u32 \<Rightarrow> u32" where
  "crc_serial_byte b c = (crc_bit ^^ 8) (c XOR ucast b)"

definition crc32_serial :: "u8 list \<Rightarrow> u32" where
  "crc32_serial bs = NOT (fold crc_serial_byte bs 0xFFFFFFFF)"

subsection \<open>The table holds the serial CRC of every byte\<close>

lemma crc_bit_xor: "crc_bit (x XOR y) = crc_bit x XOR crc_bit y"
  unfolding crc_bit_def by (auto simp: bit_simps intro!: bit_word_eqI)

lemma crc_bits_xor: "(crc_bit ^^ n) (x XOR y) = (crc_bit ^^ n) x XOR (crc_bit ^^ n) y"
  by (induction n) (simp_all add: crc_bit_xor)

lemma crc_bits_shift:
  "(\<And>k. k < n \<Longrightarrow> \<not> bit c k) \<Longrightarrow> (crc_bit ^^ n) c = drop_bit n c"
proof (induction n)
  case (Suc n)
  then show ?case
    by (simp add: crc_bit_def bit_simps)
qed simp

text \<open>\<^verbatim>\<open>reflect_crc\<close> reverses the lowest \<^verbatim>\<open>bits\<close> bits.\<close>

lemma and_1_bit: "w AND 1 \<noteq> 0 \<longleftrightarrow> bit (w :: u32) 0"
  by (simp add: and_one_eq bit_0 odd_iff_mod_2_eq_one)

lemma bit_signed_drop_1: "Suc j < 32 \<Longrightarrow> bit (signed_drop_bit 1 (w :: u32)) j = bit w (Suc j)"
  by (simp add: bit_simps)

lemma bit_reflect_loop:
  assumes "n \<le> bits" "bits \<le> 32"
  shows "bit (reflect_loop bits n val res) k = (bit res k \<or> k < n \<and> bit val (n - 1 - k))"
  using assms
proof (induction n arbitrary: val res)
  case (Suc n)
  let ?res = "if val AND 1 \<noteq> 0 then res OR push_bit n 1 else res"
  have pos: "bits - 1 - (bits - Suc n) = n"
    using Suc.prems by simp
  have "bit ?res k = (bit res k \<or> k = n \<and> bit val 0)"
    using Suc.prems by (auto simp: and_1_bit bit_simps)
  moreover have "bit (signed_drop_bit 1 val) (n - 1 - k) = bit val (n - k)" if "k < n"
    using that Suc.prems bit_signed_drop_1 [of "n - 1 - k" val] by (simp add: Suc_diff_Suc)
  ultimately show ?case
    using Suc.IH [of "signed_drop_bit 1 val" ?res] Suc.prems
    by (auto simp: Let_def pos less_Suc_eq)
qed simp

lemma bit_reflect_crc:
  "bits \<le> 32 \<Longrightarrow> bit (reflect_crc val bits) k = (k < bits \<and> bit val (bits - 1 - k))"
  by (simp add: reflect_crc_def bit_reflect_loop)

lemma reflect_crc_twice: "reflect_crc (reflect_crc w 32) 32 = w"
  by (rule bit_word_eqI) (auto simp: bit_reflect_crc)

lemma reflect_polynomial: "reflect_crc 0x04c11db7 32 = 0xEDB88320"
  by (simp add: reflect_crc_def numeral_eq_Suc Let_def)

lemma and_top_bit: "w AND 0x80000000 \<noteq> 0 \<longleftrightarrow> bit (w :: u32) 31"
  using and_exp_eq_0_iff_not_bit [of w 31] by simp

text \<open>A step of the table's loop is the mirror image of a step of the serial CRC.\<close>

lemma reflect_shift: "reflect_crc (push_bit 1 c) 32 = drop_bit 1 (reflect_crc c 32)"
proof (rule bit_word_eqI)
  fix n
  assume "n < LENGTH(32)"
  then have n: "n < 32"
    by simp
  have "bit (push_bit 1 c) (31 - n) \<longleftrightarrow> 1 \<le> 31 - n \<and> bit c (31 - n - 1)"
    using n by (simp only: bit_push_bit_iff possible_bit_word len_num0 len_num1 len_bit0 len_bit1) auto
  then show "bit (reflect_crc (push_bit 1 c) 32) n = bit (drop_bit 1 (reflect_crc c 32)) n"
    using n by (simp only: bit_reflect_crc bit_drop_bit_eq comp_def le_refl) auto
qed

lemma reflect_xor: "reflect_crc (x XOR y) 32 = reflect_crc x 32 XOR reflect_crc y 32"
  by (rule bit_word_eqI) (auto simp: bit_reflect_crc bit_simps)

lemma reflect_step: "reflect_crc (crc_msb_step c) 32 = crc_bit (reflect_crc c 32)"
proof -
  have "bit (reflect_crc c 32) 0 = bit c 31"
    by (simp add: bit_reflect_crc)
  then show ?thesis
    unfolding crc_msb_step_def crc_bit_def and_top_bit
    by (simp only: reflect_shift reflect_xor reflect_polynomial split: if_split) simp
qed

lemma reflect_steps: "reflect_crc ((crc_msb_step ^^ n) c) 32 = (crc_bit ^^ n) (reflect_crc c 32)"
  by (induction n) (simp_all add: reflect_step)

lemma reflect_byte:
  "push_bit 24 (reflect_crc (ucast (b :: u8)) 8) = reflect_crc (ucast b) 32"
proof (rule bit_word_eqI)
  fix n
  assume "n < LENGTH(32)"
  moreover have "31 - n < 8 \<Longrightarrow> 7 - (n - 24) = 31 - n" "31 - n < 8 \<longleftrightarrow> n \<ge> 24"
    by arith+
  ultimately show "bit (push_bit 24 (reflect_crc (ucast b) 8)) n = bit (reflect_crc (ucast b) 32) n"
    using bit_imp_le_length [of b "31 - n"] by (auto simp: bit_reflect_crc bit_simps)
qed

lemma table_entry:
  "initialize_crc32 ! unat (b :: u8) = (crc_bit ^^ 8) (ucast b)"
proof -
  have "unat b < 256" "of_nat (unat b) = (ucast b :: u32)"
    by simp_all
  then show ?thesis
    by (simp add: initialize_crc32_def crc_table_entry_def Let_def reflect_byte reflect_steps
        reflect_crc_twice)
qed

lemma mask_ff: "(0xFF :: u32) = mask 8"
  by (simp add: mask_eq_exp_minus_1)

lemma low_byte_xor: "(c AND 0xFF) XOR ucast b = (ucast (ucast (c :: u32) XOR (b :: u8)) :: u32)"
  unfolding mask_ff take_bit_eq_mask [symmetric] by (rule bit_word_eqI) (auto simp: bit_simps)

lemma split_low_byte:
  "(c :: u32) XOR ucast (b :: u8) = (c AND NOT 0xFF) XOR ucast (ucast c XOR b :: u8)"
  unfolding mask_ff by (rule bit_word_eqI) (auto simp: bit_simps)

lemma drop_high: "drop_bit 8 ((c :: u32) AND NOT 0xFF) = drop_bit 8 c"
  unfolding mask_ff by (rule bit_word_eqI) (auto simp: bit_simps dest: bit_imp_le_length)

lemma table_byte_step: "crc_byte_step initialize_crc32 b c = crc_serial_byte b c"
proof -
  have "(crc_bit ^^ 8) (c AND NOT 0xFF) = drop_bit 8 c"
    by (subst crc_bits_shift) (simp_all only: drop_high, simp add: mask_ff bit_simps)
  moreover have "unat ((c AND 0xFF) XOR ucast b) = unat (ucast c XOR b :: u8)"
    by (simp only: low_byte_xor) (simp add: unat_ucast_up)
  ultimately show ?thesis
    by (simp only: crc_byte_step_def crc_serial_byte_def table_entry crc_bits_xor
        split_low_byte [of c b])
qed

lemma crc_buffers_serial:
  "crc_buffers initialize_crc32 bufs c = fold crc_serial_byte (concat bufs) c"
proof -
  have step: "crc_byte_step initialize_crc32 = crc_serial_byte"
    by (intro ext) (rule table_byte_step)
  show ?thesis
    by (induction bufs arbitrary: c) (simp_all add: step)
qed

subsection \<open>Property\<close>

text \<open>
  C12.  The table-driven checksum over any split of the data into buffers is the bit-serial
  CRC-32 of the concatenated bytes, in network byte order: the table is right, and the
  scattering of a datagram over buffers does not influence its checksum.
\<close>

theorem crc32_is_serial_crc:
  "enet_crc32 bufs = host_to_net_32 (crc32_serial (concat bufs))"
  by (simp add: enet_crc32_def crc32_serial_def crc_buffers_serial)

end
