(* ===== verification/Packet.thy ===== *)
theory Packet
  imports Prelude
begin

text \<open>
  The packets of \<^verbatim>\<open>packet.c\<close> and the memory they live in.  A packet is shared: the
  application creates it and any number of queues hold a reference, counted in
  \<^verbatim>\<open>referenceCount\<close>.  The heap maps the address of a packet to its contents; a freed
  address maps to \<open>None\<close>, and a function that would dereference it returns \<open>None\<close>.
  \<^verbatim>\<open>enet_malloc\<close> may fail: the heap carries the outcomes of the calls to come
  (an exhausted list means that every further call succeeds), so the error paths of the
  code are branches of the model.  Bytes of freshly allocated memory are \<open>None\<close> until
  they are written.
\<close>

definition ENET_PACKET_FLAG_RELIABLE :: u32 where [enet_consts]: "ENET_PACKET_FLAG_RELIABLE = 1"
definition ENET_PACKET_FLAG_UNSEQUENCED :: u32 where [enet_consts]: "ENET_PACKET_FLAG_UNSEQUENCED = 2"
definition ENET_PACKET_FLAG_NO_ALLOCATE :: u32 where [enet_consts]: "ENET_PACKET_FLAG_NO_ALLOCATE = 4"
definition ENET_PACKET_FLAG_UNRELIABLE_FRAGMENT :: u32 where
  [enet_consts]: "ENET_PACKET_FLAG_UNRELIABLE_FRAGMENT = 8"
definition ENET_PACKET_FLAG_SENT :: u32 where [enet_consts]: "ENET_PACKET_FLAG_SENT = 256"

type_synonym bytes = "u8 option list"
type_synonym packet_id = nat

record packet =
  referenceCount :: size_t
  pk_flags :: u32
  pk_data :: "bytes option" \<comment> \<open>\<open>None\<close> is the null pointer\<close>
  dataLength :: size_t
  freeCallback :: "nat option"
  userData :: "nat option"

record heap =
  hp_packets :: "packet_id \<Rightarrow> packet option"
  hp_next :: packet_id
  hp_mallocs :: "bool list"
  hp_callbacks :: "(packet_id \<times> nat \<times> u32) list"
    \<comment> \<open>calls of free callbacks: packet, callback, the packet's flags\<close>

definition empty_heap :: heap where
  "empty_heap = \<lparr>hp_packets = (\<lambda>_. None), hp_next = 0, hp_mallocs = [], hp_callbacks = []\<rparr>"

definition enet_malloc :: "heap \<Rightarrow> bool \<times> heap" where
  "enet_malloc h = (case hp_mallocs h of [] \<Rightarrow> (True, h) | b # bs \<Rightarrow> (b, h\<lparr>hp_mallocs := bs\<rparr>))"

definition update_packet :: "packet_id \<Rightarrow> packet \<Rightarrow> heap \<Rightarrow> heap" where
  "update_packet pid p h = h\<lparr>hp_packets := (hp_packets h)(pid \<mapsto> p)\<rparr>"

definition free_packet :: "packet_id \<Rightarrow> heap \<Rightarrow> heap" where
  "free_packet pid h = h\<lparr>hp_packets := (hp_packets h)(pid := None)\<rparr>"

definition alloc_packet :: "packet \<Rightarrow> heap \<Rightarrow> packet_id \<times> heap" where
  "alloc_packet p h =
     (hp_next h, h\<lparr>hp_packets := (hp_packets h)(hp_next h \<mapsto> p), hp_next := Suc (hp_next h)\<rparr>)"

subsection \<open>packet.c\<close>

definition init_packet :: "bytes option \<Rightarrow> size_t \<Rightarrow> u32 \<Rightarrow> heap \<Rightarrow> packet_id option \<times> heap" where
  "init_packet d len flags h =
     (let (pid, h) = alloc_packet \<lparr>referenceCount = 0, pk_flags = flags, pk_data = d,
            dataLength = len, freeCallback = None, userData = None\<rparr> h
      in (Some pid, h))"

text \<open>
  The argument \<^verbatim>\<open>data\<close> is null or the address of a buffer, given by its bytes; reading
  past its end is undefined.  The inner \<open>None\<close> is the code's null result.
\<close>

definition enet_packet_create ::
  "bytes option \<Rightarrow> size_t \<Rightarrow> u32 \<Rightarrow> heap \<Rightarrow> (packet_id option \<times> heap) option" where
  "enet_packet_create data len flags h =
     (let (ok, h) = enet_malloc h in
      if \<not> ok then Some (None, h)
      else if flags AND ENET_PACKET_FLAG_NO_ALLOCATE \<noteq> 0 then Some (init_packet data len flags h)
        else if len \<le> 0 then Some (init_packet None len flags h)
        else let (ok, h) = enet_malloc h in
          if \<not> ok then Some (None, h)
          else (case data of
              None \<Rightarrow> Some (init_packet (Some (replicate (unat len) None)) len flags h)
            | Some bs \<Rightarrow>
                if unat len \<le> length bs then Some (init_packet (Some (take (unat len) bs)) len flags h) else None))"

definition enet_packet_destroy :: "packet_id option \<Rightarrow> heap \<Rightarrow> heap option" where
  "enet_packet_destroy packet h =
     (case packet of
        None \<Rightarrow> Some h
      | Some pid \<Rightarrow> do {
          p \<leftarrow> hp_packets h pid;
          let h = (case freeCallback p of
                     None \<Rightarrow> h
                   | Some cb \<Rightarrow> h\<lparr>hp_callbacks := hp_callbacks h @ [(pid, cb, pk_flags p)]\<rparr>);
          Some (free_packet pid h) })"

definition enet_packet_resize :: "packet_id \<Rightarrow> size_t \<Rightarrow> heap \<Rightarrow> (int \<times> heap) option" where
  "enet_packet_resize pid len h = do {
     p \<leftarrow> hp_packets h pid;
     if len \<le> dataLength p \<or> pk_flags p AND ENET_PACKET_FLAG_NO_ALLOCATE \<noteq> 0
     then Some (0, update_packet pid (p\<lparr>dataLength := len\<rparr>) h)
     else let (ok, h) = enet_malloc h in
       if \<not> ok then Some (-1, h)
       else let old = (case pk_data p of None \<Rightarrow> [] | Some bs \<Rightarrow> bs) in
         if unat (dataLength p) \<le> length old then
           Some (0, update_packet pid
             (p\<lparr>pk_data := Some (take (unat (dataLength p)) old @
                   replicate (unat len - unat (dataLength p)) None),
                dataLength := len\<rparr>) h)
         else None }"

text \<open>
  The two ways in which the queues give a reference back.  The second sets
  \<^verbatim>\<open>ENET_PACKET_FLAG_SENT\<close> before it destroys the packet, which its free callback sees.
\<close>

definition release_packet :: "packet_id \<Rightarrow> heap \<Rightarrow> heap option" where
  "release_packet pid h = do {
     p \<leftarrow> hp_packets h pid;
     let p = p\<lparr>referenceCount := referenceCount p - 1\<rparr>;
     let h = update_packet pid p h;
     if referenceCount p = 0 then enet_packet_destroy (Some pid) h else Some h }"

definition release_sent_packet :: "packet_id \<Rightarrow> heap \<Rightarrow> heap option" where
  "release_sent_packet pid h = do {
     p \<leftarrow> hp_packets h pid;
     let p = p\<lparr>referenceCount := referenceCount p - 1\<rparr>;
     let h = update_packet pid p h;
     if referenceCount p = 0
     then enet_packet_destroy (Some pid)
            (update_packet pid (p\<lparr>pk_flags := pk_flags p OR ENET_PACKET_FLAG_SENT\<rparr>) h)
     else Some h }"

definition retain_packet :: "packet_id \<Rightarrow> size_t \<Rightarrow> heap \<Rightarrow> heap option" where
  "retain_packet pid n h = do {
     p \<leftarrow> hp_packets h pid;
     Some (update_packet pid (p\<lparr>referenceCount := referenceCount p + n\<rparr>) h) }"

fun release_all :: "('p \<Rightarrow> 'h \<Rightarrow> 'h option) \<Rightarrow> 'p list \<Rightarrow> 'h \<Rightarrow> 'h option" where
  "release_all release [] h = Some h"
| "release_all release (p # ps) h = Option.bind (release p h) (release_all release ps)"

subsection \<open>Reference counts\<close>

text \<open>A packet's buffer holds as many bytes as the packet says.\<close>

definition packet_fits :: "packet \<Rightarrow> bool" where
  "packet_fits p \<longleftrightarrow> unat (dataLength p) \<le> (case pk_data p of None \<Rightarrow> 0 | Some bs \<Rightarrow> length bs)"

lemma packet_fits_upd [simp]:
  "packet_fits (p\<lparr>referenceCount := n\<rparr>) = packet_fits p" "packet_fits (p\<lparr>pk_flags := f\<rparr>) = packet_fits p"
  by (simp_all add: packet_fits_def)

text \<open>
  \<open>refs_ok h M\<close>: the count of every live packet is the number of references in \<open>M\<close>,
  \<open>M\<close> refers to live packets only, and every packet has its bytes.
\<close>

definition refs_ok :: "heap \<Rightarrow> packet_id multiset \<Rightarrow> bool" where
  "refs_ok h M \<longleftrightarrow>
     (\<forall>pid. case hp_packets h pid of
        None \<Rightarrow> count M pid = 0
      | Some p \<Rightarrow> unat (referenceCount p) = count M pid) \<and>
     (\<forall>pid \<ge> hp_next h. hp_packets h pid = None) \<and>
     (\<forall>pid p. hp_packets h pid = Some p \<longrightarrow> packet_fits p)"

definition live :: "heap \<Rightarrow> packet_id \<Rightarrow> bool" where
  "live h pid \<longleftrightarrow> hp_packets h pid \<noteq> None"

text \<open>
  The interface the queues of a peer rely on: giving back a reference that is counted
  succeeds and keeps the counts right, and frees the packet exactly if it was the last.
\<close>

locale counted_store =
  fixes ok :: "'h \<Rightarrow> 'p multiset \<Rightarrow> bool"
    and alive :: "'h \<Rightarrow> 'p \<Rightarrow> bool"
    and release :: "'p \<Rightarrow> 'h \<Rightarrow> 'h option"
  assumes release_some: "ok h (add_mset p M) \<Longrightarrow> \<exists>h'. release p h = Some h' \<and> ok h' M"
    and release_alive: "ok h (add_mset p M) \<Longrightarrow> release p h = Some h' \<Longrightarrow>
      alive h' q \<longleftrightarrow> alive h q \<and> (q = p \<longrightarrow> p \<in># M)"
begin

lemma release_all_some:
  "ok h (mset ps + M) \<Longrightarrow>
    \<exists>h'. release_all release ps h = Some h' \<and> ok h' M \<and>
      (\<forall>q. alive h' q \<longleftrightarrow> alive h q \<and> (q \<in> set ps \<longrightarrow> q \<in># M))"
proof (induction ps arbitrary: h)
  case (Cons p ps)
  then have ok: "ok h (add_mset p (mset ps + M))"
    by simp
  then obtain h1 where h1: "release p h = Some h1" "ok h1 (mset ps + M)"
    using release_some by blast
  then obtain h' where h': "release_all release ps h1 = Some h'" "ok h' M"
    and al: "\<And>q. alive h' q \<longleftrightarrow> alive h1 q \<and> (q \<in> set ps \<longrightarrow> q \<in># M)"
    using Cons.IH by blast
  show ?case
    using h1(1) h' release_alive [OF ok h1(1)] al by auto
qed simp

end

lemma refs_ok_at:
  "refs_ok h M \<Longrightarrow> case hp_packets h pid of None \<Rightarrow> count M pid = 0
    | Some p \<Rightarrow> unat (referenceCount p) = count M pid"
  by (simp add: refs_ok_def)

lemma refs_ok_live: "refs_ok h M \<Longrightarrow> pid \<in># M \<Longrightarrow> \<exists>p. hp_packets h pid = Some p"
  using refs_ok_at [of h M pid] by (auto simp: count_eq_zero_iff split: option.splits)

lemma refs_ok_count: "refs_ok h M \<Longrightarrow> hp_packets h pid = Some p \<Longrightarrow> unat (referenceCount p) = count M pid"
  using refs_ok_at [of h M pid] by simp

lemma refs_ok_None: "refs_ok h M \<Longrightarrow> hp_packets h pid = None \<Longrightarrow> count M pid = 0"
  using refs_ok_at [of h M pid] by simp

lemma refs_ok_next: "refs_ok h M \<Longrightarrow> hp_next h \<le> pid \<Longrightarrow> hp_packets h pid = None"
  by (simp add: refs_ok_def)

lemma refs_ok_fits: "refs_ok h M \<Longrightarrow> hp_packets h pid = Some p \<Longrightarrow> packet_fits p"
  by (simp add: refs_ok_def)

lemma refs_okI:
  assumes "\<And>pid. hp_packets h pid = None \<Longrightarrow> count M pid = 0"
    and "\<And>pid p. hp_packets h pid = Some p \<Longrightarrow> unat (referenceCount p) = count M pid"
    and "\<And>pid. hp_next h \<le> pid \<Longrightarrow> hp_packets h pid = None"
    and "\<And>pid p. hp_packets h pid = Some p \<Longrightarrow> packet_fits p"
  shows "refs_ok h M"
  unfolding refs_ok_def by (auto simp del: count_eq_zero_iff simp: assms split: option.split)

lemma unat_dec: "unat (w :: size_t) = Suc n \<Longrightarrow> unat (w - 1) = n"
  using unat_minus_one [of w] by (cases "w = 0") auto

lemma enet_packet_destroy_packets:
  "hp_packets h pid = Some p \<Longrightarrow> \<exists>h'. enet_packet_destroy (Some pid) h = Some h' \<and>
    hp_packets h' = (hp_packets h)(pid := None) \<and> hp_next h' = hp_next h"
  by (auto simp: enet_packet_destroy_def free_packet_def split: option.splits)

text \<open>Both ways to release a packet change the heap's packets in the same way.\<close>

lemma release_packets:
  assumes "hp_packets h pid = Some p" "rel = release_packet \<or> rel = release_sent_packet"
  shows "\<exists>h'. rel pid h = Some h' \<and> hp_next h' = hp_next h \<and>
    hp_packets h' = (hp_packets h)(pid :=
      if referenceCount p - 1 = 0 then None
      else Some (p\<lparr>referenceCount := referenceCount p - 1\<rparr>))"
proof -
  let ?p = "p\<lparr>referenceCount := referenceCount p - 1\<rparr>"
  let ?h = "update_packet pid ?p h"
  let ?hs = "update_packet pid (?p\<lparr>pk_flags := pk_flags ?p OR ENET_PACKET_FLAG_SENT\<rparr>) ?h"
  show ?thesis
    using assms enet_packet_destroy_packets [of ?h pid ?p]
      enet_packet_destroy_packets [of ?hs pid "?p\<lparr>pk_flags := pk_flags ?p OR ENET_PACKET_FLAG_SENT\<rparr>"]
    by (auto simp: release_packet_def release_sent_packet_def update_packet_def Let_def)
qed

lemma release_refs_ok:
  assumes ok: "refs_ok h (add_mset pid M)" and rel: "rel = release_packet \<or> rel = release_sent_packet"
  shows "\<exists>h'. rel pid h = Some h' \<and> refs_ok h' M \<and>
    (\<forall>q. live h' q \<longleftrightarrow> live h q \<and> (q = pid \<longrightarrow> pid \<in># M))"
proof -
  obtain p where p: "hp_packets h pid = Some p"
    using refs_ok_live [OF ok, of pid] by auto
  then have rc: "unat (referenceCount p - 1) = count M pid"
    using refs_ok_count [OF ok p] by (simp add: unat_dec)
  obtain h' where h': "rel pid h = Some h'" "hp_next h' = hp_next h"
    and pk: "hp_packets h' = (hp_packets h)(pid :=
      if referenceCount p - 1 = 0 then None else Some (p\<lparr>referenceCount := referenceCount p - 1\<rparr>))"
    using release_packets [OF p rel] by blast
  have z: "referenceCount p - 1 = 0 \<longleftrightarrow> pid \<notin># M"
    using rc by (metis count_eq_zero_iff unat_eq_zero)
  have "refs_ok h' M"
    unfolding refs_ok_def
  proof (intro conjI allI impI)
    fix q
    show "case hp_packets h' q of None \<Rightarrow> count M q = 0 | Some p \<Rightarrow> unat (referenceCount p) = count M q"
    proof (cases "q = pid")
      case True
      then show ?thesis using rc z by (simp add: pk count_eq_zero_iff)
    next
      case False
      then have "hp_packets h' q = hp_packets h q" by (simp add: pk)
      then show ?thesis
        using refs_ok_at [OF ok, of q] False by (auto split: option.splits)
    qed
  next
    fix q
    assume "hp_next h' \<le> q"
    then show "hp_packets h' q = None"
      using ok p h'(2) by (auto simp: refs_ok_def pk)
  next
    fix q r
    assume "hp_packets h' q = Some r"
    then show "packet_fits r"
      using refs_ok_fits [OF ok] p by (auto simp: pk split: if_splits)
  qed
  then show ?thesis
    using h' p z by (auto simp: live_def pk)
qed

lemma release_refs_some:
  "refs_ok h (add_mset pid M) \<Longrightarrow> \<exists>h'. release_packet pid h = Some h' \<and> refs_ok h' M"
  "refs_ok h (add_mset pid M) \<Longrightarrow> \<exists>h'. release_sent_packet pid h = Some h' \<and> refs_ok h' M"
  using release_refs_ok [of h pid M release_packet] release_refs_ok [of h pid M release_sent_packet]
  by auto

lemma release_refs_alive:
  "refs_ok h (add_mset pid M) \<Longrightarrow> release_packet pid h = Some h' \<Longrightarrow>
    live h' q \<longleftrightarrow> live h q \<and> (q = pid \<longrightarrow> pid \<in># M)"
  "refs_ok h (add_mset pid M) \<Longrightarrow> release_sent_packet pid h = Some h' \<Longrightarrow>
    live h' q \<longleftrightarrow> live h q \<and> (q = pid \<longrightarrow> pid \<in># M)"
  using release_refs_ok [of h pid M release_packet] release_refs_ok [of h pid M release_sent_packet]
  by auto

interpretation released: counted_store refs_ok live release_packet
  by unfold_locales (fact release_refs_some, fact release_refs_alive)

interpretation sent: counted_store refs_ok live release_sent_packet
  by unfold_locales (fact release_refs_some, fact release_refs_alive)


lemma retain_refs_ok:
  assumes ok: "refs_ok h M" and p: "hp_packets h pid = Some p"
    and bound: "count M pid + unat n < 2 ^ 64"
  shows "\<exists>h'. retain_packet pid n h = Some h' \<and> refs_ok h' (replicate_mset (unat n) pid + M) \<and>
    live h' = live h"
proof -
  let ?p = "p\<lparr>referenceCount := referenceCount p + n\<rparr>"
  have "unat (referenceCount p + n) = unat n + count M pid"
    using bound refs_ok_count [OF ok p] by (subst unat_add_no_wrap) simp_all
  moreover have "pid < hp_next h"
    using refs_ok_next [OF ok, of pid] p by (metis not_le option.distinct(1))
  ultimately have "refs_ok (update_packet pid ?p h) (replicate_mset (unat n) pid + M)"
    by (intro refs_okI)
      (auto simp: update_packet_def refs_ok_count [OF ok] refs_ok_None [OF ok]
        refs_ok_next [OF ok] refs_ok_fits [OF ok] refs_ok_fits [OF ok p] split: if_splits simp del: count_eq_zero_iff)
  moreover have "live (update_packet pid ?p h) = live h"
    using p by (auto simp: live_def update_packet_def fun_eq_iff)
  ultimately show ?thesis
    by (simp add: retain_packet_def p)
qed

lemma enet_malloc_packets:
  "enet_malloc h = (b, h') \<Longrightarrow> hp_packets h' = hp_packets h \<and> hp_next h' = hp_next h"
  by (auto simp: enet_malloc_def split: list.splits)

lemma refs_ok_cong:
  "hp_packets h' = hp_packets h \<Longrightarrow> hp_next h' = hp_next h \<Longrightarrow> refs_ok h' M = refs_ok h M"
  by (simp add: refs_ok_def)

lemma alloc_packet_refs:
  assumes al: "alloc_packet p h = (pid, h')" and rc: "referenceCount p = 0" and ok: "refs_ok h M"
    and fits: "packet_fits p"
  shows "refs_ok h' M \<and> \<not> live h pid \<and> hp_packets h' = (hp_packets h)(pid \<mapsto> p)"
proof -
  have pid: "pid = hp_next h" "hp_packets h' = (hp_packets h)(pid \<mapsto> p)" "hp_next h' = Suc (hp_next h)"
    using al by (auto simp: alloc_packet_def)
  have none: "hp_packets h pid = None"
    using refs_ok_next [OF ok] pid(1) by simp
  have "refs_ok h' M"
    by (intro refs_okI)
      (auto simp: pid(2,3) rc refs_ok_None [OF ok] refs_ok_count [OF ok] refs_ok_next [OF ok]
        refs_ok_None [OF ok none] refs_ok_fits [OF ok] fits split: if_splits simp del: count_eq_zero_iff, simp add: pid(1))
  with pid(2) none show ?thesis
    by (simp add: live_def)
qed

text \<open>What a call that returns \<open>r\<close> has added to the heap.\<close>

definition packet_added :: "heap \<Rightarrow> packet_id option \<Rightarrow> size_t \<Rightarrow> heap \<Rightarrow> bool" where
  "packet_added h r len h' \<longleftrightarrow>
     (case r of
        None \<Rightarrow> hp_packets h' = hp_packets h
      | Some pid \<Rightarrow> \<not> live h pid \<and> (\<exists>p. hp_packets h' = (hp_packets h)(pid \<mapsto> p) \<and>
          referenceCount p = 0 \<and> dataLength p = len))"

lemma init_packet_refs:
  assumes "init_packet d len flags h1 = (r, h')" "refs_ok h M"
    and "hp_packets h1 = hp_packets h" "hp_next h1 = hp_next h"
    and "unat len \<le> (case d of None \<Rightarrow> 0 | Some bs \<Rightarrow> length bs)"
  shows "refs_ok h' M \<and> packet_added h r len h'"
proof -
  let ?p = "\<lparr>referenceCount = 0, pk_flags = flags, pk_data = d, dataLength = len,
    freeCallback = None, userData = None\<rparr>"
  obtain pid where al: "alloc_packet ?p h1 = (pid, h')" and r: "r = Some pid"
    using assms(1) by (auto simp: init_packet_def split: prod.splits)
  show ?thesis
    using alloc_packet_refs [OF al, of M] refs_ok_cong [OF assms(3,4), of M] assms(2,3,5) r
    by (auto simp: packet_added_def live_def packet_fits_def intro!: exI [of _ ?p])
qed

lemma create_refs_ok:
  assumes cr: "enet_packet_create data len flags h = Some (r, h')" and ok: "refs_ok h M"
    and fits: "case data of None \<Rightarrow> flags AND ENET_PACKET_FLAG_NO_ALLOCATE = 0 | Some bs \<Rightarrow> unat len \<le> length bs"
  shows "refs_ok h' M \<and> packet_added h r len h'"
proof -
  obtain b1 h1 where m1: "enet_malloc h = (b1, h1)" by (cases "enet_malloc h")
  obtain b2 h2 where m2: "enet_malloc h1 = (b2, h2)" by (cases "enet_malloc h1")
  have pk: "hp_packets h1 = hp_packets h" "hp_next h1 = hp_next h"
      "hp_packets h2 = hp_packets h" "hp_next h2 = hp_next h"
    using enet_malloc_packets [OF m1] enet_malloc_packets [OF m2] by simp_all
  have none: "refs_ok h1 M \<and> packet_added h None len h1" "refs_ok h2 M \<and> packet_added h None len h2"
    using ok pk refs_ok_cong [OF pk(1,2), of M] refs_ok_cong [OF pk(3,4), of M]
    by (simp_all add: packet_added_def)
  consider "r = None" "h' = h1" | "r = None" "h' = h2"
    | d where "init_packet d len flags h1 = (r, h')" "unat len \<le> (case d of None \<Rightarrow> 0 | Some bs \<Rightarrow> length bs)"
    | d where "init_packet d len flags h2 = (r, h')" "unat len \<le> (case d of None \<Rightarrow> 0 | Some bs \<Rightarrow> length bs)"
    using cr fits unfolding enet_packet_create_def m1 Let_def prod.case m2
    by (auto split: if_splits option.splits)
  then show ?thesis
    using none init_packet_refs [OF _ ok pk(1,2)] init_packet_refs [OF _ ok pk(3,4)]
    by cases auto
qed

subsection \<open>Properties\<close>

text \<open>
  C13.  Resizing a packet whose buffer holds its data: on success the packet has the new
  length, no byte below both lengths has changed, and (unless the buffer is the caller's)
  the buffer is large enough for the new length; on failure no packet has changed.
\<close>

theorem packet_resize_keeps_data:
  assumes "hp_packets h pid = Some p" "packet_fits p"
  shows "\<exists>r h'. enet_packet_resize pid len h = Some (r, h') \<and>
    (r \<noteq> 0 \<longrightarrow> r = -1 \<and> hp_packets h' = hp_packets h) \<and>
    (r = 0 \<longrightarrow> (\<exists>p'. hp_packets h' = (hp_packets h)(pid \<mapsto> p') \<and> dataLength p' = len \<and>
      referenceCount p' = referenceCount p \<and>
      (\<forall>i < min (unat len) (unat (dataLength p)).
         the (pk_data p') ! i = the (pk_data p) ! i) \<and>
      (pk_flags p AND ENET_PACKET_FLAG_NO_ALLOCATE = 0 \<longrightarrow> packet_fits p')))"
proof (cases "len \<le> dataLength p \<or> pk_flags p AND ENET_PACKET_FLAG_NO_ALLOCATE \<noteq> 0")
  case True
  moreover have "packet_fits (p\<lparr>dataLength := len\<rparr>)" if "len \<le> dataLength p"
    using assms(2) that by (auto simp: packet_fits_def word_le_nat_alt split: option.splits)
  ultimately show ?thesis
    using assms by (intro exI [of _ "0 :: int"] exI [of _ "update_packet pid (p\<lparr>dataLength := len\<rparr>) h"])
      (auto simp: enet_packet_resize_def update_packet_def)
next
  case False
  obtain b h1 where m: "enet_malloc h = (b, h1)"
    by (cases "enet_malloc h")
  define old where "old = (case pk_data p of None \<Rightarrow> [] | Some bs \<Rightarrow> bs)"
  define p' where "p' = p\<lparr>pk_data := Some (take (unat (dataLength p)) old @
      replicate (unat len - unat (dataLength p)) None), dataLength := len\<rparr>"
  have le: "unat (dataLength p) \<le> length old"
    using assms(2) by (simp add: packet_fits_def old_def split: option.splits)
  then have fits: "packet_fits p'"
    by (simp add: packet_fits_def p'_def)
  have keep: "the (pk_data p') ! i = the (pk_data p) ! i" if "i < unat (dataLength p)" for i
    using that le by (cases "pk_data p") (simp_all add: p'_def old_def nth_append)
  have "enet_packet_resize pid len h =
      (if b then Some (0, update_packet pid p' h1) else Some (-1, h1))"
    using False le by (simp add: enet_packet_resize_def assms(1) m old_def [symmetric] p'_def [symmetric])
  moreover have "hp_packets h1 = hp_packets h"
    using enet_malloc_packets [OF m] by simp
  ultimately show ?thesis
    using fits keep by (cases b) (auto simp: update_packet_def p'_def)
qed

theorem packet_resize_keeps_data_witness:
  "\<exists>r h'. enet_packet_resize 0 3
    (empty_heap\<lparr>hp_packets := [0 \<mapsto> \<lparr>referenceCount = 0, pk_flags = 1, pk_data = Some [Some 7],
       dataLength = 1, freeCallback = None, userData = None\<rparr>]\<rparr>) = Some (r, h')"
  using packet_resize_keeps_data [of "empty_heap\<lparr>hp_packets := [0 \<mapsto> \<lparr>referenceCount = 0, pk_flags = 1,
    pk_data = Some [Some 7], dataLength = 1, freeCallback = None, userData = None\<rparr>]\<rparr>" 0 _ 3]
  by (auto simp: packet_fits_def)

text \<open>
  C10.  When the references a queue holds are given back one by one, nothing freed is
  touched, every remaining packet keeps an exact count, and precisely the packets to which
  no reference is left are freed.
\<close>

theorem release_all_exact:
  assumes "refs_ok h (mset ps + M)"
  shows "\<exists>h'. release_all release_packet ps h = Some h' \<and> refs_ok h' M \<and>
    (\<forall>q. live h' q \<longleftrightarrow> live h q \<and> (q \<in> set ps \<longrightarrow> q \<in># M))"
  by (rule released.release_all_some [OF assms])

definition sample_packet :: packet where
  "sample_packet = \<lparr>referenceCount = 2, pk_flags = 1, pk_data = Some [Some 1, Some 2],
     dataLength = 2, freeCallback = Some 5, userData = None\<rparr>"

definition sample_packets :: heap where
  "sample_packets = empty_heap\<lparr>hp_packets := [0 \<mapsto> sample_packet], hp_next := 1\<rparr>"

lemma sample_packets_refs: "refs_ok sample_packets {#0, 0#}"
  by (auto simp: refs_ok_def packet_fits_def sample_packets_def sample_packet_def empty_heap_def)

theorem release_all_exact_witness:
  "\<exists>h'. release_all release_packet [0, 0] sample_packets = Some h' \<and> \<not> live h' 0"
  using release_all_exact [of sample_packets "[0, 0]" "{#}"] sample_packets_refs by auto

end
