(* ===== verification/Wire.thy ===== *)
theory Wire
  imports Prelude
begin

text \<open>
  \<^verbatim>\<open>enet/protocol.h\<close>: the commands of the wire protocol.  The union \<^verbatim>\<open>ENetProtocol\<close> is a
  command header together with a body, one constructor per member of the union.  Field
  values are kept in host order; the encoder and the decoder put the conversions
  \<^verbatim>\<open>ENET_HOST_TO_NET\<close> and \<^verbatim>\<open>ENET_NET_TO_HOST\<close> of the code where the structs meet the bytes
  of a datagram: 16 and 32-bit fields are big endian, except \<^verbatim>\<open>connectID\<close>, which the
  code never converts and which therefore is in the (little endian) order of the target.
\<close>

subsection \<open>Constants\<close>

definition ENET_PROTOCOL_MINIMUM_MTU :: u32 where [enet_consts]: "ENET_PROTOCOL_MINIMUM_MTU = 576"
definition ENET_PROTOCOL_MAXIMUM_MTU :: u32 where [enet_consts]: "ENET_PROTOCOL_MAXIMUM_MTU = 4096"
definition ENET_PROTOCOL_MAXIMUM_PACKET_COMMANDS :: nat where
  [enet_consts]: "ENET_PROTOCOL_MAXIMUM_PACKET_COMMANDS = 32"
definition ENET_PROTOCOL_MINIMUM_WINDOW_SIZE :: u32 where
  [enet_consts]: "ENET_PROTOCOL_MINIMUM_WINDOW_SIZE = 4096"
definition ENET_PROTOCOL_MAXIMUM_WINDOW_SIZE :: u32 where
  [enet_consts]: "ENET_PROTOCOL_MAXIMUM_WINDOW_SIZE = 65536"
definition ENET_PROTOCOL_MINIMUM_CHANNEL_COUNT :: size_t where
  [enet_consts]: "ENET_PROTOCOL_MINIMUM_CHANNEL_COUNT = 1"
definition ENET_PROTOCOL_MAXIMUM_CHANNEL_COUNT :: size_t where
  [enet_consts]: "ENET_PROTOCOL_MAXIMUM_CHANNEL_COUNT = 255"
definition ENET_PROTOCOL_MAXIMUM_PEER_ID :: u16 where [enet_consts]: "ENET_PROTOCOL_MAXIMUM_PEER_ID = 0xFFF"
definition ENET_PROTOCOL_MAXIMUM_FRAGMENT_COUNT :: u32 where
  [enet_consts]: "ENET_PROTOCOL_MAXIMUM_FRAGMENT_COUNT = 1024 * 1024"

definition ENET_PROTOCOL_COMMAND_NONE :: u8 where [enet_consts]: "ENET_PROTOCOL_COMMAND_NONE = 0"
definition ENET_PROTOCOL_COMMAND_ACKNOWLEDGE :: u8 where [enet_consts]: "ENET_PROTOCOL_COMMAND_ACKNOWLEDGE = 1"
definition ENET_PROTOCOL_COMMAND_CONNECT :: u8 where [enet_consts]: "ENET_PROTOCOL_COMMAND_CONNECT = 2"
definition ENET_PROTOCOL_COMMAND_VERIFY_CONNECT :: u8 where [enet_consts]: "ENET_PROTOCOL_COMMAND_VERIFY_CONNECT = 3"
definition ENET_PROTOCOL_COMMAND_DISCONNECT :: u8 where [enet_consts]: "ENET_PROTOCOL_COMMAND_DISCONNECT = 4"
definition ENET_PROTOCOL_COMMAND_PING :: u8 where [enet_consts]: "ENET_PROTOCOL_COMMAND_PING = 5"
definition ENET_PROTOCOL_COMMAND_SEND_RELIABLE :: u8 where [enet_consts]: "ENET_PROTOCOL_COMMAND_SEND_RELIABLE = 6"
definition ENET_PROTOCOL_COMMAND_SEND_UNRELIABLE :: u8 where [enet_consts]: "ENET_PROTOCOL_COMMAND_SEND_UNRELIABLE = 7"
definition ENET_PROTOCOL_COMMAND_SEND_FRAGMENT :: u8 where [enet_consts]: "ENET_PROTOCOL_COMMAND_SEND_FRAGMENT = 8"
definition ENET_PROTOCOL_COMMAND_SEND_UNSEQUENCED :: u8 where [enet_consts]: "ENET_PROTOCOL_COMMAND_SEND_UNSEQUENCED = 9"
definition ENET_PROTOCOL_COMMAND_BANDWIDTH_LIMIT :: u8 where [enet_consts]: "ENET_PROTOCOL_COMMAND_BANDWIDTH_LIMIT = 10"
definition ENET_PROTOCOL_COMMAND_THROTTLE_CONFIGURE :: u8 where [enet_consts]: "ENET_PROTOCOL_COMMAND_THROTTLE_CONFIGURE = 11"
definition ENET_PROTOCOL_COMMAND_SEND_UNRELIABLE_FRAGMENT :: u8 where
  [enet_consts]: "ENET_PROTOCOL_COMMAND_SEND_UNRELIABLE_FRAGMENT = 12"
definition ENET_PROTOCOL_COMMAND_COUNT :: u8 where [enet_consts]: "ENET_PROTOCOL_COMMAND_COUNT = 13"
definition ENET_PROTOCOL_COMMAND_MASK :: u8 where [enet_consts]: "ENET_PROTOCOL_COMMAND_MASK = 0x0F"
definition ENET_PROTOCOL_COMMAND_FLAG_ACKNOWLEDGE :: u8 where [enet_consts]: "ENET_PROTOCOL_COMMAND_FLAG_ACKNOWLEDGE = 128"
definition ENET_PROTOCOL_COMMAND_FLAG_UNSEQUENCED :: u8 where [enet_consts]: "ENET_PROTOCOL_COMMAND_FLAG_UNSEQUENCED = 64"

definition ENET_PROTOCOL_HEADER_FLAG_COMPRESSED :: u16 where
  [enet_consts]: "ENET_PROTOCOL_HEADER_FLAG_COMPRESSED = 0x4000"
definition ENET_PROTOCOL_HEADER_FLAG_SENT_TIME :: u16 where
  [enet_consts]: "ENET_PROTOCOL_HEADER_FLAG_SENT_TIME = 0x8000"
definition ENET_PROTOCOL_HEADER_FLAG_MASK :: u16 where
  [enet_consts]: "ENET_PROTOCOL_HEADER_FLAG_MASK =
     ENET_PROTOCOL_HEADER_FLAG_COMPRESSED OR ENET_PROTOCOL_HEADER_FLAG_SENT_TIME"
definition ENET_PROTOCOL_HEADER_SESSION_MASK :: u16 where
  [enet_consts]: "ENET_PROTOCOL_HEADER_SESSION_MASK = 0x3000"
definition ENET_PROTOCOL_HEADER_SESSION_SHIFT :: nat where
  [enet_consts]: "ENET_PROTOCOL_HEADER_SESSION_SHIFT = 12"

subsection \<open>The command structs\<close>

record connect_data =
  cn_outgoingPeerID :: u16
  cn_incomingSessionID :: u8
  cn_outgoingSessionID :: u8
  cn_mtu :: u32
  cn_windowSize :: u32
  cn_channelCount :: u32
  cn_incomingBandwidth :: u32
  cn_outgoingBandwidth :: u32
  cn_packetThrottleInterval :: u32
  cn_packetThrottleAcceleration :: u32
  cn_packetThrottleDeceleration :: u32
  cn_connectID :: u32
  cn_data :: u32

record verify_connect_data =
  vc_outgoingPeerID :: u16
  vc_incomingSessionID :: u8
  vc_outgoingSessionID :: u8
  vc_mtu :: u32
  vc_windowSize :: u32
  vc_channelCount :: u32
  vc_incomingBandwidth :: u32
  vc_outgoingBandwidth :: u32
  vc_packetThrottleInterval :: u32
  vc_packetThrottleAcceleration :: u32
  vc_packetThrottleDeceleration :: u32
  vc_connectID :: u32

record fragment_data =
  fr_startSequenceNumber :: u16
  fr_dataLength :: u16
  fr_fragmentCount :: u32
  fr_fragmentNumber :: u32
  fr_totalLength :: u32
  fr_fragmentOffset :: u32

datatype protocol_body =
    Acknowledge u16 u16 \<comment> \<open>receivedReliableSequenceNumber, receivedSentTime\<close>
  | Connect connect_data
  | VerifyConnect verify_connect_data
  | Disconnect u32 \<comment> \<open>data\<close>
  | Ping
  | SendReliable u16 \<comment> \<open>dataLength\<close>
  | SendUnreliable u16 u16 \<comment> \<open>unreliableSequenceNumber, dataLength\<close>
  | SendFragment fragment_data
  | SendUnsequenced u16 u16 \<comment> \<open>unsequencedGroup, dataLength\<close>
  | BandwidthLimit u32 u32 \<comment> \<open>incomingBandwidth, outgoingBandwidth\<close>
  | ThrottleConfigure u32 u32 u32 \<comment> \<open>interval, acceleration, deceleration\<close>

record protocol =
  p_command :: u8
  p_channelID :: u8
  p_reliableSequenceNumber :: u16
  p_body :: protocol_body

definition command_number :: "protocol \<Rightarrow> u8" where
  "command_number c = p_command c AND ENET_PROTOCOL_COMMAND_MASK"

text \<open>
  \<^verbatim>\<open>commandSizes\<close> of \<^verbatim>\<open>protocol.c\<close>, indexed by command number.  The array has
  \<^verbatim>\<open>ENET_PROTOCOL_COMMAND_COUNT\<close> entries; the code checks a received number against that
  bound before it indexes.
\<close>

definition sizeof_ENetProtocolHeader :: size_t where [enet_consts]: "sizeof_ENetProtocolHeader = 4"
definition sizeof_ENetProtocolSendFragment :: size_t where [enet_consts]: "sizeof_ENetProtocolSendFragment = 24"
definition sizeof_ENetProtocolAcknowledge :: size_t where [enet_consts]: "sizeof_ENetProtocolAcknowledge = 8"
definition sizeof_ENetProtocolPing :: size_t where [enet_consts]: "sizeof_ENetProtocolPing = 4"

definition commandSizes :: "size_t list" where
  "commandSizes = [0, 8, 48, 44, 8, 4, 6, 8, 24, 8, 12, 16, 24]"

definition enet_protocol_command_size :: "u8 \<Rightarrow> size_t" where
  "enet_protocol_command_size commandNumber =
     commandSizes ! unat (commandNumber AND ENET_PROTOCOL_COMMAND_MASK)"

subsection \<open>Integers on the wire\<close>

definition put16 :: "u16 \<Rightarrow> u8 list" where
  "put16 w = [ucast (drop_bit 8 w), ucast w]"

definition put32 :: "u32 \<Rightarrow> u8 list" where
  "put32 w = [ucast (drop_bit 24 w), ucast (drop_bit 16 w), ucast (drop_bit 8 w), ucast w]"

definition put32_native :: "u32 \<Rightarrow> u8 list" where
  "put32_native w = rev (put32 w)"

type_synonym 'a getter = "u8 list \<Rightarrow> ('a \<times> u8 list) option"

fun get8 :: "u8 getter" where
  "get8 (a # bs) = Some (a, bs)"
| "get8 bs = None"

fun get16 :: "u16 getter" where
  "get16 (a # b # bs) = Some (push_bit 8 (ucast a) OR ucast b, bs)"
| "get16 bs = None"

definition join32 :: "u8 \<Rightarrow> u8 \<Rightarrow> u8 \<Rightarrow> u8 \<Rightarrow> u32" where
  "join32 a b c d = push_bit 24 (ucast a) OR push_bit 16 (ucast b) OR push_bit 8 (ucast c) OR ucast d"

fun get32 :: "u32 getter" where
  "get32 (a # b # c # d # bs) = Some (join32 a b c d, bs)"
| "get32 bs = None"

fun get32_native :: "u32 getter" where
  "get32_native (a # b # c # d # bs) = Some (join32 d c b a, bs)"
| "get32_native bs = None"

lemma join16: "push_bit 8 (ucast (ucast (drop_bit 8 w) :: u8)) OR ucast (ucast w :: u8) = (w :: u16)"
  by (rule bit_word_eqI) (auto simp: bit_simps)

lemma join32_split:
  "join32 (ucast (drop_bit 24 w)) (ucast (drop_bit 16 w)) (ucast (drop_bit 8 w)) (ucast w) = w"
proof (rule bit_word_eqI)
  fix n
  assume "n < LENGTH(32)"
  then show "bit (join32 (ucast (drop_bit 24 w)) (ucast (drop_bit 16 w)) (ucast (drop_bit 8 w)) (ucast w)) n = bit w n"
    by (cases "n < 8"; cases "n < 16"; cases "n < 24") (auto simp: join32_def bit_simps)
qed

lemma get8_put [wire_simps]: "get8 (b # bs) = Some (b, bs)"
  by simp

lemma get16_put16 [wire_simps]: "get16 (put16 w @ bs) = Some (w, bs)"
  by (simp add: put16_def join16)

lemma get32_put32 [wire_simps]: "get32 (put32 w @ bs) = Some (w, bs)"
  by (simp add: put32_def join32_split)

lemma get32_put32_native [wire_simps]: "get32_native (put32_native w @ bs) = Some (w, bs)"
  by (simp add: put32_native_def put32_def join32_split)

lemma length_put [wire_simps]:
  "length (put16 w) = 2" "length (put32 v) = 4" "length (put32_native v) = 4"
  by (simp_all add: put16_def put32_def put32_native_def)

subsection \<open>Commands on the wire\<close>

fun put_body :: "protocol_body \<Rightarrow> u8 list" where
  "put_body (Acknowledge sn t) = put16 sn @ put16 t"
| "put_body (Connect c) =
     put16 (cn_outgoingPeerID c) @ cn_incomingSessionID c # cn_outgoingSessionID c #
     put32 (cn_mtu c) @ put32 (cn_windowSize c) @ put32 (cn_channelCount c) @
     put32 (cn_incomingBandwidth c) @ put32 (cn_outgoingBandwidth c) @
     put32 (cn_packetThrottleInterval c) @ put32 (cn_packetThrottleAcceleration c) @
     put32 (cn_packetThrottleDeceleration c) @ put32_native (cn_connectID c) @ put32 (cn_data c)"
| "put_body (VerifyConnect c) =
     put16 (vc_outgoingPeerID c) @ vc_incomingSessionID c # vc_outgoingSessionID c #
     put32 (vc_mtu c) @ put32 (vc_windowSize c) @ put32 (vc_channelCount c) @
     put32 (vc_incomingBandwidth c) @ put32 (vc_outgoingBandwidth c) @
     put32 (vc_packetThrottleInterval c) @ put32 (vc_packetThrottleAcceleration c) @
     put32 (vc_packetThrottleDeceleration c) @ put32_native (vc_connectID c)"
| "put_body (Disconnect d) = put32 d"
| "put_body Ping = []"
| "put_body (SendReliable len) = put16 len"
| "put_body (SendUnreliable sn len) = put16 sn @ put16 len"
| "put_body (SendFragment f) =
     put16 (fr_startSequenceNumber f) @ put16 (fr_dataLength f) @ put32 (fr_fragmentCount f) @
     put32 (fr_fragmentNumber f) @ put32 (fr_totalLength f) @ put32 (fr_fragmentOffset f)"
| "put_body (SendUnsequenced g len) = put16 g @ put16 len"
| "put_body (BandwidthLimit i out) = put32 i @ put32 out"
| "put_body (ThrottleConfigure i a d) = put32 i @ put32 a @ put32 d"

definition put_command :: "protocol \<Rightarrow> u8 list" where
  "put_command c = p_command c # p_channelID c # put16 (p_reliableSequenceNumber c) @ put_body (p_body c)"

definition get_connect :: "connect_data getter" where
  "get_connect bs = do {
     (peer, bs) \<leftarrow> get16 bs; (ins, bs) \<leftarrow> get8 bs; (outs, bs) \<leftarrow> get8 bs;
     (mtu, bs) \<leftarrow> get32 bs; (win, bs) \<leftarrow> get32 bs; (chans, bs) \<leftarrow> get32 bs;
     (inb, bs) \<leftarrow> get32 bs; (outb, bs) \<leftarrow> get32 bs;
     (ti, bs) \<leftarrow> get32 bs; (ta, bs) \<leftarrow> get32 bs; (td, bs) \<leftarrow> get32 bs;
     (cid, bs) \<leftarrow> get32_native bs; (d, bs) \<leftarrow> get32 bs;
     Some (\<lparr>cn_outgoingPeerID = peer, cn_incomingSessionID = ins, cn_outgoingSessionID = outs,
       cn_mtu = mtu, cn_windowSize = win, cn_channelCount = chans, cn_incomingBandwidth = inb,
       cn_outgoingBandwidth = outb, cn_packetThrottleInterval = ti,
       cn_packetThrottleAcceleration = ta, cn_packetThrottleDeceleration = td,
       cn_connectID = cid, cn_data = d\<rparr>, bs) }"

definition get_verify_connect :: "verify_connect_data getter" where
  "get_verify_connect bs = do {
     (peer, bs) \<leftarrow> get16 bs; (ins, bs) \<leftarrow> get8 bs; (outs, bs) \<leftarrow> get8 bs;
     (mtu, bs) \<leftarrow> get32 bs; (win, bs) \<leftarrow> get32 bs; (chans, bs) \<leftarrow> get32 bs;
     (inb, bs) \<leftarrow> get32 bs; (outb, bs) \<leftarrow> get32 bs;
     (ti, bs) \<leftarrow> get32 bs; (ta, bs) \<leftarrow> get32 bs; (td, bs) \<leftarrow> get32 bs;
     (cid, bs) \<leftarrow> get32_native bs;
     Some (\<lparr>vc_outgoingPeerID = peer, vc_incomingSessionID = ins, vc_outgoingSessionID = outs,
       vc_mtu = mtu, vc_windowSize = win, vc_channelCount = chans, vc_incomingBandwidth = inb,
       vc_outgoingBandwidth = outb, vc_packetThrottleInterval = ti,
       vc_packetThrottleAcceleration = ta, vc_packetThrottleDeceleration = td,
       vc_connectID = cid\<rparr>, bs) }"

definition get_fragment :: "fragment_data getter" where
  "get_fragment bs = do {
     (start, bs) \<leftarrow> get16 bs; (len, bs) \<leftarrow> get16 bs; (cnt, bs) \<leftarrow> get32 bs;
     (num, bs) \<leftarrow> get32 bs; (total, bs) \<leftarrow> get32 bs; (off, bs) \<leftarrow> get32 bs;
     Some (\<lparr>fr_startSequenceNumber = start, fr_dataLength = len, fr_fragmentCount = cnt,
       fr_fragmentNumber = num, fr_totalLength = total, fr_fragmentOffset = off\<rparr>, bs) }"

text \<open>The member of the union that the command number selects.\<close>

definition get_body :: "u8 \<Rightarrow> protocol_body getter" where
  "get_body num bs =
     (if num = ENET_PROTOCOL_COMMAND_ACKNOWLEDGE then
        do { (sn, bs) \<leftarrow> get16 bs; (t, bs) \<leftarrow> get16 bs; Some (Acknowledge sn t, bs) }
      else if num = ENET_PROTOCOL_COMMAND_CONNECT then
        do { (c, bs) \<leftarrow> get_connect bs; Some (Connect c, bs) }
      else if num = ENET_PROTOCOL_COMMAND_VERIFY_CONNECT then
        do { (c, bs) \<leftarrow> get_verify_connect bs; Some (VerifyConnect c, bs) }
      else if num = ENET_PROTOCOL_COMMAND_DISCONNECT then
        do { (d, bs) \<leftarrow> get32 bs; Some (Disconnect d, bs) }
      else if num = ENET_PROTOCOL_COMMAND_PING then Some (Ping, bs)
      else if num = ENET_PROTOCOL_COMMAND_SEND_RELIABLE then
        do { (len, bs) \<leftarrow> get16 bs; Some (SendReliable len, bs) }
      else if num = ENET_PROTOCOL_COMMAND_SEND_UNRELIABLE then
        do { (sn, bs) \<leftarrow> get16 bs; (len, bs) \<leftarrow> get16 bs; Some (SendUnreliable sn len, bs) }
      else if num = ENET_PROTOCOL_COMMAND_SEND_FRAGMENT \<or>
              num = ENET_PROTOCOL_COMMAND_SEND_UNRELIABLE_FRAGMENT then
        do { (f, bs) \<leftarrow> get_fragment bs; Some (SendFragment f, bs) }
      else if num = ENET_PROTOCOL_COMMAND_SEND_UNSEQUENCED then
        do { (g, bs) \<leftarrow> get16 bs; (len, bs) \<leftarrow> get16 bs; Some (SendUnsequenced g len, bs) }
      else if num = ENET_PROTOCOL_COMMAND_BANDWIDTH_LIMIT then
        do { (i, bs) \<leftarrow> get32 bs; (out, bs) \<leftarrow> get32 bs; Some (BandwidthLimit i out, bs) }
      else if num = ENET_PROTOCOL_COMMAND_THROTTLE_CONFIGURE then
        do { (i, bs) \<leftarrow> get32 bs; (a, bs) \<leftarrow> get32 bs; (d, bs) \<leftarrow> get32 bs;
             Some (ThrottleConfigure i a d, bs) }
      else None)"

definition get_command :: "protocol getter" where
  "get_command bs = do {
     (cmd, bs) \<leftarrow> get8 bs; (chan, bs) \<leftarrow> get8 bs; (sn, bs) \<leftarrow> get16 bs;
     (body, bs) \<leftarrow> get_body (cmd AND ENET_PROTOCOL_COMMAND_MASK) bs;
     Some (\<lparr>p_command = cmd, p_channelID = chan, p_reliableSequenceNumber = sn, p_body = body\<rparr>, bs) }"

text \<open>The command numbers the senders of the code put in front of each body.\<close>

fun body_fits :: "u8 \<Rightarrow> protocol_body \<Rightarrow> bool" where
  "body_fits num (Acknowledge _ _) \<longleftrightarrow> num = ENET_PROTOCOL_COMMAND_ACKNOWLEDGE"
| "body_fits num (Connect _) \<longleftrightarrow> num = ENET_PROTOCOL_COMMAND_CONNECT"
| "body_fits num (VerifyConnect _) \<longleftrightarrow> num = ENET_PROTOCOL_COMMAND_VERIFY_CONNECT"
| "body_fits num (Disconnect _) \<longleftrightarrow> num = ENET_PROTOCOL_COMMAND_DISCONNECT"
| "body_fits num Ping \<longleftrightarrow> num = ENET_PROTOCOL_COMMAND_PING"
| "body_fits num (SendReliable _) \<longleftrightarrow> num = ENET_PROTOCOL_COMMAND_SEND_RELIABLE"
| "body_fits num (SendUnreliable _ _) \<longleftrightarrow> num = ENET_PROTOCOL_COMMAND_SEND_UNRELIABLE"
| "body_fits num (SendFragment _) \<longleftrightarrow>
     num = ENET_PROTOCOL_COMMAND_SEND_FRAGMENT \<or> num = ENET_PROTOCOL_COMMAND_SEND_UNRELIABLE_FRAGMENT"
| "body_fits num (SendUnsequenced _ _) \<longleftrightarrow> num = ENET_PROTOCOL_COMMAND_SEND_UNSEQUENCED"
| "body_fits num (BandwidthLimit _ _) \<longleftrightarrow> num = ENET_PROTOCOL_COMMAND_BANDWIDTH_LIMIT"
| "body_fits num (ThrottleConfigure _ _ _) \<longleftrightarrow> num = ENET_PROTOCOL_COMMAND_THROTTLE_CONFIGURE"

definition wf_command :: "protocol \<Rightarrow> bool" where
  "wf_command c \<longleftrightarrow> body_fits (command_number c) (p_body c)"

lemma get_body_put_body:
  "body_fits num b \<Longrightarrow> get_body num (put_body b @ bs) = Some (b, bs)"
  by (cases b) (auto simp: get_body_def enet_consts wire_simps get_connect_def
      get_verify_connect_def get_fragment_def)

text \<open>
  C11.  Every command the transport can build, written to a datagram in front of any other
  bytes, is read back as the same command and leaves exactly those bytes; the number of
  bytes written is the one \<^verbatim>\<open>commandSizes\<close> gives for its command number.
\<close>

theorem command_roundtrip:
  assumes "wf_command c"
  shows "get_command (put_command c @ bs) = Some (c, bs) \<and>
    length (put_command c) = unat (enet_protocol_command_size (p_command c))"
proof
  show "get_command (put_command c @ bs) = Some (c, bs)"
    using get_body_put_body [of "p_command c AND ENET_PROTOCOL_COMMAND_MASK" "p_body c" bs] assms
    by (simp add: get_command_def put_command_def wf_command_def command_number_def wire_simps)
  show "length (put_command c) = unat (enet_protocol_command_size (p_command c))"
    using assms unfolding wf_command_def command_number_def put_command_def enet_protocol_command_size_def
    by (cases "p_body c") (auto simp: enet_consts wire_simps commandSizes_def)
qed

theorem command_roundtrip_witness:
  "get_command (put_command \<lparr>p_command = 0x88, p_channelID = 1, p_reliableSequenceNumber = 4660,
      p_body = SendFragment \<lparr>fr_startSequenceNumber = 7, fr_dataLength = 3, fr_fragmentCount = 2,
        fr_fragmentNumber = 1, fr_totalLength = 100000, fr_fragmentOffset = 99997\<rparr>\<rparr> @ [1, 2, 3]) =
   Some (\<lparr>p_command = 0x88, p_channelID = 1, p_reliableSequenceNumber = 4660,
      p_body = SendFragment \<lparr>fr_startSequenceNumber = 7, fr_dataLength = 3, fr_fragmentCount = 2,
        fr_fragmentNumber = 1, fr_totalLength = 100000, fr_fragmentOffset = 99997\<rparr>\<rparr>, [1, 2, 3])"
  by (rule conjunct1 [OF command_roundtrip])
    (simp add: wf_command_def command_number_def enet_consts)

end
