(* ===== verification/ENet_Time.thy ===== *)
theory ENet_Time
  imports Prelude
begin

text \<open>
  The macros of \<^verbatim>\<open>enet/time.h\<close> and \<^verbatim>\<open>enet/utility.h\<close>.  Times are 32-bit millisecond
  counters that wrap around; the macros compare two of them on the assumption that they
  are less than a day (\<^verbatim>\<open>ENET_TIME_OVERFLOW\<close> milliseconds) apart.
\<close>

definition ENET_TIME_OVERFLOW :: u32 where
  "ENET_TIME_OVERFLOW = 86400000"

definition enet_time_less :: "u32 \<Rightarrow> u32 \<Rightarrow> bool" where
  "enet_time_less a b \<longleftrightarrow> a - b \<ge> ENET_TIME_OVERFLOW"

definition enet_time_greater :: "u32 \<Rightarrow> u32 \<Rightarrow> bool" where
  "enet_time_greater a b \<longleftrightarrow> b - a \<ge> ENET_TIME_OVERFLOW"

definition enet_time_less_equal :: "u32 \<Rightarrow> u32 \<Rightarrow> bool" where
  "enet_time_less_equal a b \<longleftrightarrow> \<not> enet_time_greater a b"

definition enet_time_greater_equal :: "u32 \<Rightarrow> u32 \<Rightarrow> bool" where
  "enet_time_greater_equal a b \<longleftrightarrow> \<not> enet_time_less a b"

definition enet_time_difference :: "u32 \<Rightarrow> u32 \<Rightarrow> u32" where
  "enet_time_difference a b = (if a - b \<ge> ENET_TIME_OVERFLOW then b - a else a - b)"

definition enet_max :: "'a::linorder \<Rightarrow> 'a \<Rightarrow> 'a" where
  "enet_max x y = (if x > y then x else y)"

definition enet_min :: "'a::linorder \<Rightarrow> 'a \<Rightarrow> 'a" where
  "enet_min x y = (if x < y then x else y)"

lemma enet_max_eq [simp]: "enet_max x y = max x y"
  by (auto simp: enet_max_def max_def)

lemma enet_min_eq [simp]: "enet_min x y = min x y"
  by (auto simp: enet_min_def min_def)

lemma neg_small_ge_overflow:
  assumes "0 < d" "unat d < 86400000"
  shows "- d \<ge> (86400000 :: u32)"
proof -
  from assms(1) have "0 < unat d"
    by (simp add: word_less_nat_alt)
  then have "unat (0 - d) = 4294967296 - unat d"
    by (subst unat_sub_if_size) (simp add: word_size)
  with assms(2) show ?thesis
    by (simp add: word_le_nat_alt)
qed

lemmas time_defs = enet_time_less_def enet_time_greater_def enet_time_less_equal_def
  enet_time_greater_equal_def enet_time_difference_def ENET_TIME_OVERFLOW_def

lemma small_not_ge_overflow: "unat d < 86400000 \<Longrightarrow> \<not> (86400000 :: u32) \<le> d"
  by (simp add: word_le_nat_alt)

text \<open>
  C18.  Whatever the counter's value, also across its wrap at \<open>2 ^ 32\<close>: a time that is
  \<open>d\<close> milliseconds later, \<open>0 < d\<close> and less than a day, is strictly greater than the
  earlier one in every one of the four comparisons, and the difference of the two,
  taken in either order, is \<open>d\<close>.
\<close>

theorem time_order_across_wrap:
  assumes "0 < d" "unat d < 86400000"
  shows "enet_time_less t (t + d) \<and> \<not> enet_time_less (t + d) t \<and>
    enet_time_greater (t + d) t \<and> \<not> enet_time_greater t (t + d) \<and>
    enet_time_less_equal t (t + d) \<and> \<not> enet_time_less_equal (t + d) t \<and>
    enet_time_greater_equal (t + d) t \<and> \<not> enet_time_greater_equal t (t + d) \<and>
    enet_time_difference t (t + d) = d \<and> enet_time_difference (t + d) t = d"
proof -
  have "t - (t + d) = - d" "t + d - t = d"
    by simp_all
  then show ?thesis
    using neg_small_ge_overflow [OF assms] small_not_ge_overflow [OF assms(2)]
    by (simp add: time_defs)
qed

text \<open>A witness at the wrap itself: 250 ms after \<open>2 ^ 32 - 100\<close> is 150.\<close>

theorem time_order_across_wrap_witness:
  "enet_time_less 4294967196 (150 :: u32) \<and> enet_time_difference 150 4294967196 = 250"
  using time_order_across_wrap [of 250 4294967196] by (simp add: time_defs)

end
