(* ===== verification/Peer_Types.thy ===== *)
theory Peer_Types
  imports Packet Wire ENet_Time
begin

text \<open>
  The structs of \<^verbatim>\<open>enet/enet.h\<close>.  The intrusive queues of a peer are lists of records
  (\<open>ENet_List\<close> shows that the pointer operations implement them), a peer is known by its
  index in the array \<^verbatim>\<open>host->peers\<close>, and a packet by its address in the heap.  The
  address of an incoming command is kept in the command (\<open>ic_id\<close>), because the code keeps
  pointers to queued commands while it moves and frees them.  The back pointer
  \<^verbatim>\<open>peer->host\<close> is implicit: the operations of a peer that reach its host take the host
  and the index.  A null array \<^verbatim>\<open>peer->channels\<close> is the empty list.
\<close>

subsection \<open>Constants\<close>

definition ENET_HOST_DEFAULT_MTU :: u32 where [enet_consts]: "ENET_HOST_DEFAULT_MTU = 1400"
definition ENET_HOST_BANDWIDTH_THROTTLE_INTERVAL :: u32 where
  [enet_consts]: "ENET_HOST_BANDWIDTH_THROTTLE_INTERVAL = 1000"
definition ENET_HOST_DEFAULT_MAXIMUM_PACKET_SIZE :: size_t where
  [enet_consts]: "ENET_HOST_DEFAULT_MAXIMUM_PACKET_SIZE = 32 * 1024 * 1024"
definition ENET_HOST_DEFAULT_MAXIMUM_WAITING_DATA :: size_t where
  [enet_consts]: "ENET_HOST_DEFAULT_MAXIMUM_WAITING_DATA = 32 * 1024 * 1024"
definition ENET_PEER_DEFAULT_ROUND_TRIP_TIME :: u32 where [enet_consts]: "ENET_PEER_DEFAULT_ROUND_TRIP_TIME = 500"
definition ENET_PEER_DEFAULT_PACKET_THROTTLE :: u32 where [enet_consts]: "ENET_PEER_DEFAULT_PACKET_THROTTLE = 32"
definition ENET_PEER_PACKET_THROTTLE_SCALE :: u32 where [enet_consts]: "ENET_PEER_PACKET_THROTTLE_SCALE = 32"
definition ENET_PEER_PACKET_THROTTLE_COUNTER :: u32 where [enet_consts]: "ENET_PEER_PACKET_THROTTLE_COUNTER = 7"
definition ENET_PEER_PACKET_THROTTLE_ACCELERATION :: u32 where
  [enet_consts]: "ENET_PEER_PACKET_THROTTLE_ACCELERATION = 2"
definition ENET_PEER_PACKET_THROTTLE_DECELERATION :: u32 where
  [enet_consts]: "ENET_PEER_PACKET_THROTTLE_DECELERATION = 2"
definition ENET_PEER_PACKET_THROTTLE_INTERVAL :: u32 where [enet_consts]: "ENET_PEER_PACKET_THROTTLE_INTERVAL = 5000"
definition ENET_PEER_PACKET_LOSS_SCALE :: u32 where [enet_consts]: "ENET_PEER_PACKET_LOSS_SCALE = 65536"
definition ENET_PEER_PACKET_LOSS_INTERVAL :: u32 where [enet_consts]: "ENET_PEER_PACKET_LOSS_INTERVAL = 10000"
definition ENET_PEER_WINDOW_SIZE_SCALE :: u32 where [enet_consts]: "ENET_PEER_WINDOW_SIZE_SCALE = 65536"
definition ENET_PEER_TIMEOUT_LIMIT :: u32 where [enet_consts]: "ENET_PEER_TIMEOUT_LIMIT = 32"
definition ENET_PEER_TIMEOUT_MINIMUM :: u32 where [enet_consts]: "ENET_PEER_TIMEOUT_MINIMUM = 5000"
definition ENET_PEER_TIMEOUT_MAXIMUM :: u32 where [enet_consts]: "ENET_PEER_TIMEOUT_MAXIMUM = 30000"
definition ENET_PEER_PING_INTERVAL :: u32 where [enet_consts]: "ENET_PEER_PING_INTERVAL = 500"
definition ENET_PEER_UNSEQUENCED_WINDOW_SIZE :: u32 where [enet_consts]: "ENET_PEER_UNSEQUENCED_WINDOW_SIZE = 1024"
definition ENET_PEER_FREE_UNSEQUENCED_WINDOWS :: u32 where [enet_consts]: "ENET_PEER_FREE_UNSEQUENCED_WINDOWS = 32"
definition ENET_PEER_RELIABLE_WINDOWS :: u16 where [enet_consts]: "ENET_PEER_RELIABLE_WINDOWS = 16"
definition ENET_PEER_RELIABLE_WINDOW_SIZE :: u16 where [enet_consts]: "ENET_PEER_RELIABLE_WINDOW_SIZE = 0x1000"
definition ENET_PEER_FREE_RELIABLE_WINDOWS :: u16 where [enet_consts]: "ENET_PEER_FREE_RELIABLE_WINDOWS = 8"
definition ENET_HOST_BROADCAST :: u32 where [enet_consts]: "ENET_HOST_BROADCAST = 0xFFFFFFFF"
definition ENET_BUFFER_MAXIMUM :: nat where
  [enet_consts]: "ENET_BUFFER_MAXIMUM = 1 + 2 * ENET_PROTOCOL_MAXIMUM_PACKET_COMMANDS"

subsection \<open>Queue entries\<close>

record acknowledgement =
  ack_sentTime :: u32
  ack_command :: protocol

record outgoing_command =
  oc_reliableSequenceNumber :: u16
  oc_unreliableSequenceNumber :: u16
  oc_sentTime :: u32
  oc_roundTripTimeout :: u32
  oc_roundTripTimeoutLimit :: u32
  oc_fragmentOffset :: u32
  oc_fragmentLength :: u16
  oc_sendAttempts :: u16
  oc_command :: protocol
  oc_packet :: "packet_id option"

record incoming_command =
  ic_id :: nat
  ic_reliableSequenceNumber :: u16
  ic_unreliableSequenceNumber :: u16
  ic_command :: protocol
  ic_fragmentCount :: u32
  ic_fragmentsRemaining :: u32
  ic_fragments :: "u32 list option"
  ic_packet :: "packet_id option"

subsection \<open>Channels, peers and hosts\<close>

record channel =
  ch_outgoingReliableSequenceNumber :: u16
  ch_outgoingUnreliableSequenceNumber :: u16
  ch_usedReliableWindows :: u16
  ch_reliableWindows :: "u16 list"
  ch_incomingReliableSequenceNumber :: u16
  ch_incomingUnreliableSequenceNumber :: u16
  ch_incomingReliableCommands :: "incoming_command list"
  ch_incomingUnreliableCommands :: "incoming_command list"

definition fresh_channel :: channel where
  "fresh_channel = \<lparr>ch_outgoingReliableSequenceNumber = 0, ch_outgoingUnreliableSequenceNumber = 0,
     ch_usedReliableWindows = 0, ch_reliableWindows = replicate 16 0,
     ch_incomingReliableSequenceNumber = 0, ch_incomingUnreliableSequenceNumber = 0,
     ch_incomingReliableCommands = [], ch_incomingUnreliableCommands = []\<rparr>"

datatype peer_state =
    DISCONNECTED | CONNECTING | ACKNOWLEDGING_CONNECT | CONNECTION_PENDING
  | CONNECTION_SUCCEEDED | CONNECTED | DISCONNECT_LATER | DISCONNECTING
  | ACKNOWLEDGING_DISCONNECT | ZOMBIE

text \<open>The numeric order of the enumeration, which the code compares states in.\<close>

fun state_number :: "peer_state \<Rightarrow> nat" where
  "state_number DISCONNECTED = 0"
| "state_number CONNECTING = 1"
| "state_number ACKNOWLEDGING_CONNECT = 2"
| "state_number CONNECTION_PENDING = 3"
| "state_number CONNECTION_SUCCEEDED = 4"
| "state_number CONNECTED = 5"
| "state_number DISCONNECT_LATER = 6"
| "state_number DISCONNECTING = 7"
| "state_number ACKNOWLEDGING_DISCONNECT = 8"
| "state_number ZOMBIE = 9"

lemma state_number_inj: "state_number a = state_number b \<Longrightarrow> a = b"
  by (cases a; cases b) simp_all

instantiation peer_state :: linorder
begin

definition less_eq_peer_state :: "peer_state \<Rightarrow> peer_state \<Rightarrow> bool" where
  "less_eq_peer_state a b \<longleftrightarrow> state_number a \<le> state_number b"

definition less_peer_state :: "peer_state \<Rightarrow> peer_state \<Rightarrow> bool" where
  "less_peer_state a b \<longleftrightarrow> state_number a < state_number b"

instance
  by standard (auto simp: less_eq_peer_state_def less_peer_state_def intro: state_number_inj)

end

record address =
  ad_host :: u32
  ad_port :: u16

record peer =
  needsDispatch :: bool
  outgoingPeerID :: u16
  incomingPeerID :: u16
  connectID :: u32
  outgoingSessionID :: u8
  incomingSessionID :: u8
  pr_address :: address
  state :: peer_state
  channels :: "channel list"
  channelCount :: size_t
  incomingBandwidth :: u32
  outgoingBandwidth :: u32
  incomingBandwidthThrottleEpoch :: u32
  outgoingBandwidthThrottleEpoch :: u32
  incomingDataTotal :: u32
  outgoingDataTotal :: u32
  lastSendTime :: u32
  lastReceiveTime :: u32
  nextTimeout :: u32
  earliestTimeout :: u32
  packetLossEpoch :: u32
  packetsSent :: u32
  packetsLost :: u32
  packetLoss :: u32
  packetLossVariance :: u32
  packetThrottle :: u32
  packetThrottleLimit :: u32
  packetThrottleCounter :: u32
  packetThrottleEpoch :: u32
  packetThrottleAcceleration :: u32
  packetThrottleDeceleration :: u32
  packetThrottleInterval :: u32
  pingInterval :: u32
  timeoutLimit :: u32
  timeoutMinimum :: u32
  timeoutMaximum :: u32
  lastRoundTripTime :: u32
  lowestRoundTripTime :: u32
  lastRoundTripTimeVariance :: u32
  highestRoundTripTimeVariance :: u32
  roundTripTime :: u32
  roundTripTimeVariance :: u32
  mtu :: u32
  windowSize :: u32
  reliableDataInTransit :: u32
  outgoingReliableSequenceNumber :: u16
  acknowledgements :: "acknowledgement list"
  sentReliableCommands :: "outgoing_command list"
  sentUnreliableCommands :: "outgoing_command list"
  outgoingReliableCommands :: "outgoing_command list"
  outgoingUnreliableCommands :: "outgoing_command list"
  dispatchedCommands :: "incoming_command list"
  incomingUnsequencedGroup :: u16
  outgoingUnsequencedGroup :: u16
  unsequencedWindow :: "u32 list"
  eventData :: u32
  totalWaitingData :: size_t

text \<open>The bytes of a fresh array of peers: \<^verbatim>\<open>enet_host_create\<close> fills it with zeroes.\<close>

definition zero_peer :: peer where
  "zero_peer = \<lparr>needsDispatch = False, outgoingPeerID = 0, incomingPeerID = 0, connectID = 0,
     outgoingSessionID = 0, incomingSessionID = 0, pr_address = \<lparr>ad_host = 0, ad_port = 0\<rparr>,
     state = DISCONNECTED, channels = [], channelCount = 0, incomingBandwidth = 0,
     outgoingBandwidth = 0, incomingBandwidthThrottleEpoch = 0, outgoingBandwidthThrottleEpoch = 0,
     incomingDataTotal = 0, outgoingDataTotal = 0, lastSendTime = 0, lastReceiveTime = 0,
     nextTimeout = 0, earliestTimeout = 0, packetLossEpoch = 0, packetsSent = 0, packetsLost = 0,
     packetLoss = 0, packetLossVariance = 0, packetThrottle = 0, packetThrottleLimit = 0,
     packetThrottleCounter = 0, packetThrottleEpoch = 0, packetThrottleAcceleration = 0,
     packetThrottleDeceleration = 0, packetThrottleInterval = 0, pingInterval = 0,
     timeoutLimit = 0, timeoutMinimum = 0, timeoutMaximum = 0, lastRoundTripTime = 0,
     lowestRoundTripTime = 0, lastRoundTripTimeVariance = 0, highestRoundTripTimeVariance = 0,
     roundTripTime = 0, roundTripTimeVariance = 0, mtu = 0, windowSize = 0,
     reliableDataInTransit = 0, outgoingReliableSequenceNumber = 0, acknowledgements = [],
     sentReliableCommands = [], sentUnreliableCommands = [], outgoingReliableCommands = [],
     outgoingUnreliableCommands = [], dispatchedCommands = [], incomingUnsequencedGroup = 0,
     outgoingUnsequencedGroup = 0, unsequencedWindow = replicate 32 0, eventData = 0,
     totalWaitingData = 0\<rparr>"

end
