(* ===== verification/Peer_Out.thy ===== *)
theory Peer_Out
  imports Peer_Types
begin

text \<open>
  The outgoing side of \<^verbatim>\<open>peer.c\<close>, as far as it concerns one peer and the heap: the packet
  throttle, queueing of commands and acknowledgements with their sequence numbers, and the
  splitting of a packet into fragments.  The fragment loop of \<^verbatim>\<open>enet_peer_send\<close> is
  defined with fuel, and \<open>fragment_loop_enough\<close> shows how much is enough.
\<close>

subsection \<open>References held by queues\<close>

definition oc_refs :: "outgoing_command list \<Rightarrow> packet_id multiset" where
  "oc_refs cs = mset (List.map_filter oc_packet cs)"

definition ic_refs :: "incoming_command list \<Rightarrow> packet_id multiset" where
  "ic_refs cs = mset (List.map_filter ic_packet cs)"

definition channel_refs :: "channel \<Rightarrow> packet_id multiset" where
  "channel_refs c = ic_refs (ch_incomingReliableCommands c) + ic_refs (ch_incomingUnreliableCommands c)"

definition outgoing_refs :: "peer \<Rightarrow> packet_id multiset" where
  "outgoing_refs p = oc_refs (sentReliableCommands p) + oc_refs (sentUnreliableCommands p) +
     oc_refs (outgoingReliableCommands p) + oc_refs (outgoingUnreliableCommands p)"

definition incoming_refs :: "peer \<Rightarrow> packet_id multiset" where
  "incoming_refs p = ic_refs (dispatchedCommands p) + sum_list (map channel_refs (channels p))"

definition peer_refs :: "peer \<Rightarrow> packet_id multiset" where
  "peer_refs p = outgoing_refs p + incoming_refs p"

lemma oc_refs_simps [refs_simps, simp]:
  "oc_refs [] = {#}"
  "oc_refs (c # cs) = (case oc_packet c of None \<Rightarrow> {#} | Some p \<Rightarrow> {#p#}) + oc_refs cs"
  "oc_refs (cs @ ds) = oc_refs cs + oc_refs ds"
  by (simp_all add: oc_refs_def List.map_filter_def split: option.split)

lemma ic_refs_simps [refs_simps, simp]:
  "ic_refs [] = {#}"
  "ic_refs (c # cs) = (case ic_packet c of None \<Rightarrow> {#} | Some p \<Rightarrow> {#p#}) + ic_refs cs"
  "ic_refs (cs @ ds) = ic_refs cs + ic_refs ds"
  by (simp_all add: ic_refs_def List.map_filter_def split: option.split)

lemma sum_channel_refs_update:
  "i < length cs \<Longrightarrow> channel_refs c = channel_refs (cs ! i) \<Longrightarrow>
    sum_list (map channel_refs (cs[i := c])) = sum_list (map channel_refs cs)"
proof (induction cs arbitrary: i)
  case (Cons a cs)
  then show ?case by (cases i) simp_all
qed simp

lemma sum_channel_refs_split:
  "i < length cs \<Longrightarrow>
    sum_list (map channel_refs (cs[i := c])) + channel_refs (cs ! i) =
    sum_list (map channel_refs cs) + channel_refs c"
proof (induction cs arbitrary: i)
  case (Cons a cs)
  then show ?case
    by (cases i) (simp_all add: ac_simps)
qed simp

subsection \<open>Throttle and settings\<close>

definition enet_peer_throttle :: "peer \<Rightarrow> u32 \<Rightarrow> int \<times> peer" where
  "enet_peer_throttle peer rtt =
     (if lastRoundTripTime peer \<le> lastRoundTripTimeVariance peer then
        (0, peer\<lparr>packetThrottle := packetThrottleLimit peer\<rparr>)
      else if rtt < lastRoundTripTime peer then
        let peer = peer\<lparr>packetThrottle := packetThrottle peer + packetThrottleAcceleration peer\<rparr>
        in (1, if packetThrottle peer > packetThrottleLimit peer
               then peer\<lparr>packetThrottle := packetThrottleLimit peer\<rparr> else peer)
      else if rtt > lastRoundTripTime peer + 2 * lastRoundTripTimeVariance peer then
        (-1, if packetThrottle peer > packetThrottleDeceleration peer
             then peer\<lparr>packetThrottle := packetThrottle peer - packetThrottleDeceleration peer\<rparr>
             else peer\<lparr>packetThrottle := 0\<rparr>)
      else (0, peer))"

definition enet_peer_ping_interval :: "peer \<Rightarrow> u32 \<Rightarrow> peer" where
  "enet_peer_ping_interval peer interval =
     peer\<lparr>pingInterval := (if interval \<noteq> 0 then interval else ENET_PEER_PING_INTERVAL)\<rparr>"

definition enet_peer_timeout :: "peer \<Rightarrow> u32 \<Rightarrow> u32 \<Rightarrow> u32 \<Rightarrow> peer" where
  "enet_peer_timeout peer limit minimum maximum =
     peer\<lparr>timeoutLimit := (if limit \<noteq> 0 then limit else ENET_PEER_TIMEOUT_LIMIT),
       timeoutMinimum := (if minimum \<noteq> 0 then minimum else ENET_PEER_TIMEOUT_MINIMUM),
       timeoutMaximum := (if maximum \<noteq> 0 then maximum else ENET_PEER_TIMEOUT_MAXIMUM)\<rparr>"

subsection \<open>Queueing an outgoing command\<close>

text \<open>\<^verbatim>\<open>& peer->channels [i]\<close>, dereferenced.\<close>

definition channel_at :: "peer \<Rightarrow> u8 \<Rightarrow> channel option" where
  "channel_at peer i = (if unat i < length (channels peer) then Some (channels peer ! unat i) else None)"

definition set_channel :: "peer \<Rightarrow> u8 \<Rightarrow> channel \<Rightarrow> peer" where
  "set_channel peer i c = peer\<lparr>channels := (channels peer)[unat i := c]\<rparr>"

definition has_flag :: "protocol \<Rightarrow> u8 \<Rightarrow> bool" where
  "has_flag c f \<longleftrightarrow> p_command c AND f \<noteq> 0"

text \<open>Which sequence numbers a new command gets, and the peer that remembers them.\<close>

definition number_command :: "peer \<Rightarrow> outgoing_command \<Rightarrow> (peer \<times> u16 \<times> u16) option" where
  "number_command peer oc =
     (let chan = p_channelID (oc_command oc) in
      if chan = 0xFF then
        let peer = peer\<lparr>outgoingReliableSequenceNumber := outgoingReliableSequenceNumber peer + 1\<rparr>
        in Some (peer, outgoingReliableSequenceNumber peer, 0)
      else if has_flag (oc_command oc) ENET_PROTOCOL_COMMAND_FLAG_ACKNOWLEDGE then do {
        c \<leftarrow> channel_at peer chan;
        let c = c\<lparr>ch_outgoingReliableSequenceNumber := ch_outgoingReliableSequenceNumber c + 1,
                  ch_outgoingUnreliableSequenceNumber := 0\<rparr>;
        Some (set_channel peer chan c, ch_outgoingReliableSequenceNumber c, 0) }
      else if has_flag (oc_command oc) ENET_PROTOCOL_COMMAND_FLAG_UNSEQUENCED then
        Some (peer\<lparr>outgoingUnsequencedGroup := outgoingUnsequencedGroup peer + 1\<rparr>, 0, 0)
      else do {
        c \<leftarrow> channel_at peer chan;
        let c = (if oc_fragmentOffset oc = 0
                 then c\<lparr>ch_outgoingUnreliableSequenceNumber := ch_outgoingUnreliableSequenceNumber c + 1\<rparr>
                 else c);
        Some (set_channel peer chan c, ch_outgoingReliableSequenceNumber c,
              ch_outgoingUnreliableSequenceNumber c) })"

text \<open>The fields of the union that depend on the numbers.\<close>

definition number_body :: "u8 \<Rightarrow> u16 \<Rightarrow> u16 \<Rightarrow> protocol_body \<Rightarrow> protocol_body" where
  "number_body num unreliable grp body =
     (if num = ENET_PROTOCOL_COMMAND_SEND_UNRELIABLE then
        (case body of SendUnreliable _ len \<Rightarrow> SendUnreliable unreliable len | _ \<Rightarrow> body)
      else if num = ENET_PROTOCOL_COMMAND_SEND_UNSEQUENCED then
        (case body of SendUnsequenced _ len \<Rightarrow> SendUnsequenced grp len | _ \<Rightarrow> body)
      else body)"

definition stamp :: "u16 \<Rightarrow> u16 \<Rightarrow> u16 \<Rightarrow> outgoing_command \<Rightarrow> outgoing_command" where
  "stamp reliable unreliable grp oc =
     oc\<lparr>oc_reliableSequenceNumber := reliable, oc_unreliableSequenceNumber := unreliable,
        oc_sendAttempts := 0, oc_sentTime := 0, oc_roundTripTimeout := 0,
        oc_roundTripTimeoutLimit := 0,
        oc_command := (oc_command oc)\<lparr>p_reliableSequenceNumber := reliable,
          p_body := number_body (command_number (oc_command oc)) unreliable grp
            (p_body (oc_command oc))\<rparr>\<rparr>"

definition enqueue_outgoing :: "peer \<Rightarrow> outgoing_command \<Rightarrow> peer" where
  "enqueue_outgoing peer oc =
     (if has_flag (oc_command oc) ENET_PROTOCOL_COMMAND_FLAG_ACKNOWLEDGE
      then peer\<lparr>outgoingReliableCommands := outgoingReliableCommands peer @ [oc]\<rparr>
      else peer\<lparr>outgoingUnreliableCommands := outgoingUnreliableCommands peer @ [oc]\<rparr>)"

definition add_outgoing_data :: "peer \<Rightarrow> outgoing_command \<Rightarrow> peer" where
  "add_outgoing_data peer oc =
     peer\<lparr>outgoingDataTotal := outgoingDataTotal peer +
       ucast (enet_protocol_command_size (p_command (oc_command oc)) +
              ucast (oc_fragmentLength oc) :: size_t)\<rparr>"

definition enet_peer_setup_outgoing_command :: "peer \<Rightarrow> outgoing_command \<Rightarrow> peer option" where
  "enet_peer_setup_outgoing_command peer oc = do {
     (peer, reliable, unreliable) \<leftarrow> number_command (add_outgoing_data peer oc) oc;
     Some (enqueue_outgoing peer (stamp reliable unreliable (outgoingUnsequencedGroup peer) oc)) }"

definition new_outgoing :: "protocol \<Rightarrow> packet_id option \<Rightarrow> u32 \<Rightarrow> u16 \<Rightarrow> outgoing_command" where
  "new_outgoing command packet offset len =
     \<lparr>oc_reliableSequenceNumber = 0, oc_unreliableSequenceNumber = 0, oc_sentTime = 0,
      oc_roundTripTimeout = 0, oc_roundTripTimeoutLimit = 0, oc_fragmentOffset = offset,
      oc_fragmentLength = len, oc_sendAttempts = 0, oc_command = command, oc_packet = packet\<rparr>"

text \<open>The result is whether the code returns a command (and not null).\<close>

definition enet_peer_queue_outgoing_command ::
  "peer \<Rightarrow> protocol \<Rightarrow> packet_id option \<Rightarrow> u32 \<Rightarrow> u16 \<Rightarrow> heap \<Rightarrow> (bool \<times> peer \<times> heap) option" where
  "enet_peer_queue_outgoing_command peer command packet offset len h =
     (let (ok, h) = enet_malloc h in
      if \<not> ok then Some (False, peer, h)
      else do {
        h \<leftarrow> (case packet of None \<Rightarrow> Some h | Some pid \<Rightarrow> retain_packet pid 1 h);
        peer \<leftarrow> enet_peer_setup_outgoing_command peer (new_outgoing command packet offset len);
        Some (True, peer, h) })"

definition command_of :: "u8 \<Rightarrow> u8 \<Rightarrow> protocol_body \<Rightarrow> protocol" where
  "command_of cmd chan body =
     \<lparr>p_command = cmd, p_channelID = chan, p_reliableSequenceNumber = 0, p_body = body\<rparr>"

definition enet_peer_throttle_configure ::
  "peer \<Rightarrow> u32 \<Rightarrow> u32 \<Rightarrow> u32 \<Rightarrow> heap \<Rightarrow> (peer \<times> heap) option" where
  "enet_peer_throttle_configure peer interval acceleration deceleration h =
     (let peer = peer\<lparr>packetThrottleInterval := interval,
            packetThrottleAcceleration := acceleration,
            packetThrottleDeceleration := deceleration\<rparr>;
          command = command_of
            (ENET_PROTOCOL_COMMAND_THROTTLE_CONFIGURE OR ENET_PROTOCOL_COMMAND_FLAG_ACKNOWLEDGE) 0xFF
            (ThrottleConfigure interval acceleration deceleration)
      in map_option snd (enet_peer_queue_outgoing_command peer command None 0 0 h))"

definition enet_peer_ping :: "peer \<Rightarrow> heap \<Rightarrow> (peer \<times> heap) option" where
  "enet_peer_ping peer h =
     (if state peer \<noteq> CONNECTED then Some (peer, h)
      else map_option snd (enet_peer_queue_outgoing_command peer
             (command_of (ENET_PROTOCOL_COMMAND_PING OR ENET_PROTOCOL_COMMAND_FLAG_ACKNOWLEDGE) 0xFF Ping)
             None 0 0 h))"

text \<open>
  The sequence windows: a number behind the channel's current one is taken to lie in the
  next lap.
\<close>

definition relative_window :: "u16 \<Rightarrow> channel \<Rightarrow> u16" where
  "relative_window sn c =
     (let w = sn div ENET_PEER_RELIABLE_WINDOW_SIZE in
      if sn < ch_incomingReliableSequenceNumber c then w + ENET_PEER_RELIABLE_WINDOWS else w)"

definition current_window :: "channel \<Rightarrow> u16" where
  "current_window c = ch_incomingReliableSequenceNumber c div ENET_PEER_RELIABLE_WINDOW_SIZE"

definition enet_peer_queue_acknowledgement ::
  "peer \<Rightarrow> protocol \<Rightarrow> u16 \<Rightarrow> heap \<Rightarrow> (bool \<times> peer \<times> heap) option" where
  "enet_peer_queue_acknowledgement peer command sentTime h =
     (let queue = (\<lambda>h.
            let (ok, h) = enet_malloc h in
            if \<not> ok then (False, peer, h)
            else (True,
              peer\<lparr>outgoingDataTotal := outgoingDataTotal peer + ucast sizeof_ENetProtocolAcknowledge,
                   acknowledgements := acknowledgements peer @
                     [\<lparr>ack_sentTime = ucast sentTime, ack_command = command\<rparr>]\<rparr>, h))
      in if ucast (p_channelID command) < channelCount peer then do {
           c \<leftarrow> channel_at peer (p_channelID command);
           let reliableWindow = relative_window (p_reliableSequenceNumber command) c;
           let currentWindow = current_window c;
           if reliableWindow \<ge> currentWindow + ENET_PEER_FREE_RELIABLE_WINDOWS - 1 \<and>
              reliableWindow \<le> currentWindow + ENET_PEER_FREE_RELIABLE_WINDOWS
           then Some (False, peer, h) else Some (queue h) }
         else Some (queue h))"

subsection \<open>Sending a packet\<close>

text \<open>
  One fragment's command; the fields of the header that \<^verbatim>\<open>enet_peer_setup_outgoing_command\<close>
  fills later are \<open>0\<close>.
\<close>

definition new_fragment ::
  "u8 \<Rightarrow> u8 \<Rightarrow> u16 \<Rightarrow> u32 \<Rightarrow> packet_id \<Rightarrow> size_t \<Rightarrow> u32 \<Rightarrow> u32 \<Rightarrow> size_t \<Rightarrow> outgoing_command" where
  "new_fragment commandNumber channelID startSequenceNumber fragmentCount packet tot number offset len =
     new_outgoing (command_of commandNumber channelID
       (SendFragment \<lparr>fr_startSequenceNumber = startSequenceNumber, fr_dataLength = ucast len,
          fr_fragmentCount = fragmentCount, fr_fragmentNumber = number,
          fr_totalLength = ucast tot, fr_fragmentOffset = offset\<rparr>))
     (Some packet) offset (ucast len)"

text \<open>
  The loop that builds the list of fragments.  The outer \<open>None\<close> means that the fuel is used
  up; the inner one that an allocation failed, after which the list built so far is freed.
\<close>

fun fragment_loop ::
  "nat \<Rightarrow> (u32 \<Rightarrow> u32 \<Rightarrow> size_t \<Rightarrow> outgoing_command) \<Rightarrow> size_t \<Rightarrow> u32 \<Rightarrow> u32 \<Rightarrow> size_t \<Rightarrow>
    outgoing_command list \<Rightarrow> heap \<Rightarrow> ((outgoing_command list \<times> u32) option \<times> heap) option" where
  "fragment_loop 0 mk tot number offset len fragments h = None"
| "fragment_loop (Suc fuel) mk tot number offset len fragments h =
     (if \<not> ucast offset < tot then Some (Some (fragments, number), h)
      else
        let len = (if tot - ucast offset < len then tot - ucast offset else len);
            (ok, h) = enet_malloc h
        in if \<not> ok then Some (None, h)
           else fragment_loop fuel mk tot (number + 1) (offset + ucast len) len
                  (fragments @ [mk number offset len]) h)"

declare fragment_loop.simps [simp del]

primrec setup_all :: "outgoing_command list \<Rightarrow> peer \<Rightarrow> peer option" where
  "setup_all [] peer = Some peer"
| "setup_all (f # fs) peer = Option.bind (enet_peer_setup_outgoing_command peer f) (setup_all fs)"

text \<open>
  \<^verbatim>\<open>enet_peer_send\<close>, with the fields of the host it reads (\<^verbatim>\<open>maximumPacketSize\<close>, and whether
  \<^verbatim>\<open>checksum\<close> is set) as arguments.
\<close>

definition fragment_length :: "peer \<Rightarrow> bool \<Rightarrow> size_t" where
  "fragment_length peer has_checksum =
     ucast (mtu peer) - sizeof_ENetProtocolHeader - sizeof_ENetProtocolSendFragment -
       (if has_checksum then 4 else 0)"

definition enet_peer_send_fragments ::
  "size_t \<Rightarrow> peer \<Rightarrow> u8 \<Rightarrow> packet_id \<Rightarrow> heap \<Rightarrow> (int \<times> peer \<times> heap) option" where
  "enet_peer_send_fragments fragmentLength peer channelID pid h = do {
     packet \<leftarrow> hp_packets h pid;
     channel \<leftarrow> channel_at peer channelID;
     let fragmentCount = (ucast ((dataLength packet + fragmentLength - 1) div fragmentLength) :: u32);
     if fragmentCount > ENET_PROTOCOL_MAXIMUM_FRAGMENT_COUNT then Some (-1, peer, h)
     else do {
       let (commandNumber, startSequenceNumber) =
         (if pk_flags packet AND (ENET_PACKET_FLAG_RELIABLE OR ENET_PACKET_FLAG_UNRELIABLE_FRAGMENT) =
               ENET_PACKET_FLAG_UNRELIABLE_FRAGMENT \<and>
             ch_outgoingUnreliableSequenceNumber channel < 0xFFFF
          then (ENET_PROTOCOL_COMMAND_SEND_UNRELIABLE_FRAGMENT,
                ch_outgoingUnreliableSequenceNumber channel + 1)
          else (ENET_PROTOCOL_COMMAND_SEND_FRAGMENT OR ENET_PROTOCOL_COMMAND_FLAG_ACKNOWLEDGE,
                ch_outgoingReliableSequenceNumber channel + 1));
       (r, h) \<leftarrow> fragment_loop (Suc (unat (dataLength packet)))
          (new_fragment commandNumber channelID startSequenceNumber fragmentCount pid (dataLength packet))
          (dataLength packet) 0 0 fragmentLength [] h;
       (case r of
          None \<Rightarrow> Some (-1, peer, h)
        | Some (fragments, fragmentNumber) \<Rightarrow> do {
            h \<leftarrow> retain_packet pid (ucast fragmentNumber) h;
            peer \<leftarrow> setup_all fragments peer;
            Some (0, peer, h) }) } }"

definition send_command :: "packet \<Rightarrow> channel \<Rightarrow> u8 \<Rightarrow> protocol" where
  "send_command packet channel channelID =
     (if pk_flags packet AND (ENET_PACKET_FLAG_RELIABLE OR ENET_PACKET_FLAG_UNSEQUENCED) =
         ENET_PACKET_FLAG_UNSEQUENCED
      then command_of (ENET_PROTOCOL_COMMAND_SEND_UNSEQUENCED OR ENET_PROTOCOL_COMMAND_FLAG_UNSEQUENCED)
        channelID (SendUnsequenced 0 (ucast (dataLength packet)))
      else if pk_flags packet AND ENET_PACKET_FLAG_RELIABLE \<noteq> 0 \<or>
         ch_outgoingUnreliableSequenceNumber channel \<ge> 0xFFFF
      then command_of (ENET_PROTOCOL_COMMAND_SEND_RELIABLE OR ENET_PROTOCOL_COMMAND_FLAG_ACKNOWLEDGE)
        channelID (SendReliable (ucast (dataLength packet)))
      else command_of ENET_PROTOCOL_COMMAND_SEND_UNRELIABLE
        channelID (SendUnreliable 0 (ucast (dataLength packet))))"

definition enet_peer_send ::
  "size_t \<Rightarrow> bool \<Rightarrow> peer \<Rightarrow> u8 \<Rightarrow> packet_id \<Rightarrow> heap \<Rightarrow> (int \<times> peer \<times> heap) option" where
  "enet_peer_send maximumPacketSize has_checksum peer channelID pid h =
     (if state peer \<noteq> CONNECTED \<or> ucast channelID \<ge> channelCount peer then Some (-1, peer, h)
      else do {
        packet \<leftarrow> hp_packets h pid;
        let fragmentLength = fragment_length peer has_checksum;
        if dataLength packet > maximumPacketSize then Some (-1, peer, h)
        else if dataLength packet > fragmentLength
        then enet_peer_send_fragments fragmentLength peer channelID pid h
        else do {
          channel \<leftarrow> channel_at peer channelID;
          let command = send_command packet channel channelID;
          (ok, peer, h) \<leftarrow> enet_peer_queue_outgoing_command peer command (Some pid) 0
            (ucast (dataLength packet)) h;
          Some (if ok then 0 else -1, peer, h) } })"

subsection \<open>Well-formed peers\<close>

definition channel_ok :: "channel \<Rightarrow> bool" where
  "channel_ok c \<longleftrightarrow> length (ch_reliableWindows c) = unat ENET_PEER_RELIABLE_WINDOWS"

definition peer_ok :: "peer \<Rightarrow> bool" where
  "peer_ok p \<longleftrightarrow> unat (channelCount p) \<le> length (channels p) \<and>
     channelCount p \<le> ENET_PROTOCOL_MAXIMUM_CHANNEL_COUNT \<and>
     ENET_PROTOCOL_MINIMUM_MTU \<le> mtu p \<and> mtu p \<le> ENET_PROTOCOL_MAXIMUM_MTU \<and>
     ENET_PROTOCOL_MINIMUM_WINDOW_SIZE \<le> windowSize p \<and> windowSize p \<le> ENET_PROTOCOL_MAXIMUM_WINDOW_SIZE \<and>
     packetThrottle p \<le> packetThrottleLimit p \<and> packetThrottleLimit p \<le> ENET_PEER_PACKET_THROTTLE_SCALE \<and>
     length (unsequencedWindow p) = unat (ENET_PEER_UNSEQUENCED_WINDOW_SIZE div 32) \<and>
     (\<forall>c \<in> set (channels p). channel_ok c)"

text \<open>The channel a command is queued on exists.\<close>

definition routable :: "peer \<Rightarrow> protocol \<Rightarrow> bool" where
  "routable p c \<longleftrightarrow> p_channelID c = 0xFF \<or> unat (p_channelID c) < length (channels p)"

lemma outgoing_refs_upd [refs_simps, simp]:
  "outgoing_refs (p\<lparr>outgoingDataTotal := a\<rparr>) = outgoing_refs p"
  "outgoing_refs (p\<lparr>outgoingReliableSequenceNumber := b\<rparr>) = outgoing_refs p"
  "outgoing_refs (p\<lparr>outgoingUnsequencedGroup := b\<rparr>) = outgoing_refs p"
  "outgoing_refs (p\<lparr>acknowledgements := d\<rparr>) = outgoing_refs p"
  "outgoing_refs (p\<lparr>channels := e\<rparr>) = outgoing_refs p"
  by (simp_all add: outgoing_refs_def)

lemma incoming_refs_upd [refs_simps, simp]:
  "incoming_refs (p\<lparr>outgoingDataTotal := a\<rparr>) = incoming_refs p"
  "incoming_refs (p\<lparr>outgoingReliableSequenceNumber := b\<rparr>) = incoming_refs p"
  "incoming_refs (p\<lparr>outgoingUnsequencedGroup := b\<rparr>) = incoming_refs p"
  "incoming_refs (p\<lparr>acknowledgements := d\<rparr>) = incoming_refs p"
  "incoming_refs (p\<lparr>outgoingReliableCommands := f\<rparr>) = incoming_refs p"
  "incoming_refs (p\<lparr>outgoingUnreliableCommands := f\<rparr>) = incoming_refs p"
  by (simp_all add: incoming_refs_def)

lemma channel_at_Some:
  "channel_at p i = Some c \<longleftrightarrow> unat i < length (channels p) \<and> c = channels p ! unat i"
  by (auto simp: channel_at_def)

lemma set_channel_refs:
  "channel_at p i = Some c \<Longrightarrow> channel_refs c' = channel_refs c \<Longrightarrow>
    incoming_refs (set_channel p i c') = incoming_refs p \<and> outgoing_refs (set_channel p i c') = outgoing_refs p"
  by (simp add: channel_at_Some set_channel_def incoming_refs_def sum_channel_refs_update)

lemma set_channel_ok:
  "peer_ok p \<Longrightarrow> channel_ok c \<Longrightarrow> peer_ok (set_channel p i c)"
  by (auto simp: peer_ok_def set_channel_def dest: set_update_subset_insert [THEN subsetD])

lemma channel_at_ok: "peer_ok p \<Longrightarrow> channel_at p i = Some c \<Longrightarrow> channel_ok c"
  by (simp add: channel_at_Some peer_ok_def)

text \<open>
  What numbering a command may change: the peer keeps its queues, its shape and its
  well-formedness.
\<close>

lemma number_command_Some:
  assumes "number_command p oc = Some (p', r, u)"
  shows "outgoing_refs p' = outgoing_refs p \<and> incoming_refs p' = incoming_refs p \<and>
    outgoingReliableCommands p' = outgoingReliableCommands p \<and>
    outgoingUnreliableCommands p' = outgoingUnreliableCommands p \<and>
    length (channels p') = length (channels p) \<and> (peer_ok p \<longrightarrow> peer_ok p')"
proof -
  have chan: "outgoing_refs (set_channel p i c') = outgoing_refs p \<and>
      incoming_refs (set_channel p i c') = incoming_refs p \<and>
      outgoingReliableCommands (set_channel p i c') = outgoingReliableCommands p \<and>
      outgoingUnreliableCommands (set_channel p i c') = outgoingUnreliableCommands p \<and>
      length (channels (set_channel p i c')) = length (channels p) \<and>
      (peer_ok p \<longrightarrow> peer_ok (set_channel p i c'))"
    if "channel_at p i = Some c" "channel_refs c' = channel_refs c"
      "ch_reliableWindows c' = ch_reliableWindows c" for i c c'
    using set_channel_refs [OF that(1,2)] channel_at_ok [OF _ that(1)] set_channel_ok [of p c' i] that(3)
    by (auto simp: channel_ok_def set_channel_def)
  consider (control) "p' = p\<lparr>outgoingReliableSequenceNumber := outgoingReliableSequenceNumber p + 1\<rparr>"
    | (unsequenced) "p' = p\<lparr>outgoingUnsequencedGroup := outgoingUnsequencedGroup p + 1\<rparr>"
    | (channel) i c c' where "p' = set_channel p i c'" "channel_at p i = Some c"
        "channel_refs c' = channel_refs c" "ch_reliableWindows c' = ch_reliableWindows c"
    using assms unfolding number_command_def Let_def
    by (fastforce simp: bind_eq_Some_conv channel_refs_def split: if_splits)
  then show ?thesis
  proof cases
    case channel
    show ?thesis
      using chan [OF channel(2-4)] channel(1) by simp
  qed (simp_all add: peer_ok_def)
qed

lemma number_command_total:
  "routable p (oc_command oc) \<Longrightarrow> number_command p oc \<noteq> None"
  by (auto simp: routable_def number_command_def channel_at_def Let_def)

text \<open>
  A command that is set up joins one of the two outgoing queues, and brings its reference
  to its packet with it.
\<close>

lemma stamp_simps [simp]:
  "oc_packet (stamp r u g oc) = oc_packet oc"
  "oc_fragmentOffset (stamp r u g oc) = oc_fragmentOffset oc"
  "oc_fragmentLength (stamp r u g oc) = oc_fragmentLength oc"
  "oc_reliableSequenceNumber (stamp r u g oc) = r"
  "oc_unreliableSequenceNumber (stamp r u g oc) = u"
  "p_command (oc_command (stamp r u g oc)) = p_command (oc_command oc)"
  "p_channelID (oc_command (stamp r u g oc)) = p_channelID (oc_command oc)"
  "p_reliableSequenceNumber (oc_command (stamp r u g oc)) = r"
  "has_flag (oc_command (stamp r u g oc)) f = has_flag (oc_command oc) f"
  by (simp_all add: stamp_def has_flag_def)

lemma enqueue_outgoing_refs:
  "peer_refs (enqueue_outgoing p oc) = oc_refs [oc] + peer_refs p"
  "incoming_refs (enqueue_outgoing p oc) = incoming_refs p"
  "channels (enqueue_outgoing p oc) = channels p"
  "peer_ok (enqueue_outgoing p oc) = peer_ok p"
  by (simp_all add: enqueue_outgoing_def peer_refs_def outgoing_refs_def peer_ok_def)

lemma add_outgoing_data_refs [simp]:
  "incoming_refs (add_outgoing_data p oc) = incoming_refs p"
  "outgoing_refs (add_outgoing_data p oc) = outgoing_refs p"
  "channels (add_outgoing_data p oc) = channels p"
  "peer_ok (add_outgoing_data p oc) = peer_ok p"
  "outgoingReliableCommands (add_outgoing_data p oc) = outgoingReliableCommands p"
  by (simp_all add: add_outgoing_data_def peer_ok_def)

lemma setup_outgoing_refs:
  assumes "enet_peer_setup_outgoing_command p oc = Some p'"
  shows "peer_refs p' = oc_refs [oc] + peer_refs p \<and> incoming_refs p' = incoming_refs p \<and>
    length (channels p') = length (channels p) \<and> (peer_ok p \<longrightarrow> peer_ok p')"
proof -
  obtain q r u where n: "number_command (add_outgoing_data p oc) oc = Some (q, r, u)"
    and p': "p' = enqueue_outgoing q (stamp r u (outgoingUnsequencedGroup q) oc)"
    using assms by (auto simp: enet_peer_setup_outgoing_command_def bind_eq_Some_conv)
  show ?thesis
    using number_command_Some [OF n] by (simp add: p' enqueue_outgoing_refs) (simp add: peer_refs_def)
qed

lemma setup_outgoing_total:
  assumes "routable p (oc_command oc)"
  shows "\<exists>p'. enet_peer_setup_outgoing_command p oc = Some p'"
proof -
  have "routable (add_outgoing_data p oc) (oc_command oc)"
    using assms by (simp add: routable_def)
  then show ?thesis
    using number_command_total by (fastforce simp: enet_peer_setup_outgoing_command_def)
qed

lemma setup_all_refs:
  assumes "\<forall>f \<in> set fs. routable p (oc_command f)"
  shows "\<exists>p'. setup_all fs p = Some p' \<and> peer_refs p' = oc_refs fs + peer_refs p \<and>
    incoming_refs p' = incoming_refs p \<and> length (channels p') = length (channels p) \<and>
    (peer_ok p \<longrightarrow> peer_ok p')"
  using assms
proof (induction fs arbitrary: p)
  case (Cons f fs)
  obtain q where q: "enet_peer_setup_outgoing_command p f = Some q"
    using setup_outgoing_total [of p f] Cons.prems by auto
  note qr = setup_outgoing_refs [OF q]
  have "\<forall>f \<in> set fs. routable q (oc_command f)"
    using Cons.prems qr by (simp add: routable_def)
  from Cons.IH [OF this] show ?case
    using q qr by (auto simp: ac_simps)
qed simp

text \<open>Queueing a command retains its packet; the counts stay exact.\<close>

lemma queue_outgoing_refs:
  assumes ok: "refs_ok h (peer_refs p + M)" and r: "routable p c"
    and pk: "\<forall>pid \<in> set_option pk. live h pid" and sz: "size (peer_refs p + M) < 2 ^ 63"
  shows "\<exists>b p' h'. enet_peer_queue_outgoing_command p c pk off len h = Some (b, p', h') \<and>
    refs_ok h' (peer_refs p' + M) \<and> live h' = live h \<and> incoming_refs p' = incoming_refs p \<and>
    peer_refs p' = (if b then mset_set (set_option pk) else {#}) + peer_refs p \<and>
    (\<not> b \<longrightarrow> p' = p) \<and> (peer_ok p \<longrightarrow> peer_ok p') \<and> length (channels p') = length (channels p)"
proof -
  obtain b h1 where m: "enet_malloc h = (b, h1)"
    by (cases "enet_malloc h")
  have h1: "refs_ok h1 (peer_refs p + M)" "live h1 = live h"
    using enet_malloc_packets [OF m] ok refs_ok_cong [of h1 h "peer_refs p + M"]
    by (simp_all add: live_def fun_eq_iff)
  obtain h2 where h2: "(case pk of None \<Rightarrow> Some h1 | Some pid \<Rightarrow> retain_packet pid 1 h1) = Some h2"
      "refs_ok h2 (mset_set (set_option pk) + (peer_refs p + M))" "live h2 = live h"
  proof (cases pk)
    case (Some pid)
    then obtain q where q: "hp_packets h1 pid = Some q"
      using pk h1(2) by (auto simp: live_def fun_eq_iff)
    have "count (peer_refs p + M) pid + unat (1 :: size_t) < 2 ^ 64"
      using sz count_le_size [of "peer_refs p + M" pid] by simp
    from retain_refs_ok [OF h1(1) q this] show ?thesis
      using that Some h1(2) by auto
  qed (use that h1 in auto)
  obtain p' where p': "enet_peer_setup_outgoing_command p (new_outgoing c pk off len) = Some p'"
    using setup_outgoing_total [of p "new_outgoing c pk off len"] r by (auto simp: new_outgoing_def)
  have "oc_refs [new_outgoing c pk off len] = mset_set (set_option pk)"
    by (simp add: new_outgoing_def split: option.split)
  then show ?thesis
    using setup_outgoing_refs [OF p'] h1 h2 p'
    by (cases b) (auto simp: enet_peer_queue_outgoing_command_def m ac_simps split: option.splits)
qed

subsection \<open>The fragment loop\<close>

text \<open>
  With a positive fragment length and a packet whose length fits in 32 bits, as many rounds
  as the packet has bytes are enough: \<open>k\<close> rounds cover \<open>k * len\<close> bytes.
\<close>

definition fragments_needed :: "nat \<Rightarrow> nat \<Rightarrow> nat" where
  "fragments_needed tot len = (tot + len - 1) div len"

definition fragment_list ::
  "(u32 \<Rightarrow> u32 \<Rightarrow> size_t \<Rightarrow> outgoing_command) \<Rightarrow> nat \<Rightarrow> nat \<Rightarrow> nat \<Rightarrow> outgoing_command list" where
  "fragment_list mk tot len k =
     map (\<lambda>i. mk (of_nat i) (of_nat (i * len)) (of_nat (min len (tot - i * len))))
       [k ..< fragments_needed tot len]"

lemma fragments_needed_less: "0 < len \<Longrightarrow> k < fragments_needed tot len \<longleftrightarrow> k * len < tot"
  unfolding fragments_needed_def
  by (cases tot) (auto simp: less_eq_div_iff_mult_less_eq simp flip: Suc_le_eq)

lemma fragments_needed_le: "0 < len \<Longrightarrow> fragments_needed tot len \<le> tot"
  using fragments_needed_less [of len tot tot] by (simp flip: not_less)

lemma fragment_offset:
  assumes "N < 2 ^ 32"
  shows "unat (of_nat (min (k * F) N) :: u32) = min (k * F) N"
  using assms by (intro unat_of_nat_less) simp

lemma fragment_loop_done:
  assumes "0 < F" "N < 2 ^ 32" "k = fragments_needed N F"
  shows "fragment_loop (Suc fuel) mk (of_nat N) (of_nat k) (of_nat (min (k * F) N)) len acc h =
    Some (Some (acc, of_nat k), h)"
proof -
  have "unat (of_nat N :: size_t) = N"
    using assms(2) by (intro unat_of_nat_less) simp
  moreover have "N \<le> k * F"
    using fragments_needed_less [OF assms(1), of k N] assms(3) by simp
  ultimately have "\<not> (ucast (of_nat (min (k * F) N) :: u32) :: size_t) < of_nat N"
    by (simp only: word_less_nat_alt unat_ucast_u32_size fragment_offset [OF assms(2)])
  then show ?thesis
    by (simp add: fragment_loop.simps)
qed

lemma fragment_loop_round:
  assumes "0 < F" "N + F < 2 ^ 32" "k * F < N"
  defines "m \<equiv> min F (N - k * F)"
  shows "fragment_loop (Suc fuel) mk (of_nat N) (of_nat k) (of_nat (min (k * F) N)) (of_nat F) acc h =
    (let (ok, h) = enet_malloc h in
     if \<not> ok then Some (None, h)
     else fragment_loop fuel mk (of_nat N) (of_nat (Suc k)) (of_nat (min (Suc k * F) N)) (of_nat m)
       (acc @ [mk (of_nat k) (of_nat (k * F)) (of_nat m)]) h)"
proof -
  have N: "N < 2 ^ 32" "unat (of_nat N :: size_t) = N"
    using assms(2) by (simp_all add: unat_of_nat_less)
  note off = fragment_offset [OF N(1), of k F]
  have kF: "min (k * F) N = k * F"
    using assms(3) by simp
  have lt: "(ucast (of_nat (k * F) :: u32) :: size_t) < of_nat N"
    using assms(3) off unfolding kF by (simp only: word_less_nat_alt unat_ucast_u32_size N(2))
  have o: "(ucast (of_nat (k * F) :: u32) :: size_t) = of_nat (k * F)"
  proof -
    have "unat (of_nat (k * F) :: size_t) = k * F"
      using assms(2,3) by (intro unat_of_nat_less) simp
    then show ?thesis
      using off unfolding kF by (simp add: word_unat_eq_iff del: of_nat_mult)
  qed
  define d where "d = N - k * F"
  have sub: "(of_nat N :: size_t) - ucast (of_nat (k * F) :: u32) = of_nat d"
    using assms(3) by (simp only: o d_def of_nat_diff [OF less_imp_le])
  have "unat (of_nat d :: size_t) = d" "unat (of_nat F :: size_t) = F"
    using assms(2) by (simp_all add: d_def unat_of_nat_less)
  then have cut: "(if (of_nat d :: size_t) < of_nat F then of_nat d else of_nat F) = (of_nat m :: size_t)"
    by (simp add: word_less_nat_alt m_def min_def flip: d_def)
  have next_off: "(of_nat (k * F) :: u32) + ucast (of_nat m :: size_t) = of_nat (min (Suc k * F) N)"
  proof -
    have "(ucast (of_nat m :: size_t) :: u32) = of_nat m"
      by (simp add: bit_eq_iff bit_simps)
    moreover have "k * F + m = min (Suc k * F) N"
      using assms(3) by (auto simp: m_def)
    ultimately show ?thesis
      by (metis of_nat_add)
  qed
  have "(of_nat k :: u32) + 1 = of_nat (Suc k)"
    by simp
  then show ?thesis
    using lt unfolding kF
    by (simp only: fragment_loop.simps(2) sub cut Let_def next_off not_not if_False not_True_eq_False)
qed

text \<open>
  Enough fuel always gives a result: all the fragments, or none if an allocation failed (which
  it does not when the allocator never fails).  No packet is touched.
\<close>

lemma enet_malloc_result:
  assumes "enet_malloc h = (ok, h')"
  shows "hp_packets h' = hp_packets h" "hp_next h' = hp_next h" "hp_mallocs h = [] \<longrightarrow> ok \<and> h' = h"
proof -
  show "hp_packets h' = hp_packets h" "hp_next h' = hp_next h"
    using enet_malloc_packets [OF assms] by simp_all
  show "hp_mallocs h = [] \<longrightarrow> ok \<and> h' = h"
    using assms by (cases "hp_mallocs h") (simp_all add: enet_malloc_def)
qed

lemma fragment_loop_enough:
  assumes "0 < F" "N + F < 2 ^ 32"
    and "k \<le> fragments_needed N F" "N - min (k * F) N < fuel"
    and "k < fragments_needed N F \<Longrightarrow> len = of_nat F"
  shows "\<exists>r h'. fragment_loop fuel mk (of_nat N) (of_nat k) (of_nat (min (k * F) N)) len acc h = Some (r, h') \<and>
    (r = None \<or> r = Some (acc @ fragment_list mk N F k, of_nat (fragments_needed N F))) \<and>
    (hp_mallocs h = [] \<longrightarrow> r \<noteq> None \<and> h' = h) \<and>
    hp_packets h' = hp_packets h \<and> hp_next h' = hp_next h"
  using assms(3-5)
proof (induction fuel arbitrary: k len acc h)
  case (Suc fuel)
  show ?case
  proof (cases "k < fragments_needed N F")
    case False
    then have k: "k = fragments_needed N F"
      using Suc.prems(1) by simp
    show ?thesis
      using assms(2) fragment_loop_done [OF assms(1) _ k] by (simp add: fragment_list_def k)
  next
    case True
    then have kF: "k * F < N"
      using fragments_needed_less [OF assms(1)] by simp
    define m where "m = min F (N - k * F)"
    obtain ok h1 where mal: "enet_malloc h = (ok, h1)"
      by (cases "enet_malloc h")
    have mal': "hp_packets h1 = hp_packets h" "hp_next h1 = hp_next h" "hp_mallocs h = [] \<longrightarrow> ok \<and> h1 = h"
      by (rule enet_malloc_result [OF mal])+
    have step: "N - min (Suc k * F) N < fuel" "Suc k \<le> fragments_needed N F"
      using Suc.prems(2) True kF assms(1) by (auto simp: min_def)
    have nlen: "(of_nat m :: size_t) = of_nat F" if "Suc k < fragments_needed N F"
      using that fragments_needed_less [OF assms(1), of "Suc k" N] by (simp add: m_def)
    have "acc @ fragment_list mk N F k =
        (acc @ [mk (of_nat k) (of_nat (k * F)) (of_nat m)]) @ fragment_list mk N F (Suc k)"
      using True by (simp add: fragment_list_def upt_conv_Cons m_def)
    moreover have "fragment_loop (Suc fuel) mk (of_nat N) (of_nat k) (of_nat (min (k * F) N)) len acc h =
        (if ok then fragment_loop fuel mk (of_nat N) (of_nat (Suc k)) (of_nat (min (Suc k * F) N)) (of_nat m)
            (acc @ [mk (of_nat k) (of_nat (k * F)) (of_nat m)]) h1
         else Some (None, h1))"
      unfolding Suc.prems(3) [OF True] fragment_loop_round [OF assms(1,2) kF] mal Let_def prod.case m_def
      by (cases ok) (simp_all only: simp_thms if_True if_False)
    moreover obtain r h' where "fragment_loop fuel mk (of_nat N) (of_nat (Suc k)) (of_nat (min (Suc k * F) N))
          (of_nat m) (acc @ [mk (of_nat k) (of_nat (k * F)) (of_nat m)]) h1 = Some (r, h')"
        "r = None \<or> r = Some ((acc @ [mk (of_nat k) (of_nat (k * F)) (of_nat m)]) @
           fragment_list mk N F (Suc k), of_nat (fragments_needed N F))"
        "hp_mallocs h1 = [] \<longrightarrow> r \<noteq> None \<and> h' = h1"
        "hp_packets h' = hp_packets h1" "hp_next h' = hp_next h1"
      using Suc.IH [OF step(2,1) nlen, of "acc @ [mk (of_nat k) (of_nat (k * F)) (of_nat m)]" h1] by blast
    ultimately show ?thesis
      using mal'
      by (cases ok; intro exI [of _ "if ok then r else None"] exI [of _ "if ok then h' else h1"])
        (simp_all only: if_True if_False, blast+)
  qed
qed simp

lemma fragment_length_bounds:
  assumes "peer_ok p"
  shows "unat (fragment_length p ck) = unat (mtu p) - (if ck then 32 else 28)"
    and "544 \<le> unat (fragment_length p ck)" "unat (fragment_length p ck) \<le> 4068"
proof -
  have m: "576 \<le> unat (mtu p)" "unat (mtu p) \<le> 4096"
    using assms by (simp_all add: peer_ok_def enet_consts word_le_nat_alt)
  have sub: "unat (w - of_nat n :: size_t) = unat w - n" if "n \<le> unat w" for w n
  proof -
    have "n < 2 ^ 64"
      using that unsigned_less [of w, where ?'a = nat] by simp
    then have "unat (of_nat n :: size_t) = n"
      by (intro unat_of_nat_less) simp
    then show ?thesis
      using that unat_sub [of "of_nat n" w] by (simp add: word_le_nat_alt)
  qed
  define w where "w = (ucast (mtu p) :: size_t)"
  have w: "unat w = unat (mtu p)"
    by (simp add: w_def)
  show eq: "unat (fragment_length p ck) = unat (mtu p) - (if ck then 32 else 28)"
    using sub [of 4 w] sub [of 24 "w - 4"] sub [of 4 "w - 4 - 24"] m
    by (simp add: fragment_length_def enet_consts w flip: w_def)
  show "544 \<le> unat (fragment_length p ck)" "unat (fragment_length p ck) \<le> 4068"
    using m by (auto simp: eq)
qed

text \<open>The fragments partition the packet: reading each fragment's bytes in order gives the packet.\<close>

definition fragment_bytes :: "'a list \<Rightarrow> outgoing_command \<Rightarrow> 'a list" where
  "fragment_bytes data f = take (unat (oc_fragmentLength f)) (drop (unat (oc_fragmentOffset f)) data)"

lemma concat_blocks: "concat (map (\<lambda>i. take len (drop (i * len) xs)) [0 ..< k]) = take (k * len) xs"
proof (induction k)
  case (Suc k)
  then show ?case
    using take_add [of "k * len" len xs] by (simp add: add.commute [of len])
qed simp

lemma concat_fragments:
  assumes "0 < F" "F < 2 ^ 16" "N < 2 ^ 32" "length data = N"
    and "\<And>a b c. oc_fragmentOffset (mk a b c) = b \<and> oc_fragmentLength (mk a b c) = ucast c"
  shows "concat (map (fragment_bytes data) (fragment_list mk N F 0)) = data"
proof -
  have "map (fragment_bytes data) (fragment_list mk N F 0) =
      map (\<lambda>i. take F (drop (i * F) data)) [0 ..< fragments_needed N F]"
    unfolding fragment_list_def map_map comp_def
  proof (rule map_cong [OF refl])
    fix i
    assume "i \<in> set [0 ..< fragments_needed N F]"
    then have i: "i * F < N"
      using fragments_needed_less [OF assms(1)] by simp
    have o: "unat (of_nat (i * F) :: u32) = i * F"
      using i assms(3) by (intro unat_of_nat_less) simp
    have "(ucast (of_nat (min F (N - i * F)) :: size_t) :: u16) = of_nat (min F (N - i * F))"
      by (simp add: bit_eq_iff bit_simps)
    moreover have "unat (of_nat (min F (N - i * F)) :: u16) = min F (N - i * F)"
      using assms(2) by (intro unat_of_nat_less) simp
    ultimately show "fragment_bytes data (mk (of_nat i) (of_nat (i * F)) (of_nat (min F (N - i * F)))) =
        take F (drop (i * F) data)"
      using o assms(4) by (simp add: fragment_bytes_def assms(5) min_def del: of_nat_mult)
  qed
  moreover have "N \<le> fragments_needed N F * F"
    using fragments_needed_less [OF assms(1), of "fragments_needed N F" N] by simp
  ultimately show ?thesis
    using assms(4) by (simp add: concat_blocks)
qed

subsection \<open>Sequence numbers of reliable commands\<close>

definition numbered :: "u16 \<Rightarrow> u16 \<Rightarrow> outgoing_command list \<Rightarrow> outgoing_command list" where
  "numbered n g fs = map (\<lambda>i. stamp (n + 1 + of_nat i) 0 g (fs ! i)) [0 ..< length fs]"

lemma numbered_Cons: "numbered n g (f # fs) = stamp (n + 1) 0 g f # numbered (n + 1) g fs"
  unfolding numbered_def by (simp add: map_upt_Suc ac_simps del: upt_Suc)

definition reliable_on :: "u8 \<Rightarrow> outgoing_command \<Rightarrow> bool" where
  "reliable_on ch f \<longleftrightarrow> p_channelID (oc_command f) = ch \<and>
     has_flag (oc_command f) ENET_PROTOCOL_COMMAND_FLAG_ACKNOWLEDGE"

lemma setup_reliable:
  assumes "ch \<noteq> 0xFF" "channel_at p ch = Some c" "reliable_on ch f"
  shows "\<exists>p'. enet_peer_setup_outgoing_command p f = Some p' \<and>
    outgoingReliableCommands p' = outgoingReliableCommands p @
      [stamp (ch_outgoingReliableSequenceNumber c + 1) 0 (outgoingUnsequencedGroup p) f] \<and>
    channel_at p' ch = Some (c\<lparr>ch_outgoingReliableSequenceNumber := ch_outgoingReliableSequenceNumber c + 1,
      ch_outgoingUnreliableSequenceNumber := 0\<rparr>) \<and>
    outgoingUnsequencedGroup p' = outgoingUnsequencedGroup p"
  using assms
  by (auto simp: enet_peer_setup_outgoing_command_def number_command_def reliable_on_def
      channel_at_def enqueue_outgoing_def set_channel_def add_outgoing_data_def split: if_splits)

lemma setup_all_reliable:
  assumes "ch \<noteq> 0xFF" "channel_at p ch = Some c" "\<forall>f \<in> set fs. reliable_on ch f"
  shows "\<exists>p' c'. setup_all fs p = Some p' \<and>
    outgoingReliableCommands p' = outgoingReliableCommands p @
      numbered (ch_outgoingReliableSequenceNumber c) (outgoingUnsequencedGroup p) fs \<and>
    channel_at p' ch = Some c' \<and>
    ch_outgoingReliableSequenceNumber c' = ch_outgoingReliableSequenceNumber c + of_nat (length fs)"
  using assms(2,3)
proof (induction fs arbitrary: p c)
  case Nil
  then show ?case by (simp add: numbered_def)
next
  case (Cons f fs)
  obtain q where q: "enet_peer_setup_outgoing_command p f = Some q"
    "outgoingReliableCommands q = outgoingReliableCommands p @
      [stamp (ch_outgoingReliableSequenceNumber c + 1) 0 (outgoingUnsequencedGroup p) f]"
    "channel_at q ch = Some (c\<lparr>ch_outgoingReliableSequenceNumber := ch_outgoingReliableSequenceNumber c + 1,
      ch_outgoingUnreliableSequenceNumber := 0\<rparr>)"
    "outgoingUnsequencedGroup q = outgoingUnsequencedGroup p"
    using setup_reliable [OF assms(1) Cons.prems(1), of f] Cons.prems(2) by auto
  from Cons.IH [OF q(3)] Cons.prems(2) show ?case
    by (fastforce simp: q numbered_Cons ac_simps)
qed

subsection \<open>Properties\<close>

lemma reliable_flag_not_unreliable:
  fixes f :: u32
  assumes "f AND ENET_PACKET_FLAG_RELIABLE \<noteq> 0"
  shows "f AND (ENET_PACKET_FLAG_RELIABLE OR ENET_PACKET_FLAG_UNRELIABLE_FRAGMENT) \<noteq>
    ENET_PACKET_FLAG_UNRELIABLE_FRAGMENT"
proof
  assume eq: "f AND (ENET_PACKET_FLAG_RELIABLE OR ENET_PACKET_FLAG_UNRELIABLE_FRAGMENT) =
    ENET_PACKET_FLAG_UNRELIABLE_FRAGMENT"
  have "f AND ENET_PACKET_FLAG_RELIABLE =
      (f AND (ENET_PACKET_FLAG_RELIABLE OR ENET_PACKET_FLAG_UNRELIABLE_FRAGMENT)) AND ENET_PACKET_FLAG_RELIABLE"
    by (simp add: enet_consts and.assoc)
  also have "\<dots> = 0"
    by (simp add: eq) (simp add: enet_consts)
  finally show False
    using assms by simp
qed

text \<open>The list of fragments a reliable packet is cut into.\<close>

definition reliable_fragment :: "u8 \<Rightarrow> u16 \<Rightarrow> nat \<Rightarrow> packet_id \<Rightarrow> nat \<Rightarrow> u32 \<Rightarrow> u32 \<Rightarrow> size_t \<Rightarrow> outgoing_command" where
  "reliable_fragment ch start n pid N =
     new_fragment (ENET_PROTOCOL_COMMAND_SEND_FRAGMENT OR ENET_PROTOCOL_COMMAND_FLAG_ACKNOWLEDGE) ch
       start (of_nat n) pid (of_nat N)"

lemma reliable_fragment_simps [simp]:
  "oc_packet (reliable_fragment ch s n pid N a b c) = Some pid"
  "oc_fragmentOffset (reliable_fragment ch s n pid N a b c) = b"
  "oc_fragmentLength (reliable_fragment ch s n pid N a b c) = ucast c"
  "reliable_on ch (reliable_fragment ch s n pid N a b c)"
  "p_body (oc_command (stamp r u g (reliable_fragment ch s n pid N a b c))) = SendFragment
     \<lparr>fr_startSequenceNumber = s, fr_dataLength = ucast c, fr_fragmentCount = of_nat n,
      fr_fragmentNumber = a, fr_totalLength = ucast (of_nat N :: size_t), fr_fragmentOffset = b\<rparr>"
  by (simp_all add: stamp_def number_body_def command_number_def reliable_fragment_def new_fragment_def new_outgoing_def command_of_def
      reliable_on_def has_flag_def enet_consts)

lemma fragment_count_word:
  assumes "0 < unat (F :: size_t)" "unat N + unat F < 2 ^ 32"
  shows "(ucast ((N + F - 1) div F) :: u32) = of_nat (fragments_needed (unat N) (unat F))"
proof -
  have nz: "unat N + unat F \<noteq> 0"
    using assms(1) by simp
  have "unat (N + F) = unat N + unat F"
    using assms(2) by (intro unat_add_no_wrap) simp
  then have "unat (N + F - 1) = unat N + unat F - 1"
    using nz by (metis unat_0 unat_minus_one)
  then have "unat ((N + F - 1) div F) = fragments_needed (unat N) (unat F)"
    by (simp add: fragments_needed_def unat_div_distrib)
  moreover have "fragments_needed (unat N) (unat F) < 2 ^ 32"
    using fragments_needed_le [OF assms(1), of "unat N"] assms(2) by simp
  ultimately have "unat (ucast ((N + F - 1) div F) :: u32) = fragments_needed (unat N) (unat F)"
    by (simp add: unsigned_ucast_eq take_bit_nat_eq_self)
  then show ?thesis
    using \<open>fragments_needed (unat N) (unat F) < 2 ^ 32\<close>
    by (simp add: word_unat_eq_iff unat_of_nat take_bit_nat_eq_self)
qed

lemma send_fragments_reliable:
  assumes "hp_packets h pid = Some packet" "pk_flags packet AND ENET_PACKET_FLAG_RELIABLE \<noteq> 0"
    and "channel_at p ch = Some c"
    and "(ucast ((dataLength packet + F - 1) div F) :: u32) = m" "\<not> m > ENET_PROTOCOL_MAXIMUM_FRAGMENT_COUNT"
    and "fragment_loop (Suc (unat (dataLength packet)))
      (new_fragment (ENET_PROTOCOL_COMMAND_SEND_FRAGMENT OR ENET_PROTOCOL_COMMAND_FLAG_ACKNOWLEDGE) ch
         (ch_outgoingReliableSequenceNumber c + 1) m pid (dataLength packet))
      (dataLength packet) 0 0 F [] h = Some (Some (fs, m), h)"
    and "setup_all fs p = Some p'"
  shows "enet_peer_send_fragments F p ch pid h = Some (0, p',
    update_packet pid (packet\<lparr>referenceCount := referenceCount packet + ucast m\<rparr>) h)"
  unfolding enet_peer_send_fragments_def assms(1,3,4) Option.bind.bind_lunit Let_def
    if_not_P [OF assms(5)]
  using reliable_flag_not_unreliable [OF assms(2)] assms(1,6,7)
  by (simp add: retain_packet_def)

text \<open>The two ways of \<^verbatim>\<open>enet_peer_send\<close> to queue a packet it does not refuse.\<close>

lemma peer_send_long:
  assumes "\<not> (state p \<noteq> CONNECTED \<or> ucast ch \<ge> channelCount p)" "hp_packets h pid = Some packet"
    and "\<not> dataLength packet > maximumPacketSize" "dataLength packet > fragment_length p ck"
  shows "enet_peer_send maximumPacketSize ck p ch pid h = enet_peer_send_fragments (fragment_length p ck) p ch pid h"
  unfolding enet_peer_send_def if_not_P [OF assms(1)] assms(2) Option.bind.bind_lunit Let_def
    if_not_P [OF assms(3)] if_P [OF assms(4)] ..

lemma peer_send_short:
  assumes "\<not> (state p \<noteq> CONNECTED \<or> ucast ch \<ge> channelCount p)" "hp_packets h pid = Some packet"
    and "\<not> dataLength packet > maximumPacketSize" "\<not> dataLength packet > fragment_length p ck"
    and "channel_at p ch = Some c"
  shows "enet_peer_send maximumPacketSize ck p ch pid h =
    Option.bind (enet_peer_queue_outgoing_command p (send_command packet c ch) (Some pid) 0
        (ucast (dataLength packet)) h)
      (\<lambda>(ok, peer, h). Some (if ok then 0 else -1, peer, h))"
  unfolding enet_peer_send_def if_not_P [OF assms(1)] assms(2) Option.bind.bind_lunit Let_def
    if_not_P [OF assms(3)] if_not_P [OF assms(4)] assms(5) ..

lemma reliable_fragments_loop:
  assumes "0 < unat F" "unat (dataLength packet) + unat F < 2 ^ 32" "hp_mallocs h = []"
    and N: "N = unat (dataLength packet)" and n: "n = fragments_needed N (unat F)"
  shows "fragment_loop (Suc (unat (dataLength packet)))
      (new_fragment (ENET_PROTOCOL_COMMAND_SEND_FRAGMENT OR ENET_PROTOCOL_COMMAND_FLAG_ACKNOWLEDGE) ch
         s (of_nat n) pid (dataLength packet)) (dataLength packet) 0 0 F [] h =
    Some (Some (fragment_list (reliable_fragment ch s n pid N) N (unat F) 0, of_nat n), h)"
proof -
  have "F = of_nat (unat F)"
    by (simp only: of_nat_unat ucast_id)
  then have "fragment_loop (Suc N) (reliable_fragment ch s n pid N) (of_nat N) (of_nat 0)
      (of_nat (min (0 * unat F) N)) F [] h =
    Some (Some (fragment_list (reliable_fragment ch s n pid N) N (unat F) 0, of_nat n), h)"
    using fragment_loop_enough [of "unat F" N 0 "Suc N" F "reliable_fragment ch s n pid N" "[]" h] assms
    by auto
  then show ?thesis
    by (simp add: reliable_fragment_def N)
qed

lemma numbered_fragments:
  "i < fragments_needed N F \<Longrightarrow> numbered s g (fragment_list mk N F 0) ! i =
     stamp (s + 1 + of_nat i) 0 g (mk (of_nat i) (of_nat (i * F)) (of_nat (min F (N - i * F))))"
  by (simp add: numbered_def fragment_list_def)

lemma numbered_bytes: "map (fragment_bytes data) (numbered s g fs) = map (fragment_bytes data) fs"
  by (rule nth_equalityI) (simp_all add: numbered_def fragment_bytes_def)

text \<open>
  C4.  A reliable packet that is longer than one fragment is queued as consecutive
  fragments: sequence numbers follow the channel's, each fragment refers to the packet and
  carries number, count and offset, the fragments' bytes in order are exactly the packet's
  data, and the packet is retained once per fragment.
\<close>

theorem peer_send_reliable_fragments:
  assumes p: "peer_ok p" "state p = CONNECTED" "ucast ch < channelCount p" "channel_at p ch = Some c"
    and pk: "hp_packets h pid = Some packet" "pk_flags packet AND ENET_PACKET_FLAG_RELIABLE \<noteq> 0"
      "dataLength packet \<le> maximumPacketSize"
    and big: "fragment_length p ck < dataLength packet"
      "unat (dataLength packet) + unat (fragment_length p ck) < 2 ^ 32"
      "fragments_needed (unat (dataLength packet)) (unat (fragment_length p ck)) \<le> 1024 * 1024"
    and mem: "hp_mallocs h = []"
    and data: "length data = unat (dataLength packet)"
  shows "\<exists>p' h' frags. enet_peer_send maximumPacketSize ck p ch pid h = Some (0, p', h') \<and>
    outgoingReliableCommands p' = outgoingReliableCommands p @ frags \<and>
    length frags = fragments_needed (unat (dataLength packet)) (unat (fragment_length p ck)) \<and>
    (\<forall>i < length frags. oc_packet (frags ! i) = Some pid \<and>
       oc_reliableSequenceNumber (frags ! i) = ch_outgoingReliableSequenceNumber c + 1 + of_nat i \<and>
       p_body (oc_command (frags ! i)) = SendFragment
         \<lparr>fr_startSequenceNumber = ch_outgoingReliableSequenceNumber c + 1,
          fr_dataLength = oc_fragmentLength (frags ! i), fr_fragmentCount = of_nat (length frags),
          fr_fragmentNumber = of_nat i, fr_totalLength = ucast (dataLength packet),
          fr_fragmentOffset = oc_fragmentOffset (frags ! i)\<rparr>) \<and>
    concat (map (fragment_bytes data) frags) = data \<and>
    hp_packets h' pid = Some (packet\<lparr>referenceCount := referenceCount packet + of_nat (length frags)\<rparr>)"
proof -
  define N F where "N = unat (dataLength packet)" and "F = unat (fragment_length p ck)"
  define n where "n = fragments_needed N F"
  have F: "0 < F" "F < 2 ^ 16"
    using fragment_length_bounds(2,3) [OF p(1), of ck] by (simp_all add: F_def)
  have NF: "N + F < 2 ^ 32" "n \<le> 1024 * 1024"
    using big by (simp_all add: N_def F_def n_def)
  have ch: "ch \<noteq> 0xFF"
    using p(1,3) by (auto simp: peer_ok_def enet_consts)
  have count: "(ucast ((dataLength packet + fragment_length p ck - 1) div fragment_length p ck) :: u32) = of_nat n"
    using fragment_count_word [of "fragment_length p ck" "dataLength packet"] F NF
    by (simp add: n_def N_def F_def)
  have small: "\<not> of_nat n > ENET_PROTOCOL_MAXIMUM_FRAGMENT_COUNT"
    using NF(2) by (simp add: enet_consts word_less_nat_alt unat_of_nat_less)
  define mk where "mk = reliable_fragment ch (ch_outgoingReliableSequenceNumber c + 1) n pid N"
  define fs where "fs = fragment_list mk N F 0"
  have fs: "\<forall>f \<in> set fs. reliable_on ch f" "length fs = n"
    by (auto simp: fs_def fragment_list_def mk_def n_def)
  have loop: "fragment_loop (Suc (unat (dataLength packet)))
      (new_fragment (ENET_PROTOCOL_COMMAND_SEND_FRAGMENT OR ENET_PROTOCOL_COMMAND_FLAG_ACKNOWLEDGE) ch
         (ch_outgoingReliableSequenceNumber c + 1) (of_nat n) pid (dataLength packet))
      (dataLength packet) 0 0 (fragment_length p ck) [] h = Some (Some (fs, of_nat n), h)"
    unfolding fs_def mk_def F_def
    by (rule reliable_fragments_loop) (use F NF mem in \<open>simp_all add: N_def F_def n_def\<close>)
  obtain p' where p': "setup_all fs p = Some p'" "outgoingReliableCommands p' = outgoingReliableCommands p @
      numbered (ch_outgoingReliableSequenceNumber c) (outgoingUnsequencedGroup p) fs"
    using setup_all_reliable [OF ch p(4) fs(1)] by blast
  define frags where "frags = numbered (ch_outgoingReliableSequenceNumber c) (outgoingUnsequencedGroup p) fs"
  have send: "enet_peer_send maximumPacketSize ck p ch pid h = Some (0, p',
      update_packet pid (packet\<lparr>referenceCount := referenceCount packet + ucast (of_nat n :: u32)\<rparr>) h)"
    using send_fragments_reliable [OF pk(1,2) p(4) count small loop p'(1)] p(2,3) pk big(1)
    by (simp add: peer_send_long not_le not_less)
  have "length frags = n"
    by (simp add: frags_def numbered_def fs)
  moreover have "frags ! i = stamp (ch_outgoingReliableSequenceNumber c + 1 + of_nat i) 0
      (outgoingUnsequencedGroup p) (mk (of_nat i) (of_nat (i * F)) (of_nat (min F (N - i * F))))"
    if "i < n" for i
    using numbered_fragments that by (simp add: frags_def fs_def n_def)
  moreover have "concat (map (fragment_bytes data) frags) = data"
    unfolding frags_def numbered_bytes fs_def
    by (rule concat_fragments) (use F NF data in \<open>simp_all add: mk_def N_def\<close>)
  moreover have "(ucast (of_nat n :: u32) :: size_t) = of_nat n"
    using NF(2) by (simp add: word_unat_eq_iff unat_of_nat_less)
  moreover have "(of_nat N :: size_t) = dataLength packet"
    by (simp add: N_def)
  ultimately show ?thesis
    using send p'(2) by (intro exI [of _ p'] exI [of _ frags] exI)
      (auto simp: frags_def [symmetric] mk_def N_def [symmetric] F_def [symmetric] n_def [symmetric]
        update_packet_def)
qed

text \<open>Whatever the packet's flags, each of its fragments brings one reference to it.\<close>

lemma new_fragment_simps [simp]:
  "oc_packet (new_fragment cmd ch s n pid t a b c) = Some pid"
  "p_channelID (oc_command (new_fragment cmd ch s n pid t a b c)) = ch"
  by (simp_all add: new_fragment_def new_outgoing_def command_of_def)

lemma oc_refs_replicate:
  "\<forall>f \<in> set fs. oc_packet f = Some pid \<Longrightarrow> oc_refs fs = replicate_mset (length fs) pid"
  by (induction fs) auto

lemma send_fragments_refs:
  assumes ok: "refs_ok h (peer_refs p + M)" "peer_ok p" and pk: "hp_packets h pid = Some packet"
    and sz: "size (peer_refs p + M) < 2 ^ 63"
    and ch: "unat ch < length (channels p)"
    and F: "0 < unat F" "unat (dataLength packet) + unat F < 2 ^ 32"
  shows "\<exists>r p' h'. enet_peer_send_fragments F p ch pid h = Some (r, p', h') \<and>
    refs_ok h' (peer_refs p' + M) \<and> live h' = live h \<and> (r = 0 \<or> r = -1 \<and> p' = p) \<and> peer_ok p'"
proof -
  define N where "N = unat (dataLength packet)"
  obtain c where c: "channel_at p ch = Some c"
    using ch by (simp add: channel_at_def)
  obtain cmd start where cs: "(if pk_flags packet AND (ENET_PACKET_FLAG_RELIABLE OR ENET_PACKET_FLAG_UNRELIABLE_FRAGMENT) =
        ENET_PACKET_FLAG_UNRELIABLE_FRAGMENT \<and> ch_outgoingUnreliableSequenceNumber c < 0xFFFF
      then (ENET_PROTOCOL_COMMAND_SEND_UNRELIABLE_FRAGMENT, ch_outgoingUnreliableSequenceNumber c + 1)
      else (ENET_PROTOCOL_COMMAND_SEND_FRAGMENT OR ENET_PROTOCOL_COMMAND_FLAG_ACKNOWLEDGE,
        ch_outgoingReliableSequenceNumber c + 1)) = (cmd, start)"
    by (meson surj_pair)
  define m where "m = (ucast ((dataLength packet + F - 1) div F) :: u32)"
  define mk where "mk = new_fragment cmd ch start m pid (dataLength packet)"
  have mk: "oc_packet (mk a b d) = Some pid" "p_channelID (oc_command (mk a b d)) = ch" for a b d
    by (simp_all add: mk_def)
  define fs where "fs = fragment_list mk N (unat F) 0"
  define n where "n = fragments_needed N (unat F)"
  have fs: "length fs = n" "\<forall>f \<in> set fs. oc_packet f = Some pid" "\<forall>f \<in> set fs. routable p (oc_command f)"
    using ch by (auto simp: fs_def n_def fragment_list_def mk routable_def)
  have n: "n < 2 ^ 32"
    using fragments_needed_le [OF F(1), of N] F(2) by (simp add: n_def N_def)
  obtain r h1 where loop: "fragment_loop (Suc N) mk (dataLength packet) 0 0 F [] h = Some (r, h1)"
      "r = None \<or> r = Some (fs, of_nat n)" "hp_packets h1 = hp_packets h" "hp_next h1 = hp_next h"
    using fragment_loop_enough [of "unat F" N 0 "Suc N" F mk "[]" h] F
    by (auto simp: N_def fs_def n_def)
  have h1: "refs_ok h1 (peer_refs p + M)" "live h1 = live h"
    using ok(1) loop(3,4) refs_ok_cong [OF loop(3,4)] by (simp_all add: live_def fun_eq_iff)
  obtain p' where p': "setup_all fs p = Some p'" "peer_refs p' = replicate_mset n pid + peer_refs p" "peer_ok p'"
    using setup_all_refs [OF fs(3)] ok(2) oc_refs_replicate [OF fs(2)] fs(1) by auto
  have cnt: "unat (ucast (of_nat n :: u32) :: size_t) = n"
    using n by (simp add: unat_of_nat_less)
  have "count (peer_refs p + M) pid + unat (ucast (of_nat n :: u32) :: size_t) < 2 ^ 64"
    unfolding cnt using sz n count_le_size [of "peer_refs p + M" pid] by simp
  then obtain h2 where h2: "retain_packet pid (ucast (of_nat n :: u32)) h1 = Some h2"
      "refs_ok h2 (replicate_mset n pid + (peer_refs p + M))" "live h2 = live h"
    using retain_refs_ok [OF h1(1), of pid packet "ucast (of_nat n :: u32)"] pk loop(3) h1(2)
    unfolding cnt by auto
  have "enet_peer_send_fragments F p ch pid h =
      (if m > ENET_PROTOCOL_MAXIMUM_FRAGMENT_COUNT
       then Some (-1, p, h) else if r = None then Some (-1, p, h1) else Some (0, p', h2))"
    unfolding enet_peer_send_fragments_def pk c Option.bind.bind_lunit Let_def m_def [symmetric] cs
      prod.case mk_def [symmetric] N_def [symmetric] loop(1)
    using loop(2) p'(1) h2(1) by auto
  moreover have "refs_ok h2 (peer_refs p' + M)"
    using h2(2) by (simp add: p'(2) add.assoc)
  ultimately show ?thesis
    using ok h1 h2(3) p'(3) by auto
qed

definition sample_peer :: peer where
  "sample_peer = zero_peer\<lparr>state := CONNECTED, channels := [fresh_channel], channelCount := 1, mtu := 576,
     windowSize := 4096\<rparr>"

lemma sample_peer_ok: "peer_ok sample_peer"
  by (simp add: peer_ok_def sample_peer_def zero_peer_def fresh_channel_def channel_ok_def enet_consts)

lemma sample_peer_refs: "peer_refs sample_peer = {#}"
  by (simp add: peer_refs_def outgoing_refs_def incoming_refs_def channel_refs_def sample_peer_def
      zero_peer_def fresh_channel_def)

definition long_packet :: packet where
  "long_packet = \<lparr>referenceCount = 0, pk_flags = ENET_PACKET_FLAG_RELIABLE,
     pk_data = Some (replicate 600 (Some 1)), dataLength = 600, freeCallback = None, userData = None\<rparr>"

definition sample_heap_of :: "packet \<Rightarrow> heap" where
  "sample_heap_of p = empty_heap\<lparr>hp_packets := [0 \<mapsto> p], hp_next := 1\<rparr>"

lemma sample_fragment_length: "fragment_length sample_peer False = 548"
  by (simp add: fragment_length_def sample_peer_def enet_consts)

theorem peer_send_reliable_fragments_witness:
  "\<exists>p' h' frags. enet_peer_send 1000 False sample_peer 0 0 (sample_heap_of long_packet) = Some (0, p', h') \<and>
     outgoingReliableCommands p' = frags \<and> length frags = 2 \<and>
     concat (map (fragment_bytes (replicate 600 (1 :: u8))) frags) = replicate 600 1"
  using peer_send_reliable_fragments [of sample_peer 0 fresh_channel "sample_heap_of long_packet" 0
      long_packet 1000 False "replicate 600 (1 :: u8)"] sample_peer_ok
  by (auto simp: sample_fragment_length)
    (auto simp: sample_peer_def zero_peer_def channel_at_def sample_heap_of_def long_packet_def
      enet_consts fragments_needed_def empty_heap_def)

lemma peer_send_accepted_refs:
  assumes ok: "refs_ok h (peer_refs p + M)" "peer_ok p" and pk: "hp_packets h pid = Some packet"
    and sz: "size (peer_refs p + M) < 2 ^ 63"
    and go: "\<not> (state p \<noteq> CONNECTED \<or> ucast ch \<ge> channelCount p)" "unat ch < length (channels p)"
    and fits: "\<not> dataLength packet > maximumPacketSize" "unat (dataLength packet) \<le> 32 * 1024 * 1024"
  shows "\<exists>r p' h'. enet_peer_send maximumPacketSize ck p ch pid h = Some (r, p', h') \<and>
    refs_ok h' (peer_refs p' + M) \<and> live h' = live h \<and> peer_ok p' \<and> (r = 0 \<or> r = -1 \<and> p' = p)"
proof (cases "dataLength packet > fragment_length p ck")
  case True
  have "0 < unat (fragment_length p ck)" "unat (dataLength packet) + unat (fragment_length p ck) < 2 ^ 32"
    using fragment_length_bounds [OF ok(2), of ck] fits(2) by simp_all
  then show ?thesis
    unfolding peer_send_long [OF go(1) pk fits(1) True]
    using send_fragments_refs [OF ok pk sz go(2)] by blast
next
  case False
  obtain c where c: "channel_at p ch = Some c"
    using go(2) by (simp add: channel_at_def)
  have "p_channelID (send_command packet c ch) = ch"
    by (simp add: send_command_def command_of_def)
  then show ?thesis
    using queue_outgoing_refs [OF ok(1), of "send_command packet c ch" "Some pid" 0 "ucast (dataLength packet)"]
      peer_send_short [OF go(1) pk fits(1) False c] go(2) pk sz ok(2)
    by (auto simp: routable_def live_def)
qed

text \<open>
  C9.  Sending a live packet touches no freed memory and leaves every reference count
  exact: a failed call changes neither the peer nor a count, and a successful one accounts
  for each reference the queues now hold.
\<close>

theorem peer_send_counts_references:
  assumes ok: "refs_ok h (peer_refs p + M)" "peer_ok p" and pk: "live h pid"
    and sz: "size (peer_refs p + M) < 2 ^ 63"
    and mx: "maximumPacketSize \<le> ENET_HOST_DEFAULT_MAXIMUM_PACKET_SIZE"
  shows "\<exists>r p' h'. enet_peer_send maximumPacketSize ck p ch pid h = Some (r, p', h') \<and>
    refs_ok h' (peer_refs p' + M) \<and> live h' = live h \<and> peer_ok p' \<and>
    (r = 0 \<or> r = -1 \<and> p' = p)"
proof -
  obtain packet where packet: "hp_packets h pid = Some packet"
    using pk by (auto simp: live_def)
  consider (refused) "state p \<noteq> CONNECTED \<or> ucast ch \<ge> channelCount p" |
    (long) "dataLength packet > maximumPacketSize" |
    (go) "\<not> (state p \<noteq> CONNECTED \<or> ucast ch \<ge> channelCount p)" "unat ch < length (channels p)"
      "\<not> dataLength packet > maximumPacketSize"
    using ok(2) by (force simp: peer_ok_def word_le_nat_alt not_le)
  then show ?thesis
  proof cases
    case sending: go
    have "unat (dataLength packet) \<le> 32 * 1024 * 1024"
      using sending(3) mx by (simp add: enet_consts word_le_nat_alt word_less_nat_alt)
    with peer_send_accepted_refs [OF ok packet sz sending] show ?thesis .
  qed (use ok packet in \<open>auto simp: enet_peer_send_def\<close>)
qed

lemma sample_heap_refs: "referenceCount p = 0 \<Longrightarrow> packet_fits p \<Longrightarrow> refs_ok (sample_heap_of p) {#}"
  by (auto simp: refs_ok_def sample_heap_of_def empty_heap_def)

theorem peer_send_counts_references_witness:
  "\<exists>r p' h'. enet_peer_send 1000 False sample_peer 0 0 (sample_heap_of long_packet) = Some (r, p', h') \<and>
     refs_ok h' (peer_refs p')"
  using peer_send_counts_references [of "sample_heap_of long_packet" sample_peer "{#}" 0 1000 False 0]
    sample_peer_ok sample_peer_refs sample_heap_refs [of long_packet]
  by (force simp: live_def sample_heap_of_def long_packet_def packet_fits_def enet_consts)



end
