(* ===== verification/Peer_In.thy ===== *)
theory Peer_In
  imports Peer_Out
begin

text \<open>
  The incoming side of \<^verbatim>\<open>peer.c\<close>: queueing of received commands in sequence order,
  their dispatch to the application, and the removal of queued commands.  The queues of a
  channel are lists in the order of the code's intrusive lists.  Dispatching appends the
  index of the peer to the host's \<^verbatim>\<open>dispatchQueue\<close> unless the peer is in it already.
\<close>

subsection \<open>Receiving and removing\<close>

text \<open>\<^verbatim>\<open>enet_peer_receive\<close> gives the caller the reference the queue held.\<close>

definition enet_peer_receive :: "peer \<Rightarrow> heap \<Rightarrow> ((packet_id \<times> u8) option \<times> peer \<times> heap) option" where
  "enet_peer_receive peer h =
     (case dispatchedCommands peer of
        [] \<Rightarrow> Some (None, peer, h)
      | ic # ics \<Rightarrow> do {
          pid \<leftarrow> ic_packet ic;
          packet \<leftarrow> hp_packets h pid;
          let packet = packet\<lparr>referenceCount := referenceCount packet - 1\<rparr>;
          Some (Some (pid, p_channelID (ic_command ic)),
            peer\<lparr>dispatchedCommands := ics,
                 totalWaitingData := totalWaitingData peer - dataLength packet\<rparr>,
            update_packet pid packet h) })"

definition enet_peer_reset_outgoing_commands :: "outgoing_command list \<Rightarrow> heap \<Rightarrow> heap option" where
  "enet_peer_reset_outgoing_commands cs h = release_all release_packet (List.map_filter oc_packet cs) h"

definition enet_peer_remove_incoming_commands :: "incoming_command list \<Rightarrow> heap \<Rightarrow> heap option" where
  "enet_peer_remove_incoming_commands cs h = release_all release_packet (List.map_filter ic_packet cs) h"

subsection \<open>Dispatching\<close>

text \<open>
  The scan of the unreliable queue.  The queue is \<open>kept @ seg @ rest\<close>: \<open>seg\<close> runs from
  \<^verbatim>\<open>startCommand\<close> up to the current command and is moved to the dispatched commands as a
  whole, \<open>d\<close> is the position of \<^verbatim>\<open>droppedCommand\<close> in \<open>kept @ rest\<close>.  The result holds the
  last unreliable sequence number dispatched, the moved commands, and the commands that
  remain before the current one and from it on.
\<close>

record unreliable_scan =
  us_unreliable :: u16
  us_moved :: "incoming_command list"
  us_kept :: "incoming_command list"
  us_rest :: "incoming_command list"
  us_dropped :: nat

definition scan_end ::
  "u16 \<Rightarrow> incoming_command list \<Rightarrow> incoming_command list \<Rightarrow> incoming_command list \<Rightarrow> nat \<Rightarrow>
    incoming_command list \<Rightarrow> unreliable_scan" where
  "scan_end usn moved kept seg d rest =
     \<lparr>us_unreliable = usn, us_moved = moved @ seg, us_kept = kept, us_rest = rest,
      us_dropped = (if seg \<noteq> [] then length kept else d)\<rparr>"

fun scan_unreliable ::
  "channel \<Rightarrow> u16 \<Rightarrow> incoming_command list \<Rightarrow> incoming_command list \<Rightarrow> incoming_command list \<Rightarrow> nat \<Rightarrow>
    incoming_command list \<Rightarrow> unreliable_scan" where
  "scan_unreliable ch usn moved kept seg d [] = scan_end usn moved kept seg d []"
| "scan_unreliable ch usn moved kept seg d (c # cs) =
     (if command_number (ic_command c) = ENET_PROTOCOL_COMMAND_SEND_UNSEQUENCED
      then scan_unreliable ch usn moved kept (seg @ [c]) d cs
      else if ic_reliableSequenceNumber c = ch_incomingReliableSequenceNumber ch
      then if ic_fragmentsRemaining c \<le> 0
        then scan_unreliable ch (ic_unreliableSequenceNumber c) moved kept (seg @ [c]) d cs
        else if seg \<noteq> [] then scan_unreliable ch usn (moved @ seg) (kept @ [c]) [] (length kept) cs
        else if d \<noteq> length kept then scan_unreliable ch usn moved (kept @ [c]) [] (length kept - 1) cs
        else scan_unreliable ch usn moved (kept @ [c]) [] d cs
      else
        let reliableWindow = relative_window (ic_reliableSequenceNumber c) ch;
            currentWindow = current_window ch
        in if reliableWindow \<ge> currentWindow \<and>
              reliableWindow < currentWindow + ENET_PEER_FREE_RELIABLE_WINDOWS - 1
           then scan_end usn moved kept seg d (c # cs)
           else scan_unreliable ch usn (moved @ seg) (kept @ [c]) [] (length kept + 1) cs)"

text \<open>\<^verbatim>\<open>if (! peer->needsDispatch)\<close>: the peer joins the host's dispatch queue once.\<close>

definition need_dispatch :: "nat \<Rightarrow> peer \<Rightarrow> nat list \<Rightarrow> peer \<times> nat list" where
  "need_dispatch i peer queue =
     (if needsDispatch peer then (peer, queue) else (peer\<lparr>needsDispatch := True\<rparr>, queue @ [i]))"

definition dispatch_moved :: "nat \<Rightarrow> incoming_command list \<Rightarrow> peer \<Rightarrow> nat list \<Rightarrow> peer \<times> nat list" where
  "dispatch_moved i moved peer queue =
     (if moved = [] then (peer, queue)
      else need_dispatch i (peer\<lparr>dispatchedCommands := dispatchedCommands peer @ moved\<rparr>) queue)"

definition enet_peer_dispatch_incoming_unreliable_commands ::
  "nat \<Rightarrow> u8 \<Rightarrow> peer \<Rightarrow> nat list \<Rightarrow> heap \<Rightarrow> (peer \<times> nat list \<times> heap) option" where
  "enet_peer_dispatch_incoming_unreliable_commands i chan peer queue h = do {
     channel \<leftarrow> channel_at peer chan;
     let s = scan_unreliable channel (ch_incomingUnreliableSequenceNumber channel) [] [] [] 0
               (ch_incomingUnreliableCommands channel);
     let remaining = us_kept s @ us_rest s;
     let channel = channel\<lparr>ch_incomingUnreliableSequenceNumber := us_unreliable s,
                     ch_incomingUnreliableCommands := drop (us_dropped s) remaining\<rparr>;
     let (peer, queue) = dispatch_moved i (us_moved s) (set_channel peer chan channel) queue;
     h \<leftarrow> enet_peer_remove_incoming_commands (take (us_dropped s) remaining) h;
     Some (peer, queue, h) }"

text \<open>
  The prefix of the reliable queue that is complete and continues the sequence, with the
  sequence number it ends at.
\<close>

fun reliable_prefix :: "u16 \<Rightarrow> incoming_command list \<Rightarrow> u16 \<times> incoming_command list \<times> incoming_command list" where
  "reliable_prefix sn [] = (sn, [], [])"
| "reliable_prefix sn (c # cs) =
     (if ic_fragmentsRemaining c > 0 \<or> ic_reliableSequenceNumber c \<noteq> sn + 1 then (sn, [], c # cs)
      else
        let sn = (if ic_fragmentCount c > 0
                  then ic_reliableSequenceNumber c + ucast (ic_fragmentCount c - 1)
                  else ic_reliableSequenceNumber c);
            (sn, moved, rest) = reliable_prefix sn cs
        in (sn, c # moved, rest))"

definition enet_peer_dispatch_incoming_reliable_commands ::
  "nat \<Rightarrow> u8 \<Rightarrow> peer \<Rightarrow> nat list \<Rightarrow> heap \<Rightarrow> (peer \<times> nat list \<times> heap) option" where
  "enet_peer_dispatch_incoming_reliable_commands i chan peer queue h = do {
     channel \<leftarrow> channel_at peer chan;
     let (sn, moved, rest) = reliable_prefix (ch_incomingReliableSequenceNumber channel)
           (ch_incomingReliableCommands channel);
     if moved = [] then Some (peer, queue, h)
     else do {
       let channel = channel\<lparr>ch_incomingReliableSequenceNumber := sn,
             ch_incomingUnreliableSequenceNumber := 0, ch_incomingReliableCommands := rest\<rparr>;
       let (peer, queue) = dispatch_moved i moved (set_channel peer chan channel) queue;
       if ch_incomingUnreliableCommands channel \<noteq> []
       then enet_peer_dispatch_incoming_unreliable_commands i chan peer queue h
       else Some (peer, queue, h) } }"

subsection \<open>Queueing\<close>

text \<open>
  Where a command goes: the number of queued commands before it, or \<open>None\<close> if it is a
  duplicate.  The argument is the queue from its back.
\<close>

fun find_reliable :: "u16 \<Rightarrow> u16 \<Rightarrow> incoming_command list \<Rightarrow> nat option" where
  "find_reliable current sn [] = Some 0"
| "find_reliable current sn (c # cs) =
     (if sn \<ge> current \<and> ic_reliableSequenceNumber c < current then find_reliable current sn cs
      else if \<not> sn \<ge> current \<and> ic_reliableSequenceNumber c \<ge> current then Some (length (c # cs))
      else if ic_reliableSequenceNumber c \<le> sn
      then if ic_reliableSequenceNumber c < sn then Some (length (c # cs)) else None
      else find_reliable current sn cs)"

text \<open>
  The search for an unreliable command tests the command number of the new command, which is
  never \<^verbatim>\<open>SEND_UNSEQUENCED\<close> here, so unsequenced commands in the queue are not skipped.
\<close>

fun find_unreliable :: "u16 \<Rightarrow> u8 \<Rightarrow> u16 \<Rightarrow> u16 \<Rightarrow> incoming_command list \<Rightarrow> nat option" where
  "find_unreliable current num sn usn [] = Some 0"
| "find_unreliable current num sn usn (c # cs) =
     (if num = ENET_PROTOCOL_COMMAND_SEND_UNSEQUENCED then find_unreliable current num sn usn cs
      else if sn \<ge> current \<and> ic_reliableSequenceNumber c < current then find_unreliable current num sn usn cs
      else if \<not> sn \<ge> current \<and> ic_reliableSequenceNumber c \<ge> current then Some (length (c # cs))
      else if ic_reliableSequenceNumber c < sn then Some (length (c # cs))
      else if ic_reliableSequenceNumber c > sn then find_unreliable current num sn usn cs
      else if ic_unreliableSequenceNumber c \<le> usn
      then if ic_unreliableSequenceNumber c < usn then Some (length (c # cs)) else None
      else find_unreliable current num sn usn cs)"

text \<open>\<^verbatim>\<open>command->sendUnreliable.unreliableSequenceNumber\<close>, which a fragment's start number overlays.\<close>

fun unreliable_number :: "protocol_body \<Rightarrow> u16" where
  "unreliable_number (SendUnreliable sn _) = sn"
| "unreliable_number (SendFragment f) = fr_startSequenceNumber f"
| "unreliable_number _ = 0"

datatype place = Discard | Place_Reliable nat | Place_Unreliable nat u16

definition place_command :: "channel \<Rightarrow> protocol \<Rightarrow> place" where
  "place_command channel command =
     (let num = command_number command; sn = p_reliableSequenceNumber command;
          current = ch_incomingReliableSequenceNumber channel
      in if num \<noteq> ENET_PROTOCOL_COMMAND_SEND_UNSEQUENCED \<and>
            (relative_window sn channel < current_window channel \<or>
             relative_window sn channel \<ge> current_window channel + ENET_PEER_FREE_RELIABLE_WINDOWS - 1)
         then Discard
         else if num = ENET_PROTOCOL_COMMAND_SEND_FRAGMENT \<or> num = ENET_PROTOCOL_COMMAND_SEND_RELIABLE
         then if sn = current then Discard
           else (case find_reliable current sn (rev (ch_incomingReliableCommands channel)) of
                   None \<Rightarrow> Discard | Some n \<Rightarrow> Place_Reliable n)
         else if num = ENET_PROTOCOL_COMMAND_SEND_UNRELIABLE \<or>
                 num = ENET_PROTOCOL_COMMAND_SEND_UNRELIABLE_FRAGMENT
         then let usn = unreliable_number (p_body command) in
           if sn = current \<and> usn \<le> ch_incomingUnreliableSequenceNumber channel then Discard
           else (case find_unreliable current num sn usn (rev (ch_incomingUnreliableCommands channel)) of
                   None \<Rightarrow> Discard | Some n \<Rightarrow> Place_Unreliable n usn)
         else if num = ENET_PROTOCOL_COMMAND_SEND_UNSEQUENCED then Place_Unreliable 0 0
         else Discard)"

definition insert_at :: "nat \<Rightarrow> 'a \<Rightarrow> 'a list \<Rightarrow> 'a list" where
  "insert_at n x xs = take n xs @ x # drop n xs"

text \<open>
  The result of queueing: null, the address of the static dummy command, or the address of
  the new command.  It is an address: \<open>queue_incoming_may_dangle\<close> shows that the command may
  be gone when the call returns.
\<close>

datatype queue_result = Q_Null | Q_Dummy | Q_Command nat

definition new_incoming :: "nat \<Rightarrow> protocol \<Rightarrow> u16 \<Rightarrow> u32 \<Rightarrow> packet_id \<Rightarrow> incoming_command" where
  "new_incoming ident command usn fragmentCount pid =
     \<lparr>ic_id = ident, ic_reliableSequenceNumber = p_reliableSequenceNumber command,
      ic_unreliableSequenceNumber = usn, ic_command = command, ic_fragmentCount = fragmentCount,
      ic_fragmentsRemaining = fragmentCount,
      ic_fragments = (if fragmentCount > 0 then Some (replicate (unat ((fragmentCount + 31) div 32)) 0) else None),
      ic_packet = Some pid\<rparr>"

text \<open>The allocations: the packet, the command, and the bits for its fragments.\<close>

definition alloc_incoming ::
  "bytes option \<Rightarrow> size_t \<Rightarrow> u32 \<Rightarrow> u32 \<Rightarrow> heap \<Rightarrow> (packet_id option \<times> heap) option" where
  "alloc_incoming data len flags fragmentCount h = do {
     (r, h) \<leftarrow> enet_packet_create data len flags h;
     (case r of
        None \<Rightarrow> Some (None, h)
      | Some pid \<Rightarrow> do {
          let (ok, h) = enet_malloc h;
          let (okf, h) = (if ok \<and> fragmentCount > 0 \<and> fragmentCount \<le> ENET_PROTOCOL_MAXIMUM_FRAGMENT_COUNT
                          then enet_malloc h else (fragmentCount = 0, h));
          if ok \<and> okf then Some (Some pid, h)
          else do { h \<leftarrow> enet_packet_destroy (Some pid) h; Some (None, h) } }) }"

definition insert_incoming :: "place \<Rightarrow> (u16 \<Rightarrow> incoming_command) \<Rightarrow> channel \<Rightarrow> channel" where
  "insert_incoming pl mk channel =
     (case pl of
        Discard \<Rightarrow> channel
      | Place_Reliable n \<Rightarrow>
          channel\<lparr>ch_incomingReliableCommands := insert_at n (mk 0) (ch_incomingReliableCommands channel)\<rparr>
      | Place_Unreliable n usn \<Rightarrow>
          channel\<lparr>ch_incomingUnreliableCommands := insert_at n (mk usn) (ch_incomingUnreliableCommands channel)\<rparr>)"

definition enet_peer_queue_incoming_command ::
  "size_t \<Rightarrow> nat \<Rightarrow> nat \<Rightarrow> peer \<Rightarrow> protocol \<Rightarrow> bytes option \<Rightarrow> size_t \<Rightarrow> u32 \<Rightarrow> u32 \<Rightarrow> nat list \<Rightarrow> heap \<Rightarrow>
    (queue_result \<times> peer \<times> nat list \<times> heap) option" where
  "enet_peer_queue_incoming_command maximumWaitingData ident i peer command data len flags fragmentCount queue h =
     (let discard = Some (if fragmentCount > 0 then Q_Null else Q_Dummy, peer, queue, h) in
      if state peer = DISCONNECT_LATER then discard
      else do {
        channel \<leftarrow> channel_at peer (p_channelID command);
        let pl = place_command channel command;
        if pl = Discard then discard
        else if totalWaitingData peer \<ge> maximumWaitingData then Some (Q_Null, peer, queue, h)
        else do {
          (r, h) \<leftarrow> alloc_incoming data len flags fragmentCount h;
          (case r of
             None \<Rightarrow> Some (Q_Null, peer, queue, h)
           | Some pid \<Rightarrow> do {
               h \<leftarrow> retain_packet pid 1 h;
               let peer = (set_channel peer (p_channelID command)
                     (insert_incoming pl (\<lambda>usn. new_incoming ident command usn fragmentCount pid) channel))
                   \<lparr>totalWaitingData := totalWaitingData peer + len\<rparr>;
               (peer, queue, h) \<leftarrow> (case pl of
                   Place_Reliable _ \<Rightarrow>
                     enet_peer_dispatch_incoming_reliable_commands i (p_channelID command) peer queue h
                 | _ \<Rightarrow> enet_peer_dispatch_incoming_unreliable_commands i (p_channelID command) peer queue h);
               Some (Q_Command ident, peer, queue, h) }) } })"

text \<open>All commands that a peer has received and not handed out.\<close>

definition peer_commands :: "peer \<Rightarrow> incoming_command list" where
  "peer_commands peer = dispatchedCommands peer @
     concat (map (\<lambda>c. ch_incomingReliableCommands c @ ch_incomingUnreliableCommands c) (channels peer))"

subsection \<open>What dispatching leaves alone\<close>

definition incoming_frame :: "peer \<Rightarrow> peer \<Rightarrow> bool" where
  "incoming_frame p p' \<longleftrightarrow>
     (\<exists>cs ds n t. p' = p\<lparr>channels := cs, dispatchedCommands := ds, needsDispatch := n, totalWaitingData := t\<rparr> \<and>
       length cs = length (channels p) \<and>
       (\<forall>i < length cs. ch_reliableWindows (cs ! i) = ch_reliableWindows (channels p ! i)))"

lemma incoming_frameI:
  "p' = p\<lparr>channels := channels p', dispatchedCommands := dispatchedCommands p',
     needsDispatch := needsDispatch p', totalWaitingData := totalWaitingData p'\<rparr> \<Longrightarrow>
   length (channels p') = length (channels p) \<Longrightarrow>
   (\<And>i. i < length (channels p) \<Longrightarrow>
      ch_reliableWindows (channels p' ! i) = ch_reliableWindows (channels p ! i)) \<Longrightarrow>
   incoming_frame p p'"
  unfolding incoming_frame_def by metis

lemma incoming_frame_refl [simp]: "incoming_frame p p"
  by (rule incoming_frameI) simp_all

lemma incoming_frame_trans [trans]:
  assumes "incoming_frame p q" "incoming_frame q r"
  shows "incoming_frame p r"
proof -
  obtain cs ds n t where q: "q = p\<lparr>channels := cs, dispatchedCommands := ds, needsDispatch := n, totalWaitingData := t\<rparr>"
    "length cs = length (channels p)"
    "\<And>i. i < length cs \<Longrightarrow> ch_reliableWindows (cs ! i) = ch_reliableWindows (channels p ! i)"
    using assms(1) by (auto simp: incoming_frame_def)
  obtain cs' ds' n' t' where r: "r = q\<lparr>channels := cs', dispatchedCommands := ds', needsDispatch := n', totalWaitingData := t'\<rparr>"
    "length cs' = length cs"
    "\<And>i. i < length cs' \<Longrightarrow> ch_reliableWindows (cs' ! i) = ch_reliableWindows (cs ! i)"
    using assms(2) q(1) by (auto simp: incoming_frame_def)
  show ?thesis
    by (rule incoming_frameI) (simp_all add: q r)
qed

lemma incoming_frame_simps:
  assumes "incoming_frame p p'"
  shows "state p' = state p" "outgoing_refs p' = outgoing_refs p" "channelCount p' = channelCount p"
    "length (channels p') = length (channels p)" "peer_ok p' = peer_ok p"
    "mtu p' = mtu p" "incomingBandwidth p' = incomingBandwidth p" "windowSize p' = windowSize p"
proof -
  obtain cs ds n t where p': "p' = p\<lparr>channels := cs, dispatchedCommands := ds, needsDispatch := n, totalWaitingData := t\<rparr>"
    and len: "length cs = length (channels p)"
    and win: "\<And>i. i < length cs \<Longrightarrow> ch_reliableWindows (cs ! i) = ch_reliableWindows (channels p ! i)"
    using assms by (auto simp: incoming_frame_def)
  have "(\<forall>c \<in> set cs. channel_ok c) = (\<forall>c \<in> set (channels p). channel_ok c)"
    using len win by (simp add: all_set_conv_all_nth channel_ok_def)
  then show "state p' = state p" "outgoing_refs p' = outgoing_refs p" "channelCount p' = channelCount p"
    "length (channels p') = length (channels p)" "peer_ok p' = peer_ok p"
    "mtu p' = mtu p" "incomingBandwidth p' = incomingBandwidth p" "windowSize p' = windowSize p"
    by (simp_all add: p' len peer_ok_def outgoing_refs_def)
qed

lemma set_channel_frame:
  "channel_at p i = Some c \<Longrightarrow> ch_reliableWindows c' = ch_reliableWindows c \<Longrightarrow>
    incoming_frame p (set_channel p i c')"
  by (rule incoming_frameI) (simp_all add: set_channel_def channel_at_Some nth_list_update)

lemma need_dispatch_frame: "incoming_frame p (fst (need_dispatch i p q))"
  by (rule incoming_frameI) (simp_all add: need_dispatch_def)

lemma dispatch_moved_frame: "incoming_frame p (fst (dispatch_moved i moved p q))"
proof -
  have "incoming_frame p (p\<lparr>dispatchedCommands := ds\<rparr>)" for ds
    by (rule incoming_frameI) simp_all
  from incoming_frame_trans [OF this need_dispatch_frame] show ?thesis
    by (simp add: dispatch_moved_def)
qed

lemma set_channel_incoming_refs:
  assumes "channel_at p i = Some c"
  shows "incoming_refs (set_channel p i c') + channel_refs c = incoming_refs p + channel_refs c'"
  using assms sum_channel_refs_split [of "unat i" "channels p" c']
  by (simp add: channel_at_Some set_channel_def incoming_refs_def add.assoc)

lemma dispatch_moved_simps [simp]:
  "channels (fst (dispatch_moved i moved p q)) = channels p"
  "dispatchedCommands (fst (dispatch_moved i moved p q)) = dispatchedCommands p @ moved"
  "incoming_refs (fst (dispatch_moved i moved p q)) = incoming_refs p + ic_refs moved"
  "outgoing_refs (fst (dispatch_moved i moved p q)) = outgoing_refs p"
  "channel_at (fst (dispatch_moved i moved p q)) chan = channel_at p chan"
  by (simp_all add: dispatch_moved_def need_dispatch_def incoming_refs_def outgoing_refs_def
      channel_at_def ac_simps)

subsection \<open>The scan moves, keeps and drops\<close>

lemma scan_unreliable_parts:
  "d \<le> length kept \<Longrightarrow>
    mset (us_moved (scan_unreliable ch usn moved kept seg d cs)) +
    mset (us_kept (scan_unreliable ch usn moved kept seg d cs)) +
    mset (us_rest (scan_unreliable ch usn moved kept seg d cs)) =
      mset moved + mset kept + mset seg + mset cs \<and>
    us_dropped (scan_unreliable ch usn moved kept seg d cs) \<le>
      length (us_kept (scan_unreliable ch usn moved kept seg d cs))"
proof (induction ch usn moved kept seg d cs rule: scan_unreliable.induct)
  case (2 ch usn moved kept seg d c cs)
  then show ?case
    by (auto simp: scan_end_def Let_def)
qed (simp add: scan_end_def)

lemma ic_refs_mset_cong: "mset xs = mset ys \<Longrightarrow> ic_refs xs = ic_refs ys"
  unfolding ic_refs_def List.map_filter_def mset_map mset_filter by simp

lemma ic_refs_append_mset: "mset xs = mset ys + mset zs \<Longrightarrow> ic_refs xs = ic_refs ys + ic_refs zs"
  using ic_refs_mset_cong [of xs "ys @ zs"] by simp

subsection \<open>References\<close>

lemma remove_incoming_refs:
  assumes "refs_ok h (ic_refs cs + M)"
  shows "\<exists>h'. enet_peer_remove_incoming_commands cs h = Some h' \<and> refs_ok h' M"
  using released.release_all_some [of h "List.map_filter ic_packet cs" M] assms
  by (auto simp: enet_peer_remove_incoming_commands_def ic_refs_def)

lemma dispatch_unreliable_refs:
  assumes ok: "refs_ok h (peer_refs p + M)" and c: "channel_at p chan = Some c"
  shows "\<exists>p' q' h'. enet_peer_dispatch_incoming_unreliable_commands i chan p q h = Some (p', q', h') \<and>
    refs_ok h' (peer_refs p' + M) \<and> incoming_frame p p'"
proof -
  define s where "s = scan_unreliable c (ch_incomingUnreliableSequenceNumber c) [] [] [] 0
    (ch_incomingUnreliableCommands c)"
  define gone where "gone = take (us_dropped s) (us_kept s @ us_rest s)"
  define rest where "rest = drop (us_dropped s) (us_kept s @ us_rest s)"
  have split: "gone @ rest = us_kept s @ us_rest s"
    by (simp only: gone_def rest_def append_take_drop_id)
  have "mset (ch_incomingUnreliableCommands c) = mset (us_moved s) + mset (gone @ rest)"
    using scan_unreliable_parts [of 0 "[]" c "ch_incomingUnreliableSequenceNumber c" "[]" "[]"
      "ch_incomingUnreliableCommands c"]
    unfolding split by (simp add: add.assoc flip: s_def)
  then have parts: "ic_refs (ch_incomingUnreliableCommands c) = ic_refs (us_moved s) + (ic_refs gone + ic_refs rest)"
    using ic_refs_append_mset by fastforce
  define c' where "c' = c\<lparr>ch_incomingUnreliableSequenceNumber := us_unreliable s, ch_incomingUnreliableCommands := rest\<rparr>"
  define p' where "p' = fst (dispatch_moved i (us_moved s) (set_channel p chan c') q)"
  define q' where "q' = snd (dispatch_moved i (us_moved s) (set_channel p chan c') q)"
  have cr: "channel_refs c = ic_refs (us_moved s) + ic_refs gone + channel_refs c'"
    by (simp add: channel_refs_def c'_def parts ac_simps)
  have "incoming_refs p = incoming_refs (set_channel p chan c') + ic_refs (us_moved s) + ic_refs gone"
    using set_channel_incoming_refs [OF c, of c'] unfolding cr by (simp add: ac_simps)
  moreover have "outgoing_refs (set_channel p chan c') = outgoing_refs p"
    by (simp add: set_channel_def)
  ultimately have "peer_refs p = peer_refs p' + ic_refs gone"
    by (simp add: peer_refs_def p'_def ac_simps)
  then have "refs_ok h (ic_refs gone + (peer_refs p' + M))"
    using ok by (simp add: ac_simps)
  then obtain h' where h': "enet_peer_remove_incoming_commands gone h = Some h'" "refs_ok h' (peer_refs p' + M)"
    using remove_incoming_refs by blast
  have "incoming_frame p p'"
    unfolding p'_def
    by (rule incoming_frame_trans [OF set_channel_frame [OF c] dispatch_moved_frame]) (simp add: c'_def)
  moreover have "enet_peer_dispatch_incoming_unreliable_commands i chan p q h = Some (p', q', h')"
    unfolding enet_peer_dispatch_incoming_unreliable_commands_def c Option.bind.bind_lunit Let_def
      s_def [symmetric] gone_def [symmetric] rest_def [symmetric] c'_def [symmetric] h'(1)
    by (simp add: p'_def q'_def split: prod.split)
  ultimately show ?thesis
    using h'(2) by blast
qed

lemma reliable_prefix_parts:
  "reliable_prefix sn cs = (sn', moved, rest) \<Longrightarrow> cs = moved @ rest"
  by (induction sn cs arbitrary: sn' moved rest rule: reliable_prefix.induct)
    (auto split: if_splits prod.splits simp: Let_def)

lemma dispatch_reliable_refs:
  assumes ok: "refs_ok h (peer_refs p + M)" and c: "channel_at p chan = Some c"
  shows "\<exists>p' q' h'. enet_peer_dispatch_incoming_reliable_commands i chan p q h = Some (p', q', h') \<and>
    refs_ok h' (peer_refs p' + M) \<and> incoming_frame p p'"
proof -
  obtain sn moved rest where pre: "reliable_prefix (ch_incomingReliableSequenceNumber c)
      (ch_incomingReliableCommands c) = (sn, moved, rest)"
    by (metis prod_cases3)
  note parts = reliable_prefix_parts [OF pre]
  define c' where "c' = c\<lparr>ch_incomingReliableSequenceNumber := sn,
    ch_incomingUnreliableSequenceNumber := 0, ch_incomingReliableCommands := rest\<rparr>"
  obtain p1 q1 where d: "dispatch_moved i moved (set_channel p chan c') q = (p1, q1)"
    by (cases "dispatch_moved i moved (set_channel p chan c') q")
  note p1 = dispatch_moved_simps [of i moved "set_channel p chan c'" q, unfolded d fst_conv]
  have "channel_refs c = ic_refs moved + channel_refs c'"
    by (simp add: channel_refs_def c'_def parts ac_simps)
  then have "incoming_refs p = incoming_refs (set_channel p chan c') + ic_refs moved"
    using set_channel_incoming_refs [OF c, of c'] by (simp add: ac_simps)
  then have "peer_refs p = peer_refs p1"
    by (simp add: peer_refs_def p1 set_channel_def)
  then have ok1: "refs_ok h (peer_refs p1 + M)"
    using ok by simp
  have "incoming_frame (set_channel p chan c') p1"
    using dispatch_moved_frame [of "set_channel p chan c'" i moved q] by (simp add: d)
  then have fr: "incoming_frame p p1"
    by (rule incoming_frame_trans [OF set_channel_frame [OF c], rotated]) (simp add: c'_def)
  have c1: "channel_at p1 chan = Some c'"
    using c by (simp add: p1 set_channel_def channel_at_def split: if_splits)
  have eq: "enet_peer_dispatch_incoming_reliable_commands i chan p q h =
      (if moved = [] then Some (p, q, h)
       else if ch_incomingUnreliableCommands c' \<noteq> []
       then enet_peer_dispatch_incoming_unreliable_commands i chan p1 q1 h else Some (p1, q1, h))"
    unfolding enet_peer_dispatch_incoming_reliable_commands_def c Option.bind.bind_lunit pre Let_def
      prod.case c'_def [symmetric] d ..
  show ?thesis
    using dispatch_unreliable_refs [OF ok1 c1, of i q1] incoming_frame_trans [OF fr] ok ok1 fr
    unfolding eq by auto
qed

lemma create_total:
  assumes "case data of None \<Rightarrow> True | Some bs \<Rightarrow> unat len \<le> length bs"
  shows "\<exists>r h'. enet_packet_create data len flags h = Some (r, h')"
  using assms by (auto simp: enet_packet_create_def Let_def init_packet_def split: option.split prod.split)

lemma alloc_incoming_refs:
  assumes ok: "refs_ok h M"
    and data: "case data of None \<Rightarrow> flags AND ENET_PACKET_FLAG_NO_ALLOCATE = 0 | Some bs \<Rightarrow> unat len \<le> length bs"
  shows "\<exists>r h'. alloc_incoming data len flags n h = Some (r, h') \<and> refs_ok h' M \<and> packet_added h r len h'"
proof -
  obtain r1 h1 where cr: "enet_packet_create data len flags h = Some (r1, h1)"
    using create_total [of len data flags h] data by (auto split: option.splits)
  note cr_ok = create_refs_ok [OF cr ok data]
  show ?thesis
  proof (cases r1)
    case None
    then show ?thesis
      using cr cr_ok by (simp add: alloc_incoming_def)
  next
    case (Some pid)
    obtain b2 h2 where m2: "enet_malloc h1 = (b2, h2)" by (cases "enet_malloc h1")
    obtain b3 h3 where m3: "(if b2 \<and> n > 0 \<and> n \<le> ENET_PROTOCOL_MAXIMUM_FRAGMENT_COUNT
        then enet_malloc h2 else (n = 0, h2)) = (b3, h3)" by (meson surj_pair)
    have pk: "hp_packets h3 = hp_packets h1" "hp_next h3 = hp_next h1"
      using enet_malloc_packets [OF m2] m3 enet_malloc_packets [of h2 b3 h3] by (auto split: if_splits)
    have ok3: "refs_ok h3 M"
      using cr_ok refs_ok_cong [OF pk] by simp
    obtain pk3 where p: "\<not> live h pid" "hp_packets h3 = (hp_packets h)(pid \<mapsto> pk3)"
        "referenceCount pk3 = 0" "dataLength pk3 = len"
      using cr_ok Some by (auto simp: packet_added_def pk)
    obtain h4 where h4: "enet_packet_destroy (Some pid) h3 = Some h4" "hp_packets h4 = (hp_packets h3)(pid := None)"
        "hp_next h4 = hp_next h3"
      using enet_packet_destroy_packets [of h3 pid pk3] p(2) by auto
    have restored: "hp_packets h4 = hp_packets h"
      using p(1) by (auto simp: h4(2) p(2) live_def)
    have "count M pid = 0"
      using refs_ok_count [OF ok3, of pid pk3] p(2,3) by simp
    then have "refs_ok h4 M"
      by (intro refs_okI) (auto simp: h4(2,3) refs_ok_count [OF ok3] refs_ok_None [OF ok3]
          refs_ok_next [OF ok3] refs_ok_fits [OF ok3] split: if_splits simp del: count_eq_zero_iff)
    moreover have "alloc_incoming data len flags n h = (if b2 \<and> b3 then Some (Some pid, h3) else Some (None, h4))"
      unfolding alloc_incoming_def cr Option.bind.bind_lunit prod.case Some option.case m2 Let_def m3
      by (simp add: h4(1))
    ultimately show ?thesis
      using ok3 p restored by (auto simp: packet_added_def)
  qed
qed

lemma insert_at_refs: "ic_refs (insert_at n c cs) = ic_refs [c] + ic_refs cs"
proof -
  have "ic_refs (take n cs) + ic_refs (drop n cs) = ic_refs cs"
    by (simp only: ic_refs_simps(3) [symmetric] append_take_drop_id)
  then show ?thesis
    unfolding insert_at_def ic_refs_simps by (simp add: ac_simps)
qed

lemma insert_incoming_refs:
  assumes "pl \<noteq> Discard" "\<And>usn. ic_packet (mk usn) = Some pid"
  shows "channel_refs (insert_incoming pl mk c) = add_mset pid (channel_refs c)"
  using assms
  by (cases pl) (simp_all add: insert_incoming_def channel_refs_def insert_at_refs)

lemma insert_incoming_windows: "ch_reliableWindows (insert_incoming pl mk c) = ch_reliableWindows c"
  by (cases pl) (simp_all add: insert_incoming_def)

lemma packet_added_count:
  assumes "refs_ok h M" "packet_added h (Some pid) len h'"
  shows "\<exists>p. hp_packets h' pid = Some p \<and> referenceCount p = 0 \<and> dataLength p = len \<and> pid \<notin># M"
proof -
  obtain p where p: "\<not> live h pid" "hp_packets h' = (hp_packets h)(pid \<mapsto> p)" "referenceCount p = 0"
      "dataLength p = len"
    using assms(2) by (auto simp: packet_added_def)
  then have "count M pid = 0"
    using refs_ok_None [OF assms(1), of pid] by (simp add: live_def)
  with p show ?thesis
    by (simp add: count_eq_zero_iff)
qed

text \<open>The state in which the new command is queued and the dispatch begins.\<close>

definition queued :: "nat \<Rightarrow> place \<Rightarrow> protocol \<Rightarrow> u32 \<Rightarrow> packet_id \<Rightarrow> size_t \<Rightarrow> channel \<Rightarrow> peer \<Rightarrow> peer" where
  "queued ident pl command n pid len c p =
     (set_channel p (p_channelID command)
        (insert_incoming pl (\<lambda>usn. new_incoming ident command usn n pid) c))
      \<lparr>totalWaitingData := totalWaitingData p + len\<rparr>"

lemma queued_frame:
  "channel_at p (p_channelID command) = Some c \<Longrightarrow> incoming_frame p (queued ident pl command n pid len c p)"
  by (rule incoming_frameI)
    (simp_all add: queued_def set_channel_def channel_at_Some nth_list_update insert_incoming_windows)

lemma queued_refs:
  assumes "channel_at p (p_channelID command) = Some c" "pl \<noteq> Discard"
  shows "peer_refs (queued ident pl command n pid len c p) = add_mset pid (peer_refs p)"
proof -
  define c' where "c' = insert_incoming pl (\<lambda>usn. new_incoming ident command usn n pid) c"
  have "channel_refs c' = add_mset pid (channel_refs c)"
    unfolding c'_def by (rule insert_incoming_refs [OF assms(2)]) (simp add: new_incoming_def)
  then have "incoming_refs (set_channel p (p_channelID command) c') = add_mset pid (incoming_refs p)"
    using set_channel_incoming_refs [OF assms(1), of c'] by simp
  then show ?thesis
    by (simp add: peer_refs_def queued_def incoming_refs_def outgoing_refs_def set_channel_def flip: c'_def)
qed

lemma queued_channel_at:
  "channel_at p (p_channelID command) = Some c \<Longrightarrow>
    channel_at (queued ident pl command n pid len c p) (p_channelID command) =
      Some (insert_incoming pl (\<lambda>usn. new_incoming ident command usn n pid) c)"
  by (simp add: queued_def set_channel_def channel_at_def split: if_splits)

text \<open>
  The call on every branch: discarded, refused for want of memory or because too much data
  waits, or queued and then dispatched.
\<close>

lemma queue_incoming_cases:
  assumes c: "channel_at p (p_channelID command) = Some c"
    and data: "case data of None \<Rightarrow> flags AND ENET_PACKET_FLAG_NO_ALLOCATE = 0 | Some bs \<Rightarrow> unat len \<le> length bs"
    and ok: "refs_ok h M"
  obtains (discarded) "state p = DISCONNECT_LATER \<or> place_command c command = Discard"
      "enet_peer_queue_incoming_command mx ident i p command data len flags n q h =
        Some (if n > 0 then Q_Null else Q_Dummy, p, q, h)"
  | (refused) h1 where "refs_ok h1 M" "place_command c command \<noteq> Discard"
      "enet_peer_queue_incoming_command mx ident i p command data len flags n q h = Some (Q_Null, p, q, h1)"
  | (accepted) pid h1 where "state p \<noteq> DISCONNECT_LATER" "place_command c command \<noteq> Discard"
      "refs_ok h1 (add_mset pid M)" "pid \<notin># M"
      "enet_peer_queue_incoming_command mx ident i p command data len flags n q h =
        Option.bind ((case place_command c command of
            Place_Reliable _ \<Rightarrow> enet_peer_dispatch_incoming_reliable_commands i (p_channelID command)
          | _ \<Rightarrow> enet_peer_dispatch_incoming_unreliable_commands i (p_channelID command))
            (queued ident (place_command c command) command n pid len c p) q h1)
          (\<lambda>(p, q, h). Some (Q_Command ident, p, q, h))"
      "\<exists>pk. hp_packets h1 pid = Some pk \<and> dataLength pk = len"
proof -
  define pl where "pl = place_command c command"
  obtain r h0 where al: "alloc_incoming data len flags n h = Some (r, h0)" "refs_ok h0 M" "packet_added h r len h0"
    using alloc_incoming_refs [OF ok data] by blast
  consider "state p = DISCONNECT_LATER \<or> pl = Discard"
    | "state p \<noteq> DISCONNECT_LATER" "pl \<noteq> Discard" "totalWaitingData p \<ge> mx \<or> r = None"
    | pid where "state p \<noteq> DISCONNECT_LATER" "pl \<noteq> Discard" "\<not> totalWaitingData p \<ge> mx" "r = Some pid"
    by fastforce
  then show thesis
  proof cases
    case 1
    then show thesis
      by (intro discarded) (auto simp: pl_def enet_peer_queue_incoming_command_def c Let_def)
  next
    case 2
    show thesis
    proof (cases "mx \<le> totalWaitingData p")
      case True
      with 2 show thesis
        by (intro refused [OF ok]) (simp_all add: enet_peer_queue_incoming_command_def c pl_def Let_def)
    next
      case False
      with 2 al(1) show thesis
        by (intro refused [OF al(2)]) (simp_all add: enet_peer_queue_incoming_command_def c pl_def Let_def)
    qed
  next
    case (3 pid)
    obtain pk where pk: "hp_packets h0 pid = Some pk" "pid \<notin># M" "dataLength pk = len"
      using packet_added_count [OF ok] al(3) 3(4) by blast
    obtain h1 where h1: "retain_packet pid 1 h0 = Some h1" "refs_ok h1 (add_mset pid M)"
      using retain_refs_ok [OF al(2) pk(1), of 1] not_in_iff [of pid M] pk(2) by auto
    have "enet_peer_queue_incoming_command mx ident i p command data len flags n q h =
        Option.bind ((case pl of
            Place_Reliable _ \<Rightarrow> enet_peer_dispatch_incoming_reliable_commands i (p_channelID command)
          | _ \<Rightarrow> enet_peer_dispatch_incoming_unreliable_commands i (p_channelID command))
            (queued ident pl command n pid len c p) q h1) (\<lambda>(p, q, h). Some (Q_Command ident, p, q, h))"
      using 3 al(1) h1(1)
      by (cases pl) (simp_all add: enet_peer_queue_incoming_command_def c pl_def [symmetric] queued_def Let_def)
    then show thesis
      using accepted [of h1 pid] 3 h1 pk by (auto simp: pl_def retain_packet_def update_packet_def)
  qed
qed

subsection \<open>Properties\<close>

text \<open>
  C8.  Queueing any received command, whatever its number, sequence numbers and fragment
  count, touches no freed packet, keeps every reference count exact and changes only the
  queues of the peer, on every branch: discarded, refused or dispatched.
\<close>

theorem queue_incoming_counts_references:
  assumes ok: "refs_ok h (peer_refs p + M)"
    and c: "unat (p_channelID command) < length (channels p)"
    and data: "case data of None \<Rightarrow> flags AND ENET_PACKET_FLAG_NO_ALLOCATE = 0 | Some bs \<Rightarrow> unat len \<le> length bs"
  shows "\<exists>r p' q' h'. enet_peer_queue_incoming_command mx ident i p command data len flags n q h =
      Some (r, p', q', h') \<and>
    refs_ok h' (peer_refs p' + M) \<and> incoming_frame p p' \<and> peer_ok p' = peer_ok p \<and>
    (r = Q_Null \<or> r = Q_Dummy \<longrightarrow> p' = p \<and> q' = q)"
proof -
  obtain ch where ch: "channel_at p (p_channelID command) = Some ch"
    using c by (simp add: channel_at_def)
  from ch data ok show ?thesis
  proof (cases rule: queue_incoming_cases [where mx = mx and ident = ident and i = i and flags = flags
        and n = n and q = q])
    case (accepted pid h1)
    define p1 where "p1 = queued ident (place_command ch command) command n pid len ch p"
    have p1: "peer_refs p1 = add_mset pid (peer_refs p)" "incoming_frame p p1"
        "channel_at p1 (p_channelID command) \<noteq> None"
      unfolding p1_def using queued_refs [OF ch accepted(2)] queued_frame [OF ch] queued_channel_at [OF ch]
      by simp_all
    then obtain ch1 where ch1: "channel_at p1 (p_channelID command) = Some ch1"
      by auto
    have "refs_ok h1 (peer_refs p1 + M)"
      using accepted(3) by (simp add: p1(1))
    from dispatch_reliable_refs [OF this ch1, of i q] dispatch_unreliable_refs [OF this ch1, of i q]
    obtain p2 q2 h2 where "(case place_command ch command of
            Place_Reliable _ \<Rightarrow> enet_peer_dispatch_incoming_reliable_commands i (p_channelID command)
          | _ \<Rightarrow> enet_peer_dispatch_incoming_unreliable_commands i (p_channelID command)) p1 q h1 =
            Some (p2, q2, h2)" "refs_ok h2 (peer_refs p2 + M)" "incoming_frame p1 p2"
      by (cases "place_command ch command") auto
    then show ?thesis
      using accepted(5) incoming_frame_trans [OF p1(2)] incoming_frame_simps(5)
      by (auto simp flip: p1_def)
  qed (use ok in auto)
qed

definition sample_reliable :: "u16 \<Rightarrow> protocol" where
  "sample_reliable sn = \<lparr>p_command = 0x86, p_channelID = 0, p_reliableSequenceNumber = sn, p_body = SendReliable 2\<rparr>"

theorem queue_incoming_counts_references_witness:
  "\<exists>r p' q' h'. enet_peer_queue_incoming_command 1000 7 3 sample_peer (sample_reliable 1)
      (Some [Some 1, Some 2]) 2 1 0 [] empty_heap = Some (r, p', q', h') \<and> refs_ok h' (peer_refs p')"
proof -
  have h: "refs_ok empty_heap (peer_refs sample_peer + {#})"
    by (simp add: sample_peer_refs refs_ok_def empty_heap_def)
  have c: "unat (p_channelID (sample_reliable 1)) < length (channels sample_peer)"
    by (simp add: sample_reliable_def sample_peer_def)
  have "case Some [Some 1, Some 2 :: u8 option] of
      None \<Rightarrow> (1 :: u32) AND ENET_PACKET_FLAG_NO_ALLOCATE = 0 | Some bs \<Rightarrow> unat (2 :: size_t) \<le> length bs"
    by simp
  from queue_incoming_counts_references [OF h c this, of 1000 7 3 0 "[]"]
  obtain r p' q' h' where "enet_peer_queue_incoming_command 1000 7 3 sample_peer (sample_reliable 1)
      (Some [Some 1, Some 2]) 2 1 0 [] empty_heap = Some (r, p', q', h')" "refs_ok h' (peer_refs p' + {#})"
    by blast
  then show ?thesis
    by simp
qed

end
