(* ===== verification/Host_Types.thy ===== *)
theory Host_Types
  imports Peer_In
begin

text \<open>
  The host of \<^verbatim>\<open>enet/enet.h\<close> and the world around it.  What is not under \<^verbatim>\<open>src\<close> is
  data of the record \<open>world\<close>, which the host extends: the clock, the outcomes of the socket calls to come, and the
  datagrams sent so far; the callbacks (checksum, compressor, intercept) are functions.  The
  buffers gathered for one datagram refer to packets by address and are read when the
  datagram is sent, as the code does.
\<close>

datatype buffer =
    Buf_Command protocol
  | Buf_Data packet_id u32 u16 \<comment> \<open>packet, offset and length of the data\<close>

datatype event_type = EVENT_NONE | EVENT_CONNECT | EVENT_DISCONNECT | EVENT_RECEIVE

record event =
  ev_type :: event_type
  ev_peer :: "nat option"
  ev_channelID :: u8
  ev_data :: u32
  ev_packet :: "packet_id option"

definition no_event :: event where
  "no_event = \<lparr>ev_type = EVENT_NONE, ev_peer = None, ev_channelID = 0, ev_data = 0, ev_packet = None\<rparr>"

text \<open>The results of \<^verbatim>\<open>enet_socket_receive\<close>: an error, nothing there, or a datagram.\<close>

datatype received = Recv_Error | Recv_Nothing | Recv_Datagram address "u8 list"

text \<open>
  Those of \<^verbatim>\<open>enet_socket_wait\<close>: an error, or the condition it leaves behind.
\<close>

datatype waited = Wait_Error | Wait_Receive | Wait_Nothing | Wait_Interrupt

text \<open>
  The compressor callbacks return the bytes they produced; the empty list is their
  failure, and \<open>None\<close> an undefined access to their input.
  The input of \<^verbatim>\<open>decompress\<close> is all of the array from \<^verbatim>\<open>inData\<close> on, and the limits are the
  arguments \<^verbatim>\<open>inLimit\<close> and \<^verbatim>\<open>outLimit\<close> as the code computes them.
\<close>

record compressor =
  co_compress :: "bytes list \<Rightarrow> size_t \<Rightarrow> size_t \<Rightarrow> u8 list option"
  co_decompress :: "u8 list \<Rightarrow> size_t \<Rightarrow> size_t \<Rightarrow> u8 list option"

record world =
  ht_heap :: heap
  ht_ids :: nat \<comment> \<open>the address of the next incoming command\<close>
  ht_now :: u32
  ht_clock :: "u32 list" \<comment> \<open>the readings of the clock to come\<close>
  ht_receives :: "received list"
  ht_sends :: "int list" \<comment> \<open>the results of \<^verbatim>\<open>enet_socket_send\<close> to come\<close>
  ht_waits :: "waited list"
  ht_sent :: "(address \<times> bytes list) list"

record host = world +
  ht_address :: address
  ht_incomingBandwidth :: u32
  ht_outgoingBandwidth :: u32
  bandwidthThrottleEpoch :: u32
  ht_mtu :: u32
  randomSeed :: u32
  recalculateBandwidthLimits :: bool
  ht_peers :: "peer list"
  channelLimit :: size_t
  serviceTime :: u32
  dispatchQueue :: "nat list"
  continueSending :: bool
  packetSize :: size_t
  headerFlags :: u16
  commandCount :: nat
  ht_buffers :: "buffer list" \<comment> \<open>from \<^verbatim>\<open>buffers [1]\<close> on: the first is the datagram's header\<close>
  checksum :: "(bytes list \<Rightarrow> u32) option"
  ht_compressor :: "compressor option"
  receivedAddress :: address
  packetData0 :: "u8 list"
  packetData1 :: "u8 list"
  receivedSlot :: bool \<comment> \<open>whether \<^verbatim>\<open>receivedData\<close> points to \<^verbatim>\<open>packetData [1]\<close>\<close>
  receivedDataLength :: size_t
  totalSentData :: u32
  totalSentPackets :: u32
  totalReceivedData :: u32
  totalReceivedPackets :: u32
  intercept :: "(address \<Rightarrow> u8 list \<Rightarrow> event option \<Rightarrow> int \<times> event option) option"
  connectedPeers :: size_t
  bandwidthLimitedPeers :: size_t
  duplicatePeers :: size_t
  maximumPacketSize :: size_t
  maximumWaitingData :: size_t

subsection \<open>The receive buffers\<close>

text \<open>
  Both arrays of \<^verbatim>\<open>packetData\<close> have \<^verbatim>\<open>ENET_PROTOCOL_MAXIMUM_MTU\<close> bytes and keep what earlier
  datagrams left behind the bytes of the current one.
\<close>

definition receivedData :: "host \<Rightarrow> u8 list" where
  "receivedData H = (if receivedSlot H then packetData1 H else packetData0 H)"

definition set_receivedData :: "u8 list \<Rightarrow> host \<Rightarrow> host" where
  "set_receivedData bs H = (if receivedSlot H then H\<lparr>packetData1 := bs\<rparr> else H\<lparr>packetData0 := bs\<rparr>)"

definition patch :: "nat \<Rightarrow> 'a list \<Rightarrow> 'a list \<Rightarrow> 'a list" where
  "patch n xs ys = take n ys @ xs @ drop (n + length xs) ys"

lemma length_patch: "n + length xs \<le> length ys \<Longrightarrow> length (patch n xs ys) = length ys"
  by (simp add: patch_def)

subsection \<open>Access to the peers\<close>

definition peer_at :: "host \<Rightarrow> nat \<Rightarrow> peer option" where
  "peer_at H i = (if i < length (ht_peers H) then Some (ht_peers H ! i) else None)"

definition set_peer :: "nat \<Rightarrow> peer \<Rightarrow> host \<Rightarrow> host" where
  "set_peer i p H = H\<lparr>ht_peers := (ht_peers H)[i := p]\<rparr>"

definition update_peer :: "nat \<Rightarrow> (peer \<Rightarrow> peer) \<Rightarrow> host \<Rightarrow> host option" where
  "update_peer i f H = do { p \<leftarrow> peer_at H i; Some (set_peer i (f p) H) }"

text \<open>Operations of one peer and the heap, and those that reach the dispatch queue too.\<close>

definition on_peer :: "nat \<Rightarrow> (peer \<Rightarrow> heap \<Rightarrow> ('r \<times> peer \<times> heap) option) \<Rightarrow> host \<Rightarrow> ('r \<times> host) option" where
  "on_peer i f H = do {
     p \<leftarrow> peer_at H i;
     (r, p, h) \<leftarrow> f p (ht_heap H);
     Some (r, set_peer i p (H\<lparr>ht_heap := h\<rparr>)) }"

definition on_queue ::
  "nat \<Rightarrow> (peer \<Rightarrow> nat list \<Rightarrow> heap \<Rightarrow> ('r \<times> peer \<times> nat list \<times> heap) option) \<Rightarrow> host \<Rightarrow> ('r \<times> host) option" where
  "on_queue i f H = do {
     p \<leftarrow> peer_at H i;
     (r, p, q, h) \<leftarrow> f p (dispatchQueue H) (ht_heap H);
     Some (r, set_peer i p (H\<lparr>dispatchQueue := q, ht_heap := h\<rparr>)) }"

definition enet_time_get :: "host \<Rightarrow> u32 \<times> host" where
  "enet_time_get H = (case ht_clock H of [] \<Rightarrow> (ht_now H, H) | t # ts \<Rightarrow> (t, H\<lparr>ht_now := t, ht_clock := ts\<rparr>))"

lemma peer_at_Some: "peer_at H i = Some p \<longleftrightarrow> i < length (ht_peers H) \<and> p = ht_peers H ! i"
  by (auto simp: peer_at_def)

lemma peer_at_set_peer: "peer_at (set_peer i p H) j = (if i = j \<and> i < length (ht_peers H) then Some p else peer_at H j)"
  by (auto simp: peer_at_def set_peer_def)

lemma set_peer_simps [simp]:
  "length (ht_peers (set_peer i p H)) = length (ht_peers H)"
  "dispatchQueue (set_peer i p H) = dispatchQueue H"
  "ht_heap (set_peer i p H) = ht_heap H"
  "connectedPeers (set_peer i p H) = connectedPeers H"
  "bandwidthLimitedPeers (set_peer i p H) = bandwidthLimitedPeers H"
  by (simp_all add: set_peer_def)

subsection \<open>The state of every host\<close>

text \<open>Connected peers are those whose link is up, until it is torn down.\<close>

definition is_connected :: "peer \<Rightarrow> bool" where
  "is_connected p \<longleftrightarrow> state p = CONNECTED \<or> state p = DISCONNECT_LATER"

text \<open>
  All references to packets that the host's queues hold.  \<open>M\<close> stands for those the
  application holds beside them.
\<close>

definition host_refs :: "host \<Rightarrow> packet_id multiset" where
  "host_refs H = sum_list (map peer_refs (ht_peers H))"

text \<open>The references of all peers but one.\<close>

definition other_refs :: "nat \<Rightarrow> host \<Rightarrow> packet_id multiset" where
  "other_refs i H = sum_list (map peer_refs (take i (ht_peers H) @ drop (Suc i) (ht_peers H)))"

lemma host_refs_other:
  assumes "peer_at H i = Some p"
  shows "host_refs H = peer_refs p + other_refs i H"
    and "host_refs (set_peer i p' H) = peer_refs p' + other_refs i H"
proof -
  have i: "i < length (ht_peers H)" "p = ht_peers H ! i"
    using assms by (simp_all add: peer_at_Some)
  have parts: "sum_list (map peer_refs (take i ps @ x # drop (Suc i) ps)) = peer_refs x + other" 
    if "other = sum_list (map peer_refs (take i ps @ drop (Suc i) ps))" for x and ps :: "peer list" and other
    by (simp add: that ac_simps)
  show "host_refs H = peer_refs p + other_refs i H"
    unfolding host_refs_def by (subst id_take_nth_drop [OF i(1)], unfold i(2) [symmetric], rule parts)
      (simp add: other_refs_def)
  show "host_refs (set_peer i p' H) = peer_refs p' + other_refs i H"
  proof -
    have "ht_peers (set_peer i p' H) = take i (ht_peers H) @ p' # drop (Suc i) (ht_peers H)"
      using i(1) by (simp add: set_peer_def upd_conv_take_nth_drop)
    then show ?thesis
      unfolding host_refs_def by (simp only:) (rule parts, simp add: other_refs_def)
  qed
qed

end
