(* ===== verification/Peer_State.thy ===== *)
theory Peer_State
  imports Host_Types
begin

text \<open>
  The life cycle of a peer in \<^verbatim>\<open>peer.c\<close>: the counters of connected peers, reset, and the
  three ways to disconnect.  \<^verbatim>\<open>enet_peer_disconnect\<close> and \<^verbatim>\<open>enet_host_flush\<close> call each
  other; the former takes the latter as an argument here.  On the path from the sender back to
  \<^verbatim>\<open>enet_peer_disconnect\<close> the peer is in state \<open>DISCONNECT_LATER\<close>, where the flush is not
  reached (\<open>disconnect_connected_no_flush\<close>).
\<close>

definition enet_peer_on_connect :: "peer \<Rightarrow> host \<Rightarrow> host" where
  "enet_peer_on_connect peer H =
     (if state peer \<noteq> CONNECTED \<and> state peer \<noteq> DISCONNECT_LATER
      then let H = (if incomingBandwidth peer \<noteq> 0
                    then H\<lparr>bandwidthLimitedPeers := bandwidthLimitedPeers H + 1\<rparr> else H)
           in H\<lparr>connectedPeers := connectedPeers H + 1\<rparr>
      else H)"

definition enet_peer_on_disconnect :: "peer \<Rightarrow> host \<Rightarrow> host" where
  "enet_peer_on_disconnect peer H =
     (if state peer = CONNECTED \<or> state peer = DISCONNECT_LATER
      then let H = (if incomingBandwidth peer \<noteq> 0
                    then H\<lparr>bandwidthLimitedPeers := bandwidthLimitedPeers H - 1\<rparr> else H)
           in H\<lparr>connectedPeers := connectedPeers H - 1\<rparr>
      else H)"

primrec reset_channels :: "channel list \<Rightarrow> heap \<Rightarrow> heap option" where
  "reset_channels [] h = Some h"
| "reset_channels (c # cs) h = do {
     h \<leftarrow> enet_peer_remove_incoming_commands (ch_incomingReliableCommands c) h;
     h \<leftarrow> enet_peer_remove_incoming_commands (ch_incomingUnreliableCommands c) h;
     reset_channels cs h }"

definition enet_peer_reset_queues ::
  "nat \<Rightarrow> peer \<Rightarrow> nat list \<Rightarrow> heap \<Rightarrow> (unit \<times> peer \<times> nat list \<times> heap) option" where
  "enet_peer_reset_queues i peer queue h = do {
     let (peer, queue) = (if needsDispatch peer then (peer\<lparr>needsDispatch := False\<rparr>, remove1 i queue)
                          else (peer, queue));
     let peer = peer\<lparr>acknowledgements := []\<rparr>;
     h \<leftarrow> enet_peer_reset_outgoing_commands (sentReliableCommands peer) h;
     h \<leftarrow> enet_peer_reset_outgoing_commands (sentUnreliableCommands peer) h;
     h \<leftarrow> enet_peer_reset_outgoing_commands (outgoingReliableCommands peer) h;
     h \<leftarrow> enet_peer_reset_outgoing_commands (outgoingUnreliableCommands peer) h;
     h \<leftarrow> enet_peer_remove_incoming_commands (dispatchedCommands peer) h;
     let peer = peer\<lparr>sentReliableCommands := [], sentUnreliableCommands := [],
           outgoingReliableCommands := [], outgoingUnreliableCommands := [], dispatchedCommands := []\<rparr>;
     h \<leftarrow> (if channels peer \<noteq> [] \<and> channelCount peer > 0
          then if unat (channelCount peer) \<le> length (channels peer)
            then reset_channels (take (unat (channelCount peer)) (channels peer)) h else None
          else Some h);
     Some ((), peer\<lparr>channels := [], channelCount := 0\<rparr>, queue, h) }"

definition reset_fields :: "u32 \<Rightarrow> peer \<Rightarrow> peer" where
  "reset_fields host_mtu peer = peer\<lparr>
     outgoingPeerID := ENET_PROTOCOL_MAXIMUM_PEER_ID, connectID := 0, state := DISCONNECTED,
     incomingBandwidth := 0, outgoingBandwidth := 0,
     incomingBandwidthThrottleEpoch := 0, outgoingBandwidthThrottleEpoch := 0,
     incomingDataTotal := 0, outgoingDataTotal := 0, lastSendTime := 0, lastReceiveTime := 0,
     nextTimeout := 0, earliestTimeout := 0, packetLossEpoch := 0, packetsSent := 0,
     packetsLost := 0, packetLoss := 0, packetLossVariance := 0,
     packetThrottle := ENET_PEER_DEFAULT_PACKET_THROTTLE,
     packetThrottleLimit := ENET_PEER_PACKET_THROTTLE_SCALE,
     packetThrottleCounter := 0, packetThrottleEpoch := 0,
     packetThrottleAcceleration := ENET_PEER_PACKET_THROTTLE_ACCELERATION,
     packetThrottleDeceleration := ENET_PEER_PACKET_THROTTLE_DECELERATION,
     packetThrottleInterval := ENET_PEER_PACKET_THROTTLE_INTERVAL,
     pingInterval := ENET_PEER_PING_INTERVAL, timeoutLimit := ENET_PEER_TIMEOUT_LIMIT,
     timeoutMinimum := ENET_PEER_TIMEOUT_MINIMUM, timeoutMaximum := ENET_PEER_TIMEOUT_MAXIMUM,
     lastRoundTripTime := ENET_PEER_DEFAULT_ROUND_TRIP_TIME,
     lowestRoundTripTime := ENET_PEER_DEFAULT_ROUND_TRIP_TIME,
     lastRoundTripTimeVariance := 0, highestRoundTripTimeVariance := 0,
     roundTripTime := ENET_PEER_DEFAULT_ROUND_TRIP_TIME, roundTripTimeVariance := 0,
     mtu := host_mtu, reliableDataInTransit := 0, outgoingReliableSequenceNumber := 0,
     windowSize := ENET_PROTOCOL_MAXIMUM_WINDOW_SIZE,
     incomingUnsequencedGroup := 0, outgoingUnsequencedGroup := 0, eventData := 0,
     totalWaitingData := 0,
     unsequencedWindow := replicate (unat (ENET_PEER_UNSEQUENCED_WINDOW_SIZE div 32)) 0\<rparr>"

definition enet_peer_reset :: "nat \<Rightarrow> host \<Rightarrow> host option" where
  "enet_peer_reset i H = do {
     peer \<leftarrow> peer_at H i;
     let H = enet_peer_on_disconnect peer H;
     let H = set_peer i (reset_fields (ht_mtu H) peer) H;
     (_, H) \<leftarrow> on_queue i (enet_peer_reset_queues i) H;
     Some H }"

definition disconnect_command :: "u8 \<Rightarrow> u32 \<Rightarrow> protocol" where
  "disconnect_command flag data =
     command_of (ENET_PROTOCOL_COMMAND_DISCONNECT OR flag) 0xFF (Disconnect data)"

definition queue_command :: "nat \<Rightarrow> protocol \<Rightarrow> host \<Rightarrow> (bool \<times> host) option" where
  "queue_command i command = on_peer i (\<lambda>peer. enet_peer_queue_outgoing_command peer command None 0 0)"

definition enet_peer_disconnect_now_with ::
  "(host \<Rightarrow> host option) \<Rightarrow> nat \<Rightarrow> u32 \<Rightarrow> host \<Rightarrow> host option" where
  "enet_peer_disconnect_now_with flush i data H = do {
     peer \<leftarrow> peer_at H i;
     if state peer = DISCONNECTED then Some H
     else do {
       H \<leftarrow> (if state peer \<noteq> ZOMBIE \<and> state peer \<noteq> DISCONNECTING
            then do {
              (_, H) \<leftarrow> on_queue i (enet_peer_reset_queues i) H;
              (_, H) \<leftarrow> queue_command i (disconnect_command ENET_PROTOCOL_COMMAND_FLAG_UNSEQUENCED data) H;
              flush H }
            else Some H);
       enet_peer_reset i H } }"

definition enet_peer_disconnect_with ::
  "(host \<Rightarrow> host option) \<Rightarrow> nat \<Rightarrow> u32 \<Rightarrow> host \<Rightarrow> host option" where
  "enet_peer_disconnect_with flush i data H = do {
     peer \<leftarrow> peer_at H i;
     if state peer = DISCONNECTING \<or> state peer = DISCONNECTED \<or>
        state peer = ACKNOWLEDGING_DISCONNECT \<or> state peer = ZOMBIE then Some H
     else do {
       (_, H) \<leftarrow> on_queue i (enet_peer_reset_queues i) H;
       let flag = (if state peer = CONNECTED \<or> state peer = DISCONNECT_LATER
                   then ENET_PROTOCOL_COMMAND_FLAG_ACKNOWLEDGE else ENET_PROTOCOL_COMMAND_FLAG_UNSEQUENCED);
       (_, H) \<leftarrow> queue_command i (disconnect_command flag data) H;
       if state peer = CONNECTED \<or> state peer = DISCONNECT_LATER
       then do {
         peer \<leftarrow> peer_at H i;
         let H = enet_peer_on_disconnect peer H;
         Some (set_peer i (peer\<lparr>state := DISCONNECTING\<rparr>) H) }
       else do {
         H \<leftarrow> flush H;
         enet_peer_reset i H } } }"

definition enet_peer_disconnect_later_with ::
  "(host \<Rightarrow> host option) \<Rightarrow> nat \<Rightarrow> u32 \<Rightarrow> host \<Rightarrow> host option" where
  "enet_peer_disconnect_later_with flush i data H = do {
     peer \<leftarrow> peer_at H i;
     if (state peer = CONNECTED \<or> state peer = DISCONNECT_LATER) \<and>
        \<not> (outgoingReliableCommands peer = [] \<and> outgoingUnreliableCommands peer = [] \<and>
            sentReliableCommands peer = [])
     then Some (set_peer i (peer\<lparr>state := DISCONNECT_LATER, eventData := data\<rparr>) H)
     else enet_peer_disconnect_with flush i data H }"

text \<open>The call inside the sender and the acknowledgement handler, where no flush is reached.\<close>

definition disconnect_connected :: "nat \<Rightarrow> u32 \<Rightarrow> host \<Rightarrow> host option" where
  "disconnect_connected = enet_peer_disconnect_with (\<lambda>_. None)"

lemma disconnect_connected_no_flush:
  "peer_at H i = Some p \<Longrightarrow> is_connected p \<Longrightarrow>
    enet_peer_disconnect_with flush i data H = disconnect_connected i data H"
  by (simp add: disconnect_connected_def enet_peer_disconnect_with_def is_connected_def)

subsection \<open>State changes of the protocol\<close>

definition enet_protocol_change_state :: "nat \<Rightarrow> peer_state \<Rightarrow> host \<Rightarrow> host option" where
  "enet_protocol_change_state i st H = do {
     peer \<leftarrow> peer_at H i;
     let H = (if st = CONNECTED \<or> st = DISCONNECT_LATER
              then enet_peer_on_connect peer H else enet_peer_on_disconnect peer H);
     Some (set_peer i (peer\<lparr>state := st\<rparr>) H) }"

definition enet_protocol_dispatch_state :: "nat \<Rightarrow> peer_state \<Rightarrow> host \<Rightarrow> host option" where
  "enet_protocol_dispatch_state i st H = do {
     H \<leftarrow> enet_protocol_change_state i st H;
     peer \<leftarrow> peer_at H i;
     let (peer, queue) = need_dispatch i peer (dispatchQueue H);
     Some (set_peer i peer (H\<lparr>dispatchQueue := queue\<rparr>)) }"

text \<open>The argument \<^verbatim>\<open>event\<close> is null or an event to fill in.\<close>

definition enet_protocol_notify_connect :: "nat \<Rightarrow> event option \<Rightarrow> host \<Rightarrow> (event option \<times> host) option" where
  "enet_protocol_notify_connect i event H = do {
     let H = H\<lparr>recalculateBandwidthLimits := True\<rparr>;
     peer \<leftarrow> peer_at H i;
     (case event of
        Some ev \<Rightarrow> do {
          H \<leftarrow> enet_protocol_change_state i CONNECTED H;
          Some (Some (ev\<lparr>ev_type := EVENT_CONNECT, ev_peer := Some i, ev_data := eventData peer\<rparr>), H) }
      | None \<Rightarrow> do {
          H \<leftarrow> enet_protocol_dispatch_state i
                 (if state peer = CONNECTING then CONNECTION_SUCCEEDED else CONNECTION_PENDING) H;
          Some (None, H) }) }"

definition enet_protocol_notify_disconnect :: "nat \<Rightarrow> event option \<Rightarrow> host \<Rightarrow> (event option \<times> host) option" where
  "enet_protocol_notify_disconnect i event H = do {
     peer \<leftarrow> peer_at H i;
     let H = (if state peer \<ge> CONNECTION_PENDING then H\<lparr>recalculateBandwidthLimits := True\<rparr> else H);
     if state peer \<noteq> CONNECTING \<and> state peer < CONNECTION_SUCCEEDED
     then do { H \<leftarrow> enet_peer_reset i H; Some (event, H) }
     else (case event of
        Some ev \<Rightarrow> do {
          H \<leftarrow> enet_peer_reset i H;
          Some (Some (ev\<lparr>ev_type := EVENT_DISCONNECT, ev_peer := Some i, ev_data := 0\<rparr>), H) }
      | None \<Rightarrow> do {
          H \<leftarrow> enet_protocol_dispatch_state i ZOMBIE (set_peer i (peer\<lparr>eventData := 0\<rparr>) H);
          Some (None, H) }) }"

text \<open>
  The dispatch of queued peers: each round takes the first peer off the queue; the fuel is the
  length of the queue, since a peer is put back only in a round that returns.
\<close>

definition dispatch_round :: "nat \<Rightarrow> event \<Rightarrow> host \<Rightarrow> (int option \<times> event \<times> host) option" where
  "dispatch_round i event H = do {
     peer \<leftarrow> peer_at H i;
     let peer = peer\<lparr>needsDispatch := False\<rparr>;
     let H = set_peer i peer H;
     (case state peer of
        CONNECTION_PENDING \<Rightarrow> do {
          H \<leftarrow> enet_protocol_change_state i CONNECTED H;
          Some (Some 1, event\<lparr>ev_type := EVENT_CONNECT, ev_peer := Some i, ev_data := eventData peer\<rparr>, H) }
      | CONNECTION_SUCCEEDED \<Rightarrow> do {
          H \<leftarrow> enet_protocol_change_state i CONNECTED H;
          Some (Some 1, event\<lparr>ev_type := EVENT_CONNECT, ev_peer := Some i, ev_data := eventData peer\<rparr>, H) }
      | ZOMBIE \<Rightarrow> do {
          H \<leftarrow> enet_peer_reset i (H\<lparr>recalculateBandwidthLimits := True\<rparr>);
          Some (Some 1, event\<lparr>ev_type := EVENT_DISCONNECT, ev_peer := Some i, ev_data := eventData peer\<rparr>, H) }
      | CONNECTED \<Rightarrow>
          if dispatchedCommands peer = [] then Some (None, event, H)
          else do {
            (r, H) \<leftarrow> on_peer i enet_peer_receive H;
            (case r of
               None \<Rightarrow> Some (None, event, H)
             | Some (pid, chan) \<Rightarrow> do {
                 peer \<leftarrow> peer_at H i;
                 let H = (if dispatchedCommands peer \<noteq> []
                          then set_peer i (peer\<lparr>needsDispatch := True\<rparr>) (H\<lparr>dispatchQueue := dispatchQueue H @ [i]\<rparr>)
                          else H);
                 Some (Some 1, event\<lparr>ev_type := EVENT_RECEIVE, ev_peer := Some i, ev_channelID := chan,
                   ev_packet := Some pid\<rparr>, H) }) }
      | _ \<Rightarrow> Some (None, event, H)) }"

fun dispatch_loop :: "nat \<Rightarrow> event \<Rightarrow> host \<Rightarrow> (int \<times> event \<times> host) option" where
  "dispatch_loop 0 event H = (if dispatchQueue H = [] then Some (0, event, H) else None)"
| "dispatch_loop (Suc fuel) event H =
     (case dispatchQueue H of
        [] \<Rightarrow> Some (0, event, H)
      | i # queue \<Rightarrow> do {
          (r, event, H) \<leftarrow> dispatch_round i event (H\<lparr>dispatchQueue := queue\<rparr>);
          (case r of Some n \<Rightarrow> Some (n, event, H) | None \<Rightarrow> dispatch_loop fuel event H) })"

definition enet_protocol_dispatch_incoming_commands :: "event \<Rightarrow> host \<Rightarrow> (int \<times> event \<times> host) option" where
  "enet_protocol_dispatch_incoming_commands event H = dispatch_loop (length (dispatchQueue H)) event H"

end
