(* ===== verification/Host_Inv.thy ===== *)
theory Host_Inv
  imports Peer_State
begin

text \<open>
  The invariant of a host: its counters agree with the states of its peers, the dispatch queue
  lists the peers that need dispatching, every peer is well formed, and every reference of a
  queue to a packet is counted by the packet.  The operations of the life cycle keep it and
  touch no freed memory; the multiset \<open>M\<close> are the references that the application holds.
\<close>

subsection \<open>The invariant\<close>

definition is_limited :: "peer \<Rightarrow> bool" where
  "is_limited p \<longleftrightarrow> is_connected p \<and> incomingBandwidth p \<noteq> 0"

definition tally :: "(peer \<Rightarrow> bool) \<Rightarrow> peer list \<Rightarrow> size_t" where
  "tally P ps = of_nat (length (filter P ps))"

text \<open>
  Where a peer holds no received commands: in the channels it no longer uses, before its
  connection is up, and after a reset.
\<close>

definition empty_channels :: "channel list \<Rightarrow> bool" where
  "empty_channels cs \<longleftrightarrow> (\<forall>c \<in> set cs. channel_refs c = {#})"

definition spare_ok :: "peer \<Rightarrow> bool" where
  "spare_ok p \<longleftrightarrow> empty_channels (drop (unat (channelCount p)) (channels p))"

text \<open>A queued command has its packet, and the bits for its fragments.\<close>

definition incoming_wf :: "incoming_command \<Rightarrow> bool" where
  "incoming_wf c \<longleftrightarrow> ic_packet c \<noteq> None \<and>
     (0 < ic_fragmentCount c \<longrightarrow>
       (\<exists>bits. ic_fragments c = Some bits \<and> unat (ic_fragmentCount c) \<le> 32 * length bits))"

text \<open>
  The addresses of a peer's commands are distinct and below \<open>n\<close>, the next one to be used.
\<close>

definition ids_ok :: "nat \<Rightarrow> peer \<Rightarrow> bool" where
  "ids_ok n p \<longleftrightarrow> distinct (map ic_id (peer_commands p)) \<and> (\<forall>c \<in> set (peer_commands p). ic_id c < n)"

definition incoming_ok :: "nat \<Rightarrow> peer \<Rightarrow> bool" where
  "incoming_ok n p \<longleftrightarrow> spare_ok p \<and> ids_ok n p \<and> (\<forall>c \<in> set (peer_commands p). incoming_wf c) \<and>
     (state p = CONNECTING \<longrightarrow> empty_channels (channels p)) \<and>
     (state p = DISCONNECTED \<longrightarrow> channels p = [])"

definition queue_ok :: "peer list \<Rightarrow> nat list \<Rightarrow> bool" where
  "queue_ok ps q \<longleftrightarrow> distinct q \<and> set q = {i. i < length ps \<and> needsDispatch (ps ! i)}"

definition host_ok :: "packet_id multiset \<Rightarrow> host \<Rightarrow> bool" where
  "host_ok M H \<longleftrightarrow>
     connectedPeers H = tally is_connected (ht_peers H) \<and>
     bandwidthLimitedPeers H = tally is_limited (ht_peers H) \<and>
     queue_ok (ht_peers H) (dispatchQueue H) \<and>
     (\<forall>p \<in> set (ht_peers H). peer_ok p \<and> incoming_ok (ht_ids H) p) \<and>
     ENET_PROTOCOL_MINIMUM_MTU \<le> ht_mtu H \<and> ht_mtu H \<le> ENET_PROTOCOL_MAXIMUM_MTU \<and>
     refs_ok (ht_heap H) (host_refs H + M)"

lemma host_okD:
  assumes "host_ok M H" "peer_at H i = Some p"
  shows "peer_ok p" "incoming_ok (ht_ids H) p" "refs_ok (ht_heap H) (peer_refs p + (other_refs i H + M))"
    "i \<in> set (dispatchQueue H) \<longleftrightarrow> needsDispatch p"
  using assms host_refs_other(1) [OF assms(2)] nth_mem [of i "ht_peers H"]
  by (auto simp: host_ok_def peer_at_Some queue_ok_def add.assoc)

lemma incoming_ok_mono: "incoming_ok m p \<Longrightarrow> m \<le> n \<Longrightarrow> incoming_ok n p"
  by (auto simp: incoming_ok_def ids_ok_def)

subsection \<open>Changing one peer\<close>

lemma tally_update:
  "i < length ps \<Longrightarrow> tally P (ps[i := p]) =
    tally P ps + (if P p then 1 else 0) - (if P (ps ! i) then 1 else 0)"
proof -
  assume i: "i < length ps"
  have "of_nat (length (filter P (ps[i := p]))) + of_nat (if P (ps ! i) then 1 else 0) =
      (of_nat (length (filter P ps)) + of_nat (if P p then 1 else 0) :: size_t)"
    unfolding of_nat_add [symmetric] filter_update_length [OF i] ..
  then show ?thesis
    unfolding tally_def eq_diff_eq by (cases "P (ps ! i)"; cases "P p") simp_all
qed

text \<open>How one operation may change the dispatch queue and the peer's mark.\<close>

definition queue_step :: "nat \<Rightarrow> peer \<Rightarrow> nat list \<Rightarrow> peer \<Rightarrow> nat list \<Rightarrow> bool" where
  "queue_step i p q p' q' \<longleftrightarrow>
     (needsDispatch p' = needsDispatch p \<and> q' = q) \<or>
     (needsDispatch p' \<and> \<not> needsDispatch p \<and> q' = q @ [i]) \<or>
     (\<not> needsDispatch p' \<and> needsDispatch p \<and> q' = remove1 i q)"

lemma queue_step_ok:
  assumes "queue_ok ps q" "i < length ps" "queue_step i (ps ! i) q p' q'"
  shows "queue_ok (ps[i := p']) q'"
proof -
  have need: "{j. j < length (ps[i := p']) \<and> needsDispatch (ps[i := p'] ! j)} =
      (if needsDispatch p' then insert i else (\<lambda>S. S - {i})) {j. j < length ps \<and> needsDispatch (ps ! j)}"
    using assms(2) by (auto simp: nth_list_update split: if_splits)
  have q: "distinct q" "set q = {j. j < length ps \<and> needsDispatch (ps ! j)}"
    using assms(1) by (simp_all add: queue_ok_def)
  have mem: "i \<in> set q \<longleftrightarrow> needsDispatch (ps ! i)"
    using assms(2) q(2) by simp
  have "distinct q' \<and> set q' = (if needsDispatch p' then insert i else (\<lambda>S. S - {i})) (set q)"
    using assms(3) q(1) mem unfolding queue_step_def by (elim disjE) (auto simp: set_remove1_eq)
  then show ?thesis
    unfolding queue_ok_def need q(2) .
qed

text \<open>What a step of peer \<open>i\<close> does to the host, as far as the invariant is concerned.\<close>

definition peer_step :: "nat \<Rightarrow> peer \<Rightarrow> peer \<Rightarrow> host \<Rightarrow> host \<Rightarrow> bool" where
  "peer_step i p p' H H' \<longleftrightarrow>
     ht_peers H' = (ht_peers H)[i := p'] \<and> ht_mtu H' = ht_mtu H \<and> ht_ids H \<le> ht_ids H' \<and>
     queue_step i p (dispatchQueue H) p' (dispatchQueue H') \<and>
     connectedPeers H' = connectedPeers H + (if is_connected p' then 1 else 0) - (if is_connected p then 1 else 0) \<and>
     bandwidthLimitedPeers H' =
       bandwidthLimitedPeers H + (if is_limited p' then 1 else 0) - (if is_limited p then 1 else 0)"

lemma peer_step_ok:
  assumes H: "host_ok M H" "peer_at H i = Some p" and st: "peer_step i p p' H H'"
    and p': "peer_ok p'" "incoming_ok (ht_ids H') p'"
    and refs: "refs_ok (ht_heap H') (peer_refs p' + (other_refs i H + M))"
  shows "host_ok M H'"
proof -
  have i: "i < length (ht_peers H)" "p = ht_peers H ! i"
    using H(2) by (simp_all add: peer_at_Some)
  have "host_refs H' = host_refs (set_peer i p' H)"
    using st by (simp add: host_refs_def set_peer_def peer_step_def)
  then have "refs_ok (ht_heap H') (host_refs H' + M)"
    using refs host_refs_other(2) [OF H(2), of p'] by (simp add: add.assoc)
  moreover have "\<forall>q \<in> set (ht_peers H'). peer_ok q \<and> incoming_ok (ht_ids H') q"
  proof
    fix q
    assume "q \<in> set (ht_peers H')"
    then have "q = p' \<or> q \<in> set (ht_peers H)"
      using st set_update_subset_insert [of "ht_peers H" i p'] by (auto simp: peer_step_def)
    then show "peer_ok q \<and> incoming_ok (ht_ids H') q"
      using p' H(1) st incoming_ok_mono [of "ht_ids H" q] by (auto simp: host_ok_def peer_step_def)
  qed
  ultimately show ?thesis
    using H(1) st queue_step_ok [of "ht_peers H" "dispatchQueue H" i p' "dispatchQueue H'"] i
    by (simp add: host_ok_def peer_step_def tally_update)
qed

lemma ids_set_peer [simp]: "ht_ids (set_peer i p H) = ht_ids H"
  by (simp add: set_peer_def)

lemma other_refs_set_peer [simp]: "other_refs i (set_peer i p H) = other_refs i H"
  by (simp add: other_refs_def set_peer_def drop_update_swap)

subsection \<open>What operations on peers leave alone\<close>

text \<open>Only the peers, what hangs on them, and the source of new addresses change.\<close>

definition peers_only :: "host \<Rightarrow> host \<Rightarrow> bool" where
  "peers_only H H' \<longleftrightarrow>
     length (ht_peers H') = length (ht_peers H) \<and>
     H' = H\<lparr>ht_peers := ht_peers H', dispatchQueue := dispatchQueue H', ht_heap := ht_heap H',
       connectedPeers := connectedPeers H', bandwidthLimitedPeers := bandwidthLimitedPeers H',
       recalculateBandwidthLimits := recalculateBandwidthLimits H', ht_ids := ht_ids H'\<rparr>"

lemma peers_only_refl [simp]: "peers_only H H"
  by (simp add: peers_only_def)

lemma peers_only_trans [trans]:
  assumes "peers_only H1 H2" "peers_only H2 H3"
  shows "peers_only H1 H3"
proof -
  obtain ps q h c b r n where 2: "H2 = H1\<lparr>ht_peers := ps, dispatchQueue := q, ht_heap := h, connectedPeers := c,
      bandwidthLimitedPeers := b, recalculateBandwidthLimits := r, ht_ids := n\<rparr>" "length ps = length (ht_peers H1)"
    using assms(1) unfolding peers_only_def by metis
  obtain ps' q' h' c' b' r' n' where 3: "H3 = H2\<lparr>ht_peers := ps', dispatchQueue := q', ht_heap := h', connectedPeers := c',
      bandwidthLimitedPeers := b', recalculateBandwidthLimits := r', ht_ids := n'\<rparr>" "length ps' = length (ht_peers H2)"
    using assms(2) unfolding peers_only_def by metis
  show ?thesis
    unfolding peers_only_def 3 2 using 2(2) 3(2) by (simp add: 2)
qed

lemma peers_only_simps:
  assumes "peers_only H H'"
  shows "length (ht_peers H') = length (ht_peers H)" "ht_mtu H' = ht_mtu H"
    "receivedDataLength H' = receivedDataLength H" "packetData0 H' = packetData0 H"
    "packetData1 H' = packetData1 H" "receivedSlot H' = receivedSlot H" "receivedData H' = receivedData H"
    "serviceTime H' = serviceTime H" "maximumPacketSize H' = maximumPacketSize H"
    "receivedAddress H' = receivedAddress H" "checksum H' = checksum H" "ht_compressor H' = ht_compressor H"
proof -
  obtain ps q h c b r n where 2: "H' = H\<lparr>ht_peers := ps, dispatchQueue := q, ht_heap := h, connectedPeers := c,
      bandwidthLimitedPeers := b, recalculateBandwidthLimits := r, ht_ids := n\<rparr>" "length ps = length (ht_peers H)"
    using assms unfolding peers_only_def by metis
  show "length (ht_peers H') = length (ht_peers H)" "ht_mtu H' = ht_mtu H"
    "receivedDataLength H' = receivedDataLength H" "packetData0 H' = packetData0 H"
    "packetData1 H' = packetData1 H" "receivedSlot H' = receivedSlot H" "receivedData H' = receivedData H"
    "serviceTime H' = serviceTime H" "maximumPacketSize H' = maximumPacketSize H"
    "receivedAddress H' = receivedAddress H" "checksum H' = checksum H" "ht_compressor H' = ht_compressor H"
    using 2(2) by (simp_all add: 2(1) receivedData_def)
qed

lemma peers_only_peer_at: "peers_only H H' \<Longrightarrow> peer_at H i = Some p \<Longrightarrow> \<exists>p'. peer_at H' i = Some p'"
  using peers_only_simps(1) [of H H'] by (simp add: peer_at_Some)

lemma peers_only_upd [simp]:
  "peers_only H (set_peer i p H)"
  "peers_only H (H\<lparr>recalculateBandwidthLimits := b\<rparr>)"
  "peers_only H (H\<lparr>ht_heap := h\<rparr>)"
  "peers_only H (set_peer i p (H\<lparr>ht_heap := h\<rparr>))"
  "peers_only H (set_peer i p (H\<lparr>dispatchQueue := q\<rparr>))"
  "peers_only H (set_peer i p (H\<lparr>dispatchQueue := q, ht_heap := h\<rparr>))"
  by (simp_all add: peers_only_def set_peer_def)

lemma peer_at_upd [simp]:
  "peer_at (H\<lparr>recalculateBandwidthLimits := b\<rparr>) i = peer_at H i"
  "peer_at (H\<lparr>ht_heap := h\<rparr>) i = peer_at H i" "peer_at (H\<lparr>ht_ids := n\<rparr>) i = peer_at H i"
  "peer_at (H\<lparr>dispatchQueue := q\<rparr>) i = peer_at H i"
  by (simp_all add: peer_at_def)

lemma peer_at_set:
  "peer_at H i = Some p \<Longrightarrow> peer_at (set_peer i q H) i = Some q"
  "peer_at H i = Some p \<Longrightarrow> peer_at (set_peer i q (H\<lparr>ht_heap := h\<rparr>)) i = Some q"
  "peer_at H i = Some p \<Longrightarrow> peer_at (set_peer i q (H\<lparr>dispatchQueue := qs, ht_heap := h\<rparr>)) i = Some q"
  "peer_at H i = Some p \<Longrightarrow> peer_at (set_peer i q (H\<lparr>dispatchQueue := qs\<rparr>)) i = Some q"
  by (simp_all add: peer_at_set_peer peer_at_Some)

text \<open>The two ways to run an operation of one peer on the host.\<close>

lemma on_peer_Some:
  "peer_at H i = Some p \<Longrightarrow> f p (ht_heap H) = Some (r, p', h') \<Longrightarrow>
    on_peer i f H = Some (r, set_peer i p' (H\<lparr>ht_heap := h'\<rparr>))"
  by (simp add: on_peer_def)

lemma on_queue_Some:
  "peer_at H i = Some p \<Longrightarrow> f p (dispatchQueue H) (ht_heap H) = Some (r, p', q', h') \<Longrightarrow>
    on_queue i f H = Some (r, set_peer i p' (H\<lparr>dispatchQueue := q', ht_heap := h'\<rparr>))"
  by (simp add: on_queue_def)

text \<open>
  An operation of one peer that keeps what the counters depend on keeps the invariant.
\<close>

definition same_status :: "peer \<Rightarrow> peer \<Rightarrow> bool" where
  "same_status p p' \<longleftrightarrow> is_connected p' = is_connected p \<and> is_limited p' = is_limited p"

lemma host_ok_peer:
  assumes H: "host_ok M H" "peer_at H i = Some p"
    and p': "peer_ok p'" "incoming_ok (ht_ids H) p'" "same_status p p'" "needsDispatch p' = needsDispatch p"
    and refs: "refs_ok h' (peer_refs p' + (other_refs i H + M))"
  shows "host_ok M (set_peer i p' (H\<lparr>ht_heap := h'\<rparr>))"
  by (rule peer_step_ok [OF H _ p'(1)])
    (use p'(2-4) refs in \<open>simp_all add: peer_step_def set_peer_def queue_step_def same_status_def\<close>)

lemma host_ok_queue:
  assumes H: "host_ok M H" "peer_at H i = Some p"
    and p': "peer_ok p'" "incoming_ok (ht_ids H) p'" "same_status p p'" "queue_step i p (dispatchQueue H) p' q'"
    and refs: "refs_ok h' (peer_refs p' + (other_refs i H + M))"
  shows "host_ok M (set_peer i p' (H\<lparr>dispatchQueue := q', ht_heap := h'\<rparr>))"
  by (rule peer_step_ok [OF H _ p'(1)])
    (use p'(2-4) refs in \<open>simp_all add: peer_step_def set_peer_def same_status_def\<close>)

lemma host_ok_recalculate [simp]: "host_ok M (H\<lparr>recalculateBandwidthLimits := b\<rparr>) = host_ok M H"
  by (simp add: host_ok_def host_refs_def)

end
