(* ===== verification/Peer_State_Inv.thy ===== *)
theory Peer_State_Inv
  imports Host_Inv
begin

text \<open>
  The life cycle of a peer keeps the host's invariant and never fails: state changes, reset,
  the disconnect calls (those that flush take the sender as an assumption), and the dispatch of
  events.
\<close>

subsection \<open>Resetting the queues\<close>

definition emptied :: "peer \<Rightarrow> peer" where
  "emptied p = p\<lparr>needsDispatch := False, acknowledgements := [], sentReliableCommands := [],
     sentUnreliableCommands := [], outgoingReliableCommands := [], outgoingUnreliableCommands := [],
     dispatchedCommands := [], channels := [], channelCount := 0\<rparr>"

lemma emptied_simps [simp]:
  "state (emptied p) = state p" "incomingBandwidth (emptied p) = incomingBandwidth p"
  "channels (emptied p) = []" "channelCount (emptied p) = 0" "needsDispatch (emptied p) = False"
  "peer_refs (emptied p) = {#}" "is_connected (emptied p) = is_connected p"
  "is_limited (emptied p) = is_limited p" "same_status p (emptied p)"
  "incoming_ok n (emptied p)" "eventData (emptied p) = eventData p"
  "outgoingReliableCommands (emptied p) = []" "outgoingUnreliableCommands (emptied p) = []"
  by (simp_all add: emptied_def peer_refs_def outgoing_refs_def incoming_refs_def is_connected_def
      is_limited_def same_status_def incoming_ok_def ids_ok_def spare_ok_def empty_channels_def peer_commands_def)

lemma emptied_ok: "peer_ok p \<Longrightarrow> peer_ok (emptied p)"
  by (simp add: emptied_def peer_ok_def)

lemma reset_outgoing_refs:
  "refs_ok h (oc_refs cs + M) \<Longrightarrow> \<exists>h'. enet_peer_reset_outgoing_commands cs h = Some h' \<and> refs_ok h' M"
  using released.release_all_some [of h "List.map_filter oc_packet cs" M]
  by (auto simp: enet_peer_reset_outgoing_commands_def oc_refs_def)

lemma reset_channels_refs:
  "refs_ok h (sum_list (map channel_refs cs) + M) \<Longrightarrow> \<exists>h'. reset_channels cs h = Some h' \<and> refs_ok h' M"
proof (induction cs arbitrary: h)
  case (Cons c cs)
  have "refs_ok h (ic_refs (ch_incomingReliableCommands c) +
      (ic_refs (ch_incomingUnreliableCommands c) + (sum_list (map channel_refs cs) + M)))"
    using Cons.prems by (simp add: channel_refs_def [of c] ac_simps)
  from remove_incoming_refs [OF this] obtain h1 where h1: "enet_peer_remove_incoming_commands
      (ch_incomingReliableCommands c) h = Some h1"
      "refs_ok h1 (ic_refs (ch_incomingUnreliableCommands c) + (sum_list (map channel_refs cs) + M))"
    by blast
  from remove_incoming_refs [OF h1(2)] obtain h2 where h2: "enet_peer_remove_incoming_commands
      (ch_incomingUnreliableCommands c) h1 = Some h2" "refs_ok h2 (sum_list (map channel_refs cs) + M)"
    by blast
  show ?case
    using Cons.IH [OF h2(2)] h1(1) h2(1) by simp
qed simp

lemma empty_channels_sum: "empty_channels cs \<Longrightarrow> sum_list (map channel_refs cs) = {#}"
  by (induction cs) (simp_all add: empty_channels_def)

lemma used_channels_refs:
  assumes "spare_ok p"
  shows "sum_list (map channel_refs (channels p)) =
    sum_list (map channel_refs (take (unat (channelCount p)) (channels p)))"
proof -
  define n where "n = unat (channelCount p)"
  have "map channel_refs (channels p) =
      map channel_refs (take n (channels p)) @ map channel_refs (drop n (channels p))"
    by (simp flip: map_append)
  then show ?thesis
    using assms empty_channels_sum [of "drop n (channels p)"] by (simp add: spare_ok_def n_def)
qed

lemma reset_queues_total:
  assumes ok: "refs_ok h (peer_refs p + M)" and p: "peer_ok p" "spare_ok p"
  shows "\<exists>h'. enet_peer_reset_queues i p q h =
      Some ((), emptied p, if needsDispatch p then remove1 i q else q, h') \<and> refs_ok h' M"
proof -
  define used where "used = take (unat (channelCount p)) (channels p)"
  have "refs_ok h (oc_refs (sentReliableCommands p) + (oc_refs (sentUnreliableCommands p) +
      (oc_refs (outgoingReliableCommands p) + (oc_refs (outgoingUnreliableCommands p) +
      (ic_refs (dispatchedCommands p) + (sum_list (map channel_refs used) + M))))))"
    using ok unfolding peer_refs_def outgoing_refs_def incoming_refs_def used_channels_refs [OF p(2)]
      used_def [symmetric] by (simp add: ac_simps)
  from reset_outgoing_refs [OF this] obtain h1 where
    h1: "enet_peer_reset_outgoing_commands (sentReliableCommands p) h = Some h1"
      "refs_ok h1 (oc_refs (sentUnreliableCommands p) + (oc_refs (outgoingReliableCommands p) +
        (oc_refs (outgoingUnreliableCommands p) + (ic_refs (dispatchedCommands p) + (sum_list (map channel_refs used) + M)))))"
    by blast
  from reset_outgoing_refs [OF h1(2)] obtain h2 where
    h2: "enet_peer_reset_outgoing_commands (sentUnreliableCommands p) h1 = Some h2"
      "refs_ok h2 (oc_refs (outgoingReliableCommands p) +
        (oc_refs (outgoingUnreliableCommands p) + (ic_refs (dispatchedCommands p) + (sum_list (map channel_refs used) + M))))"
    by blast
  from reset_outgoing_refs [OF h2(2)] obtain h3 where
    h3: "enet_peer_reset_outgoing_commands (outgoingReliableCommands p) h2 = Some h3"
      "refs_ok h3 (oc_refs (outgoingUnreliableCommands p) + (ic_refs (dispatchedCommands p) + (sum_list (map channel_refs used) + M)))"
    by blast
  from reset_outgoing_refs [OF h3(2)] obtain h4 where
    h4: "enet_peer_reset_outgoing_commands (outgoingUnreliableCommands p) h3 = Some h4"
      "refs_ok h4 (ic_refs (dispatchedCommands p) + (sum_list (map channel_refs used) + M))"
    by blast
  from remove_incoming_refs [OF h4(2)] obtain h5 where
    h5: "enet_peer_remove_incoming_commands (dispatchedCommands p) h4 = Some h5"
      "refs_ok h5 (sum_list (map channel_refs used) + M)"
    by blast
  obtain h6 where h6: "reset_channels used h5 = Some h6" "refs_ok h6 M"
    using reset_channels_refs [OF h5(2)] by blast
  have "(if channels p \<noteq> [] \<and> channelCount p > 0
        then if unat (channelCount p) \<le> length (channels p) then reset_channels used h5 else None
        else Some h5) = Some (if channels p \<noteq> [] \<and> channelCount p > 0 then h6 else h5)"
    using p(1) h6(1) by (simp add: peer_ok_def)
  moreover have "refs_ok (if channels p \<noteq> [] \<and> channelCount p > 0 then h6 else h5) M"
  proof (cases "channels p \<noteq> [] \<and> channelCount p > 0")
    case False
    then have "used = []"
      by (auto simp: used_def word_less_nat_alt)
    then show ?thesis
      using h5(2) False by auto
  qed (use h6 in auto)
  ultimately show ?thesis
    using h1(1) h2(1) h3(1) h4(1) h5(1)
    by (auto simp: enet_peer_reset_queues_def used_def emptied_def Let_def cong: if_cong)
qed

subsection \<open>Resetting a peer\<close>

definition reset_peer :: "u32 \<Rightarrow> peer \<Rightarrow> peer" where
  "reset_peer m p = emptied (reset_fields m p)"

lemma reset_fields_simps [simp]:
  "state (reset_fields m p) = DISCONNECTED" "peer_refs (reset_fields m p) = peer_refs p"
  "channels (reset_fields m p) = channels p" "channelCount (reset_fields m p) = channelCount p"
  "needsDispatch (reset_fields m p) = needsDispatch p"
  by (simp_all add: reset_fields_def peer_refs_def outgoing_refs_def incoming_refs_def)

lemma reset_peer_simps [simp]:
  "state (reset_peer m p) = DISCONNECTED" "peer_refs (reset_peer m p) = {#}"
  "channels (reset_peer m p) = []" "needsDispatch (reset_peer m p) = False"
  "is_connected (reset_peer m p) = False" "is_limited (reset_peer m p) = False" "incoming_ok n (reset_peer m p)"
  by (simp_all add: reset_peer_def is_connected_def is_limited_def)

lemma reset_fields_ok:
  assumes "peer_ok p" "ENET_PROTOCOL_MINIMUM_MTU \<le> m" "m \<le> ENET_PROTOCOL_MAXIMUM_MTU"
  shows "peer_ok (reset_fields m p)"
  using assms by (simp add: peer_ok_def reset_fields_def enet_consts)

text \<open>The host after the counters took note of a peer that leaves or joins.\<close>

lemma on_disconnect_fields:
  "ht_peers (enet_peer_on_disconnect p H) = ht_peers H"
  "dispatchQueue (enet_peer_on_disconnect p H) = dispatchQueue H"
  "ht_heap (enet_peer_on_disconnect p H) = ht_heap H" "ht_mtu (enet_peer_on_disconnect p H) = ht_mtu H"
  "peer_at (enet_peer_on_disconnect p H) i = peer_at H i"
  "peers_only H (enet_peer_on_disconnect p H)"
  "connectedPeers (enet_peer_on_disconnect p H) = connectedPeers H - (if is_connected p then 1 else 0)"
  "bandwidthLimitedPeers (enet_peer_on_disconnect p H) = bandwidthLimitedPeers H - (if is_limited p then 1 else 0)"
  "ht_ids (enet_peer_on_disconnect p H) = ht_ids H"
  by (simp_all add: enet_peer_on_disconnect_def is_connected_def is_limited_def Let_def peers_only_def peer_at_def)

lemma on_connect_fields:
  "ht_peers (enet_peer_on_connect p H) = ht_peers H"
  "dispatchQueue (enet_peer_on_connect p H) = dispatchQueue H"
  "ht_heap (enet_peer_on_connect p H) = ht_heap H" "ht_mtu (enet_peer_on_connect p H) = ht_mtu H"
  "peers_only H (enet_peer_on_connect p H)"
  "connectedPeers (enet_peer_on_connect p H) = connectedPeers H + 1 - (if is_connected p then 1 else 0)"
  "bandwidthLimitedPeers (enet_peer_on_connect p H) =
    bandwidthLimitedPeers H + (if incomingBandwidth p \<noteq> 0 then 1 else 0) - (if is_limited p then 1 else 0)"
  "ht_ids (enet_peer_on_connect p H) = ht_ids H"
  by (auto simp add: enet_peer_on_connect_def is_connected_def is_limited_def Let_def peers_only_def)

lemma peer_reset_ok:
  assumes H: "host_ok M H" "peer_at H i = Some p"
  shows "\<exists>H'. enet_peer_reset i H = Some H' \<and> host_ok M H' \<and> peers_only H H' \<and>
    peer_at H' i = Some (reset_peer (ht_mtu H) p)"
proof -
  define H1 where "H1 = set_peer i (reset_fields (ht_mtu H) p) (enet_peer_on_disconnect p H)"
  note p = host_okD [OF H]
  have i: "i < length (ht_peers H)"
    using H(2) by (simp add: peer_at_Some)
  have p1: "peer_at H1 i = Some (reset_fields (ht_mtu H) p)"
    using i by (simp add: H1_def peer_at_set_peer on_disconnect_fields)
  have ok1: "peer_ok (reset_fields (ht_mtu H) p)"
    using reset_fields_ok [OF p(1)] H(1) by (simp add: host_ok_def)
  have "spare_ok (reset_fields (ht_mtu H) p)"
    using p(2) by (simp add: incoming_ok_def ids_ok_def spare_ok_def)
  from reset_queues_total [OF _ ok1 this, of "ht_heap H" "other_refs i H + M" i "dispatchQueue H"] obtain h' where
    h': "enet_peer_reset_queues i (reset_fields (ht_mtu H) p) (dispatchQueue H) (ht_heap H) =
      Some ((), reset_peer (ht_mtu H) p, if needsDispatch p then remove1 i (dispatchQueue H) else dispatchQueue H, h')"
      "refs_ok h' (other_refs i H + M)"
    using p(3) by (auto simp: reset_peer_def)
  define H2 where "H2 = set_peer i (reset_peer (ht_mtu H) p)
    (H1\<lparr>dispatchQueue := (if needsDispatch p then remove1 i (dispatchQueue H) else dispatchQueue H), ht_heap := h'\<rparr>)"
  have eq: "enet_peer_reset i H = Some H2"
    unfolding enet_peer_reset_def H(2) Option.bind.bind_lunit Let_def on_disconnect_fields(4) H1_def [symmetric]
      on_queue_def p1
    using h'(1) by (simp add: H1_def H2_def on_disconnect_fields)
  have "peer_step i p (reset_peer (ht_mtu H) p) H H2"
    by (simp add: peer_step_def H2_def H1_def set_peer_def on_disconnect_fields queue_step_def)
  moreover have "peer_ok (reset_peer (ht_mtu H) p)"
    unfolding reset_peer_def by (rule emptied_ok [OF ok1])
  moreover have "ht_heap H2 = h'"
    by (simp add: H2_def)
  ultimately have "host_ok M H2"
    using peer_step_ok [OF H, of "reset_peer (ht_mtu H) p" H2] h'(2) by simp
  moreover have "peers_only H H2"
    unfolding H2_def H1_def by (rule peers_only_trans [OF on_disconnect_fields(6) peers_only_trans [OF peers_only_upd(1) peers_only_upd(6)]])
  moreover have "peer_at H2 i = Some (reset_peer (ht_mtu H) p)"
    using i by (simp add: H2_def H1_def peer_at_set_peer on_disconnect_fields)
  ultimately show ?thesis
    using eq by blast
qed

subsection \<open>State changes\<close>

lemma state_upd [simp]:
  "peer_refs (p\<lparr>state := st\<rparr>) = peer_refs p" "peer_ok (p\<lparr>state := st\<rparr>) = peer_ok p"
  "is_connected (p\<lparr>state := st\<rparr>) \<longleftrightarrow> st = CONNECTED \<or> st = DISCONNECT_LATER"
  "is_limited (p\<lparr>state := st\<rparr>) \<longleftrightarrow> (st = CONNECTED \<or> st = DISCONNECT_LATER) \<and> incomingBandwidth p \<noteq> 0"
  by (simp_all add: peer_refs_def outgoing_refs_def incoming_refs_def peer_ok_def is_connected_def is_limited_def)

lemma mark_upd [simp]:
  "peer_refs (p\<lparr>needsDispatch := b\<rparr>) = peer_refs p" "peer_ok (p\<lparr>needsDispatch := b\<rparr>) = peer_ok p"
  "is_connected (p\<lparr>needsDispatch := b\<rparr>) = is_connected p" "is_limited (p\<lparr>needsDispatch := b\<rparr>) = is_limited p"
  "incoming_ok n (p\<lparr>needsDispatch := b\<rparr>) = incoming_ok n p"
  "peer_refs (p\<lparr>eventData := d\<rparr>) = peer_refs p" "peer_ok (p\<lparr>eventData := d\<rparr>) = peer_ok p"
  "is_connected (p\<lparr>eventData := d\<rparr>) = is_connected p" "is_limited (p\<lparr>eventData := d\<rparr>) = is_limited p"
  "incoming_ok n (p\<lparr>eventData := d\<rparr>) = incoming_ok n p"
  by (simp_all add: peer_refs_def outgoing_refs_def incoming_refs_def peer_ok_def is_connected_def is_limited_def
      incoming_ok_def ids_ok_def spare_ok_def peer_commands_def)

lemma incoming_state: "incoming_ok n p \<Longrightarrow> st \<noteq> CONNECTING \<Longrightarrow> st \<noteq> DISCONNECTED \<Longrightarrow> incoming_ok n (p\<lparr>state := st\<rparr>)"
  by (simp add: incoming_ok_def ids_ok_def spare_ok_def peer_commands_def)

lemma change_state_ok:
  assumes H: "host_ok M H" "peer_at H i = Some p" and st: "st \<noteq> CONNECTING" "st \<noteq> DISCONNECTED"
  shows "\<exists>H'. enet_protocol_change_state i st H = Some H' \<and> host_ok M H' \<and> peers_only H H' \<and>
    peer_at H' i = Some (p\<lparr>state := st\<rparr>)"
proof -
  define H1 where "H1 = (if st = CONNECTED \<or> st = DISCONNECT_LATER then enet_peer_on_connect p H
    else enet_peer_on_disconnect p H)"
  define H2 where "H2 = set_peer i (p\<lparr>state := st\<rparr>) H1"
  note p = host_okD [OF H]
  have f: "ht_peers H1 = ht_peers H" "dispatchQueue H1 = dispatchQueue H" "ht_heap H1 = ht_heap H"
      "ht_mtu H1 = ht_mtu H" "peers_only H H1" "ht_ids H1 = ht_ids H"
    by (simp_all add: H1_def on_disconnect_fields on_connect_fields)
  have "peer_step i p (p\<lparr>state := st\<rparr>) H H2"
    unfolding peer_step_def H2_def
    by (simp add: set_peer_def f queue_step_def) (simp add: H1_def on_disconnect_fields on_connect_fields)
  then have "host_ok M H2"
    using peer_step_ok [OF H, of "p\<lparr>state := st\<rparr>" H2] p incoming_state [OF p(2) st] by (simp add: H2_def f)
  moreover have "peers_only H H2"
    unfolding H2_def by (rule peers_only_trans [OF f(5) peers_only_upd(1)])
  moreover have "peer_at H2 i = Some (p\<lparr>state := st\<rparr>)"
    using H(2) by (simp add: H2_def peer_at_def set_peer_def f split: if_splits)
  moreover have "enet_protocol_change_state i st H = Some H2"
    by (simp add: enet_protocol_change_state_def H(2) H2_def H1_def)
  ultimately show ?thesis
    by blast
qed

lemma dispatch_state_ok:
  assumes H: "host_ok M H" "peer_at H i = Some p" and st: "st \<noteq> CONNECTING" "st \<noteq> DISCONNECTED"
  shows "\<exists>H'. enet_protocol_dispatch_state i st H = Some H' \<and> host_ok M H' \<and> peers_only H H' \<and>
    peer_at H' i = Some (p\<lparr>state := st, needsDispatch := True\<rparr>)"
proof -
  obtain H1 where H1: "enet_protocol_change_state i st H = Some H1" "host_ok M H1" "peers_only H H1"
      "peer_at H1 i = Some (p\<lparr>state := st\<rparr>)"
    using change_state_ok [OF H st] by blast
  note p1 = host_okD [OF H1(2,4)]
  define q where "q = snd (need_dispatch i (p\<lparr>state := st\<rparr>) (dispatchQueue H1))"
  define p' where "p' = p\<lparr>state := st, needsDispatch := True\<rparr>"
  have nd: "need_dispatch i (p\<lparr>state := st\<rparr>) (dispatchQueue H1) = (p', q)"
    by (cases p) (simp add: need_dispatch_def q_def p'_def)
  have step: "queue_step i (p\<lparr>state := st\<rparr>) (dispatchQueue H1) p' q"
    by (simp add: queue_step_def q_def need_dispatch_def p'_def)
  have p': "peer_ok p'" "incoming_ok (ht_ids H1) p'" "same_status (p\<lparr>state := st\<rparr>) p'" "peer_refs p' = peer_refs p"
    using p1(1,2) by (simp_all add: p'_def same_status_def)
  have "refs_ok (ht_heap H1) (peer_refs p' + (other_refs i H1 + M))"
    using p1(3) p'(4) by simp
  then have "host_ok M (set_peer i p' (H1\<lparr>dispatchQueue := q, ht_heap := ht_heap H1\<rparr>))"
    by (rule host_ok_queue [OF H1(2,4) p'(1-3) step])
  then have "host_ok M (set_peer i p' (H1\<lparr>dispatchQueue := q\<rparr>))"
    by simp
  moreover have "enet_protocol_dispatch_state i st H = Some (set_peer i p' (H1\<lparr>dispatchQueue := q\<rparr>))"
    by (simp add: enet_protocol_dispatch_state_def H1(1,4) nd)
  moreover have "peers_only H (set_peer i p' (H1\<lparr>dispatchQueue := q\<rparr>))"
    by (rule peers_only_trans [OF H1(3) peers_only_upd(5)])
  moreover have "peer_at (set_peer i p' (H1\<lparr>dispatchQueue := q\<rparr>)) i = Some p'"
    using H1(4) by (simp add: peer_at_def set_peer_def split: if_splits)
  ultimately show ?thesis
    unfolding p'_def by blast
qed

text \<open>Giving a peer new data for its event.\<close>

lemma event_data_ok:
  assumes "host_ok M H" "peer_at H i = Some p"
  shows "host_ok M (set_peer i (p\<lparr>eventData := d\<rparr>) H)"
proof -
  note p = host_okD [OF assms]
  have "refs_ok (ht_heap H) (peer_refs (p\<lparr>eventData := d\<rparr>) + (other_refs i H + M))"
    using p(3) by simp
  then have "host_ok M (set_peer i (p\<lparr>eventData := d\<rparr>) (H\<lparr>ht_heap := ht_heap H\<rparr>))"
    using p(1,2) by (intro host_ok_peer [OF assms]) (simp_all add: same_status_def)
  then show ?thesis
    by simp
qed

lemma notify_connect_ok:
  assumes H: "host_ok M H" "peer_at H i = Some p"
  shows "\<exists>e' H'. enet_protocol_notify_connect i e H = Some (e', H') \<and> host_ok M H' \<and> peers_only H H'"
proof -
  let ?H = "H\<lparr>recalculateBandwidthLimits := True\<rparr>"
  have H1: "host_ok M ?H" "peer_at ?H i = Some p"
    using H by simp_all
  note po = peers_only_trans [OF peers_only_upd(2) [of H True]]
  obtain H2 where H2: "enet_protocol_change_state i CONNECTED ?H = Some H2" "host_ok M H2" "peers_only ?H H2"
    using change_state_ok [OF H1, of CONNECTED] by auto
  define st where "st = (if state p = CONNECTING then CONNECTION_SUCCEEDED else CONNECTION_PENDING)"
  obtain H3 where H3: "enet_protocol_dispatch_state i st ?H = Some H3" "host_ok M H3" "peers_only ?H H3"
  proof -
    have "st \<noteq> CONNECTING" "st \<noteq> DISCONNECTED"
      by (simp_all add: st_def)
    from dispatch_state_ok [OF H1 this] that show thesis
      by blast
  qed
  show ?thesis
    using H1(2) H2 H3 po [OF H2(3)] po [OF H3(3)]
    by (cases e) (simp_all add: enet_protocol_notify_connect_def Let_def st_def [symmetric])
qed

lemma notify_disconnect_ok:
  assumes H: "host_ok M H" "peer_at H i = Some p"
  shows "\<exists>e' H'. enet_protocol_notify_disconnect i e H = Some (e', H') \<and> host_ok M H' \<and> peers_only H H'"
proof -
  define H1 where "H1 = (if state p \<ge> CONNECTION_PENDING then H\<lparr>recalculateBandwidthLimits := True\<rparr> else H)"
  have H1: "host_ok M H1" "peer_at H1 i = Some p" "peers_only H H1"
    using H by (simp_all add: H1_def)
  obtain H2 where H2: "enet_peer_reset i H1 = Some H2" "host_ok M H2" "peers_only H1 H2"
    using peer_reset_ok [OF H1(1,2)] by blast
  define Hd where "Hd = set_peer i (p\<lparr>eventData := 0\<rparr>) H1"
  have Hd: "host_ok M Hd" "peer_at Hd i = Some (p\<lparr>eventData := 0\<rparr>)" "peers_only H1 Hd"
    unfolding Hd_def using event_data_ok [OF H1(1,2)] peer_at_set(1) [OF H1(2)] by simp_all
  obtain H3 where H3: "enet_protocol_dispatch_state i ZOMBIE Hd = Some H3" "host_ok M H3" "peers_only Hd H3"
    using dispatch_state_ok [OF Hd(1,2), of ZOMBIE] by auto
  note po = peers_only_trans [OF H1(3)]
  show ?thesis
    using H(2) H2 H3 po [OF H2(3)] po [OF peers_only_trans [OF Hd(3) H3(3)]]
    by (cases e) (simp_all add: enet_protocol_notify_disconnect_def Let_def H1_def [symmetric] Hd_def [symmetric])
qed

subsection \<open>Queueing a command\<close>

text \<open>What queueing an outgoing command leaves alone.\<close>

definition channel_commands :: "channel \<Rightarrow> incoming_command list \<times> incoming_command list" where
  "channel_commands c = (ch_incomingReliableCommands c, ch_incomingUnreliableCommands c)"

definition out_frame :: "peer \<Rightarrow> peer \<Rightarrow> bool" where
  "out_frame p p' \<longleftrightarrow> state p' = state p \<and> needsDispatch p' = needsDispatch p \<and>
     incomingBandwidth p' = incomingBandwidth p \<and> channelCount p' = channelCount p \<and>
     map channel_commands (channels p') = map channel_commands (channels p) \<and>
     dispatchedCommands p' = dispatchedCommands p \<and> eventData p' = eventData p"

lemma out_frame_refl [simp]: "out_frame p p"
  by (simp add: out_frame_def)

lemma empty_channels_map:
  "empty_channels cs \<longleftrightarrow> (\<forall>(r, u) \<in> set (map channel_commands cs). ic_refs r + ic_refs u = {#})"
  by (auto simp: empty_channels_def channel_refs_def channel_commands_def)

lemma peer_commands_map:
  "peer_commands p = dispatchedCommands p @ concat (map (\<lambda>(r, u). r @ u) (map channel_commands (channels p)))"
  by (simp add: peer_commands_def channel_commands_def comp_def)

lemma out_frame_incoming:
  assumes "out_frame p p'" "incoming_ok n p"
  shows "incoming_ok n p'" "same_status p p'"
proof -
  have "channels p' = [] \<longleftrightarrow> channels p = []"
    using assms(1) by (metis out_frame_def map_is_Nil_conv)
  moreover have "empty_channels (drop n (channels p')) = empty_channels (drop n (channels p))" for n
    using assms(1) unfolding empty_channels_map drop_map [symmetric] out_frame_def by simp
  moreover from this [of 0] have "empty_channels (channels p') = empty_channels (channels p)"
    by simp
  moreover have "peer_commands p' = peer_commands p"
    using assms(1) by (simp add: peer_commands_map out_frame_def)
  ultimately show "incoming_ok n p'"
    using assms unfolding incoming_ok_def ids_ok_def spare_ok_def out_frame_def by simp
  show "same_status p p'"
    using assms(1) by (simp add: same_status_def is_connected_def is_limited_def out_frame_def)
qed

lemma set_channel_out_frame:
  "channel_at p i = Some c \<Longrightarrow> channel_commands c' = channel_commands c \<Longrightarrow> out_frame p (set_channel p i c')"
  by (simp add: out_frame_def set_channel_def channel_at_Some map_update list_update_same_conv)

lemma out_frame_trans: "out_frame p q \<Longrightarrow> out_frame q r \<Longrightarrow> out_frame p r"
  by (simp add: out_frame_def)

lemma number_command_frame:
  assumes "number_command p oc = Some (p', r, u)"
  shows "out_frame p p'"
proof -
  consider (control) "p' = p\<lparr>outgoingReliableSequenceNumber := outgoingReliableSequenceNumber p + 1\<rparr>"
    | (unsequenced) "p' = p\<lparr>outgoingUnsequencedGroup := outgoingUnsequencedGroup p + 1\<rparr>"
    | (channel) i c c' where "p' = set_channel p i c'" "channel_at p i = Some c"
        "channel_commands c' = channel_commands c"
    using assms unfolding number_command_def Let_def
    by (fastforce simp: bind_eq_Some_conv channel_commands_def split: if_splits)
  then show ?thesis
  proof cases
    case channel
    then show ?thesis
      using set_channel_out_frame by simp
  qed (simp_all add: out_frame_def)
qed

lemma queue_outgoing_frame:
  assumes "enet_peer_queue_outgoing_command p c pk off len h = Some (b, p', h')"
  shows "out_frame p p'"
proof (cases b)
  case True
  then obtain q r u where "number_command (add_outgoing_data p (new_outgoing c pk off len)) (new_outgoing c pk off len) =
      Some (q, r, u)" and p': "p' = enqueue_outgoing q (stamp r u (outgoingUnsequencedGroup q) (new_outgoing c pk off len))"
    using assms by (auto simp: enet_peer_queue_outgoing_command_def enet_peer_setup_outgoing_command_def
        bind_eq_Some_conv Let_def split: prod.splits if_splits)
  from number_command_frame [OF this(1)] show ?thesis
    by (simp add: p' out_frame_def enqueue_outgoing_def add_outgoing_data_def)
next
  case False
  then show ?thesis
    using assms by (auto simp: enet_peer_queue_outgoing_command_def bind_eq_Some_conv Let_def split: prod.splits if_splits)
qed

lemma queue_command_ok:
  assumes H: "host_ok M H" "peer_at H i = Some p" and c: "p_channelID c = 0xFF"
  shows "\<exists>b p' H'. queue_command i c H = Some (b, H') \<and> host_ok M H' \<and> peers_only H H' \<and>
    peer_at H' i = Some p' \<and> out_frame p p'"
proof -
  note p = host_okD [OF H]
  have "\<exists>b p' h'. enet_peer_queue_outgoing_command p c None 0 0 (ht_heap H) = Some (b, p', h') \<and>
      refs_ok h' (peer_refs p' + (other_refs i H + M)) \<and> peer_ok p'"
  proof -
    obtain b h1 where m: "enet_malloc (ht_heap H) = (b, h1)"
      by (cases "enet_malloc (ht_heap H)")
    have h1: "refs_ok h1 (peer_refs p + (other_refs i H + M))"
      using refs_ok_cong [OF conjunct1 [OF enet_malloc_packets [OF m]] conjunct2 [OF enet_malloc_packets [OF m]]] p(3) by simp
    obtain p' where p': "enet_peer_setup_outgoing_command p (new_outgoing c None 0 0) = Some p'"
      using setup_outgoing_total [of p "new_outgoing c None 0 0"] c by (auto simp: new_outgoing_def routable_def)
    have "oc_refs [new_outgoing c None 0 0] = {#}"
      by (simp add: new_outgoing_def)
    then show ?thesis
      using setup_outgoing_refs [OF p'] p' h1 p(1) by (auto simp: enet_peer_queue_outgoing_command_def m)
  qed
  then obtain b p' h' where q: "enet_peer_queue_outgoing_command p c None 0 0 (ht_heap H) = Some (b, p', h')"
      "refs_ok h' (peer_refs p' + (other_refs i H + M))" "peer_ok p'"
    by blast
  note fr = queue_outgoing_frame [OF q(1)]
  have "needsDispatch p' = needsDispatch p"
    using fr by (simp add: out_frame_def)
  then have "host_ok M (set_peer i p' (H\<lparr>ht_heap := h'\<rparr>))"
    using host_ok_peer [OF H q(3) out_frame_incoming [OF fr p(2)] _ q(2)] by simp
  moreover have "queue_command i c H = Some (b, set_peer i p' (H\<lparr>ht_heap := h'\<rparr>))"
    unfolding queue_command_def by (rule on_peer_Some [OF H(2)]) (rule q(1))
  ultimately show ?thesis
    using fr peers_only_upd(4) peer_at_set(2) [OF H(2)] by blast
qed

subsection \<open>Disconnecting\<close>

lemma on_queue_reset_ok:
  assumes H: "host_ok M H" "peer_at H i = Some p"
  shows "\<exists>H'. on_queue i (enet_peer_reset_queues i) H = Some ((), H') \<and> host_ok M H' \<and> peers_only H H' \<and>
    peer_at H' i = Some (emptied p)"
proof -
  note p = host_okD [OF H]
  have spare: "spare_ok p"
    using p(2) by (simp add: incoming_ok_def)
  let ?q = "if needsDispatch p then remove1 i (dispatchQueue H) else dispatchQueue H"
  obtain h' where h': "enet_peer_reset_queues i p (dispatchQueue H) (ht_heap H) = Some ((), emptied p, ?q, h')"
      "refs_ok h' (other_refs i H + M)"
    using reset_queues_total [OF p(3,1) spare] by blast
  have "host_ok M (set_peer i (emptied p) (H\<lparr>dispatchQueue := ?q, ht_heap := h'\<rparr>))"
    using h'(2) by (intro host_ok_queue [OF H emptied_ok [OF p(1)]]) (simp_all add: queue_step_def)
  moreover have "on_queue i (enet_peer_reset_queues i) H =
      Some ((), set_peer i (emptied p) (H\<lparr>dispatchQueue := ?q, ht_heap := h'\<rparr>))"
    by (rule on_queue_Some [OF H(2)]) (rule h'(1))
  moreover have "peer_at (set_peer i (emptied p) (H\<lparr>dispatchQueue := ?q, ht_heap := h'\<rparr>)) i = Some (emptied p)"
    by (rule peer_at_set(3) [OF H(2)])
  ultimately show ?thesis
    using peers_only_upd(6) by blast
qed

lemma disconnect_connected_ok:
  assumes H: "host_ok M H" "peer_at H i = Some p" and c: "is_connected p"
  shows "\<exists>H'. disconnect_connected i d H = Some H' \<and> host_ok M H' \<and> peers_only H H'"
proof -
  obtain H1 where H1: "on_queue i (enet_peer_reset_queues i) H = Some ((), H1)" "host_ok M H1" "peers_only H H1"
      "peer_at H1 i = Some (emptied p)"
    using on_queue_reset_ok [OF H] by blast
  let ?c = "disconnect_command ENET_PROTOCOL_COMMAND_FLAG_ACKNOWLEDGE d"
  have "p_channelID ?c = 0xFF"
    by (simp add: disconnect_command_def command_of_def)
  from queue_command_ok [OF H1(2,4) this] obtain b p2 H2 where
    H2: "queue_command i ?c H1 = Some (b, H2)" "host_ok M H2" "peers_only H1 H2" "peer_at H2 i = Some p2"
      "out_frame (emptied p) p2"
    by blast
  have "p2\<lparr>state := DISCONNECTING\<rparr> = p2\<lparr>state := DISCONNECTING\<rparr>" ..
  obtain H3 where H3: "enet_protocol_change_state i DISCONNECTING H2 = Some H3" "host_ok M H3" "peers_only H2 H3"
    using change_state_ok [OF H2(2,4), of DISCONNECTING] by auto
  have st: "state p = CONNECTED \<or> state p = DISCONNECT_LATER"
    using c by (simp add: is_connected_def)
  have "disconnect_connected i d H = enet_protocol_change_state i DISCONNECTING H2"
    using st H(2) H1(1) H2(1,4) by (auto simp: disconnect_connected_def enet_peer_disconnect_with_def
        enet_protocol_change_state_def Let_def)
  then show ?thesis
    using H3 peers_only_trans [OF peers_only_trans [OF H1(3) H2(3)] H3(3)] by simp
qed

end
