(* ===== verification/Protocol_Acks.thy ===== *)
theory Protocol_Acks
  imports Peer_State
begin

text \<open>
  \<^verbatim>\<open>protocol.c\<close>, the commands that concern the peer itself: acknowledgements, the
  handshake, bandwidth and throttle settings, and the remote's disconnect.  A handler returns
  the code's status, \<open>-1\<close> for a malformed or untimely command.
\<close>

definition enet_protocol_remove_sent_unreliable_commands :: "peer \<Rightarrow> heap \<Rightarrow> (peer \<times> heap) option" where
  "enet_protocol_remove_sent_unreliable_commands peer h = do {
     h \<leftarrow> release_all release_sent_packet (List.map_filter oc_packet (sentUnreliableCommands peer)) h;
     Some (peer\<lparr>sentUnreliableCommands := []\<rparr>, h) }"

subsection \<open>Removing an acknowledged command\<close>

definition acked_by :: "u16 \<Rightarrow> u8 \<Rightarrow> outgoing_command \<Rightarrow> bool" where
  "acked_by sn chan oc \<longleftrightarrow> oc_reliableSequenceNumber oc = sn \<and> p_channelID (oc_command oc) = chan"

text \<open>The commands before the one found, the one found, and those after it.\<close>

fun find_sent :: "u16 \<Rightarrow> u8 \<Rightarrow> outgoing_command list \<Rightarrow>
    (outgoing_command list \<times> outgoing_command \<times> outgoing_command list) option" where
  "find_sent sn chan [] = None"
| "find_sent sn chan (c # cs) =
     (if acked_by sn chan c then Some ([], c, cs)
      else map_option (\<lambda>(prior, x, after). (c # prior, x, after)) (find_sent sn chan cs))"

text \<open>
  Commands that timed out wait at the front of \<^verbatim>\<open>outgoingReliableCommands\<close>; the first command
  that was never sent ends the search.
\<close>

fun find_resent :: "u16 \<Rightarrow> u8 \<Rightarrow> outgoing_command list \<Rightarrow>
    (outgoing_command list \<times> outgoing_command \<times> outgoing_command list) option" where
  "find_resent sn chan [] = None"
| "find_resent sn chan (c # cs) =
     (if oc_sendAttempts c < 1 then None
      else if acked_by sn chan c then Some ([], c, cs)
      else map_option (\<lambda>(prior, x, after). (c # prior, x, after)) (find_resent sn chan cs))"

definition leave_window :: "u16 \<Rightarrow> channel \<Rightarrow> channel" where
  "leave_window sn c =
     (let w = unat (sn div ENET_PEER_RELIABLE_WINDOW_SIZE); n = ch_reliableWindows c ! w in
      if n > 0 then
        let c = c\<lparr>ch_reliableWindows := (ch_reliableWindows c)[w := n - 1]\<rparr>
        in if n - 1 = 0
           then c\<lparr>ch_usedReliableWindows := ch_usedReliableWindows c AND NOT (push_bit w 1)\<rparr> else c
      else c)"

definition drop_sent :: "bool \<Rightarrow> u16 \<Rightarrow> u8 \<Rightarrow> outgoing_command \<Rightarrow> peer \<Rightarrow> heap \<Rightarrow> (u8 \<times> peer \<times> heap) option" where
  "drop_sent wasSent sn chan oc peer h = do {
     peer \<leftarrow> (if ucast chan < channelCount peer
             then do { c \<leftarrow> channel_at peer chan; Some (set_channel peer chan (leave_window sn c)) }
             else Some peer);
     let peer = (if oc_packet oc \<noteq> None \<and> wasSent
                 then peer\<lparr>reliableDataInTransit := reliableDataInTransit peer - ucast (oc_fragmentLength oc)\<rparr>
                 else peer);
     h \<leftarrow> (case oc_packet oc of None \<Rightarrow> Some h | Some pid \<Rightarrow> release_sent_packet pid h);
     let peer = (case sentReliableCommands peer of [] \<Rightarrow> peer
                 | first # _ \<Rightarrow> peer\<lparr>nextTimeout := oc_sentTime first + oc_roundTripTimeout first\<rparr>);
     Some (command_number (oc_command oc), peer, h) }"

definition enet_protocol_remove_sent_reliable_command ::
  "peer \<Rightarrow> u16 \<Rightarrow> u8 \<Rightarrow> heap \<Rightarrow> (u8 \<times> peer \<times> heap) option" where
  "enet_protocol_remove_sent_reliable_command peer sn chan h =
     (case find_sent sn chan (sentReliableCommands peer) of
        Some (prior, oc, after) \<Rightarrow>
          drop_sent True sn chan oc (peer\<lparr>sentReliableCommands := prior @ after\<rparr>) h
      | None \<Rightarrow>
          (case find_resent sn chan (outgoingReliableCommands peer) of
             Some (prior, oc, after) \<Rightarrow>
               drop_sent False sn chan oc (peer\<lparr>outgoingReliableCommands := prior @ after\<rparr>) h
           | None \<Rightarrow> Some (ENET_PROTOCOL_COMMAND_NONE, peer, h)))"

subsection \<open>Acknowledgements\<close>

text \<open>The low half of a sent time, completed with the high half of the service time.\<close>

definition complete_time :: "u32 \<Rightarrow> u16 \<Rightarrow> u32" where
  "complete_time now t =
     (let s = ucast t OR (now AND 0xFFFF0000)
      in if s AND 0x8000 > now AND 0x8000 then s - 0x10000 else s)"

definition smooth_round_trip :: "u32 \<Rightarrow> peer \<Rightarrow> peer" where
  "smooth_round_trip rtt peer =
     (let peer = peer\<lparr>roundTripTimeVariance := roundTripTimeVariance peer - roundTripTimeVariance peer div 4\<rparr>;
          peer = (if rtt \<ge> roundTripTime peer
            then let peer = peer\<lparr>roundTripTime := roundTripTime peer + (rtt - roundTripTime peer) div 8\<rparr>
              in peer\<lparr>roundTripTimeVariance := roundTripTimeVariance peer + (rtt - roundTripTime peer) div 4\<rparr>
            else let peer = peer\<lparr>roundTripTime := roundTripTime peer - (roundTripTime peer - rtt) div 8\<rparr>
              in peer\<lparr>roundTripTimeVariance := roundTripTimeVariance peer + (roundTripTime peer - rtt) div 4\<rparr>);
          peer = (if roundTripTime peer < lowestRoundTripTime peer
            then peer\<lparr>lowestRoundTripTime := roundTripTime peer\<rparr> else peer)
      in if roundTripTimeVariance peer > highestRoundTripTimeVariance peer
         then peer\<lparr>highestRoundTripTimeVariance := roundTripTimeVariance peer\<rparr> else peer)"

definition throttle_epoch :: "u32 \<Rightarrow> peer \<Rightarrow> peer" where
  "throttle_epoch now peer =
     (if packetThrottleEpoch peer = 0 \<or>
         enet_time_difference now (packetThrottleEpoch peer) \<ge> packetThrottleInterval peer
      then peer\<lparr>lastRoundTripTime := lowestRoundTripTime peer,
        lastRoundTripTimeVariance := highestRoundTripTimeVariance peer,
        lowestRoundTripTime := roundTripTime peer,
        highestRoundTripTimeVariance := roundTripTimeVariance peer,
        packetThrottleEpoch := now\<rparr>
      else peer)"

definition acknowledged_peer :: "u32 \<Rightarrow> u32 \<Rightarrow> peer \<Rightarrow> peer" where
  "acknowledged_peer now sent peer =
     (let rtt = enet_time_difference now sent;
          peer = snd (enet_peer_throttle (peer\<lparr>lastReceiveTime := now, earliestTimeout := 0\<rparr>) rtt)
      in throttle_epoch now (smooth_round_trip rtt peer))"

definition enet_protocol_handle_acknowledge ::
  "event option \<Rightarrow> nat \<Rightarrow> u8 \<Rightarrow> u16 \<Rightarrow> u16 \<Rightarrow> host \<Rightarrow> (int \<times> event option \<times> host) option" where
  "enet_protocol_handle_acknowledge event i chan sn sentTime H = do {
     peer \<leftarrow> peer_at H i;
     let sent = complete_time (serviceTime H) sentTime;
     if state peer = DISCONNECTED \<or> state peer = ZOMBIE \<or> enet_time_less (serviceTime H) sent
     then Some (0, event, H)
     else do {
       let H = set_peer i (acknowledged_peer (serviceTime H) sent peer) H;
       (commandNumber, H) \<leftarrow> on_peer i (\<lambda>p. enet_protocol_remove_sent_reliable_command p sn chan) H;
       peer \<leftarrow> peer_at H i;
       (case state peer of
          ACKNOWLEDGING_CONNECT \<Rightarrow>
            if commandNumber \<noteq> ENET_PROTOCOL_COMMAND_VERIFY_CONNECT then Some (-1, event, H)
            else do { (event, H) \<leftarrow> enet_protocol_notify_connect i event H; Some (0, event, H) }
        | DISCONNECTING \<Rightarrow>
            if commandNumber \<noteq> ENET_PROTOCOL_COMMAND_DISCONNECT then Some (-1, event, H)
            else do { (event, H) \<leftarrow> enet_protocol_notify_disconnect i event H; Some (0, event, H) }
        | DISCONNECT_LATER \<Rightarrow>
            if outgoingReliableCommands peer = [] \<and> outgoingUnreliableCommands peer = [] \<and>
               sentReliableCommands peer = []
            then do { H \<leftarrow> disconnect_connected i (eventData peer) H; Some (0, event, H) }
            else Some (0, event, H)
        | _ \<Rightarrow> Some (0, event, H)) } }"

end
