(* ===== verification/Protocol_Connect.thy ===== *)
theory Protocol_Connect
  imports Protocol_Acks
begin

text \<open>
  \<^verbatim>\<open>protocol.c\<close>, the handshake and the settings a remote may change: connect and its
  verification, bandwidth limits, throttle parameters, ping and disconnect.
\<close>

subsection \<open>Negotiated values\<close>

definition clamp :: "'a::linorder \<Rightarrow> 'a \<Rightarrow> 'a \<Rightarrow> 'a" where
  "clamp lo hi x = (if x < lo then lo else if x > hi then hi else x)"

definition clamp_mtu :: "u32 \<Rightarrow> u32" where
  "clamp_mtu = clamp ENET_PROTOCOL_MINIMUM_MTU ENET_PROTOCOL_MAXIMUM_MTU"

definition clamp_window :: "u32 \<Rightarrow> u32" where
  "clamp_window = clamp ENET_PROTOCOL_MINIMUM_WINDOW_SIZE ENET_PROTOCOL_MAXIMUM_WINDOW_SIZE"

definition scale_window :: "u32 \<Rightarrow> u32" where
  "scale_window bandwidth = (bandwidth div ENET_PEER_WINDOW_SIZE_SCALE) * ENET_PROTOCOL_MINIMUM_WINDOW_SIZE"

text \<open>The window towards a peer, from the host's outgoing and the peer's incoming bandwidth.\<close>

definition outgoing_window :: "u32 \<Rightarrow> u32 \<Rightarrow> u32" where
  "outgoing_window host_out peer_in =
     clamp_window
       (if host_out = 0 \<and> peer_in = 0 then ENET_PROTOCOL_MAXIMUM_WINDOW_SIZE
        else if host_out = 0 \<or> peer_in = 0 then scale_window (enet_max host_out peer_in)
        else scale_window (enet_min host_out peer_in))"

text \<open>The window the host offers in return.\<close>

definition offered_window :: "u32 \<Rightarrow> u32 \<Rightarrow> u32" where
  "offered_window host_in requested =
     (let w = (if host_in = 0 then ENET_PROTOCOL_MAXIMUM_WINDOW_SIZE else scale_window host_in)
      in clamp_window (if w > requested then requested else w))"

text \<open>
  The next session number: one more than the one named by the remote, modulo 4, and different
  from the one in use.
\<close>

definition next_session :: "u8 \<Rightarrow> u8 \<Rightarrow> u8" where
  "next_session requested current =
     (let m = ucast (drop_bit ENET_PROTOCOL_HEADER_SESSION_SHIFT ENET_PROTOCOL_HEADER_SESSION_MASK); s = (if requested = 0xFF then current else requested); s = (s + 1) AND m
      in if s = current then (s + 1) AND m else s)"

subsection \<open>Connect\<close>

text \<open>
  The scan of all peers: the first free one and the number of peers of the same address, or
  \<open>None\<close> if this very connection exists already.
\<close>

fun scan_peers :: "address \<Rightarrow> u32 \<Rightarrow> peer list \<Rightarrow> nat \<Rightarrow> nat option \<Rightarrow> size_t \<Rightarrow> (nat option \<times> size_t) option" where
  "scan_peers addr cid [] i free dups = Some (free, dups)"
| "scan_peers addr cid (p # ps) i free dups =
     (if state p = DISCONNECTED
      then scan_peers addr cid ps (Suc i) (if free = None then Some i else free) dups
      else if state p \<noteq> CONNECTING \<and> ad_host (pr_address p) = ad_host addr
      then if ad_port (pr_address p) = ad_port addr \<and> connectID p = cid then None
        else scan_peers addr cid ps (Suc i) free (dups + 1)
      else scan_peers addr cid ps (Suc i) free dups)"

definition connecting_peer :: "host \<Rightarrow> connect_data \<Rightarrow> size_t \<Rightarrow> peer \<Rightarrow> peer" where
  "connecting_peer H c chans peer =
     (let incomingSession = next_session (cn_incomingSessionID c) (outgoingSessionID peer);
          outgoingSession = next_session (cn_outgoingSessionID c) (incomingSessionID peer)
      in peer\<lparr>channelCount := chans, channels := replicate (unat chans) fresh_channel,
        state := ACKNOWLEDGING_CONNECT, connectID := cn_connectID c, pr_address := receivedAddress H,
        outgoingPeerID := cn_outgoingPeerID c,
        incomingBandwidth := cn_incomingBandwidth c, outgoingBandwidth := cn_outgoingBandwidth c,
        packetThrottleInterval := cn_packetThrottleInterval c,
        packetThrottleAcceleration := cn_packetThrottleAcceleration c,
        packetThrottleDeceleration := cn_packetThrottleDeceleration c,
        eventData := cn_data c, outgoingSessionID := incomingSession, incomingSessionID := outgoingSession,
        mtu := clamp_mtu (cn_mtu c),
        windowSize := outgoing_window (ht_outgoingBandwidth H) (cn_incomingBandwidth c)\<rparr>)"

definition verify_command :: "host \<Rightarrow> connect_data \<Rightarrow> peer \<Rightarrow> protocol" where
  "verify_command H c peer =
     command_of (ENET_PROTOCOL_COMMAND_VERIFY_CONNECT OR ENET_PROTOCOL_COMMAND_FLAG_ACKNOWLEDGE) 0xFF
       (VerifyConnect \<lparr>vc_outgoingPeerID = incomingPeerID peer,
          vc_incomingSessionID = outgoingSessionID peer, vc_outgoingSessionID = incomingSessionID peer,
          vc_mtu = mtu peer, vc_windowSize = offered_window (ht_incomingBandwidth H) (cn_windowSize c),
          vc_channelCount = ucast (channelCount peer),
          vc_incomingBandwidth = ht_incomingBandwidth H, vc_outgoingBandwidth = ht_outgoingBandwidth H,
          vc_packetThrottleInterval = packetThrottleInterval peer,
          vc_packetThrottleAcceleration = packetThrottleAcceleration peer,
          vc_packetThrottleDeceleration = packetThrottleDeceleration peer,
          vc_connectID = connectID peer\<rparr>)"

definition enet_protocol_handle_connect :: "connect_data \<Rightarrow> host \<Rightarrow> (nat option \<times> host) option" where
  "enet_protocol_handle_connect c H =
     (let chans = (ucast (cn_channelCount c) :: size_t) in
      if chans < ENET_PROTOCOL_MINIMUM_CHANNEL_COUNT \<or> chans > ENET_PROTOCOL_MAXIMUM_CHANNEL_COUNT
      then Some (None, H)
      else (case scan_peers (receivedAddress H) (cn_connectID c) (ht_peers H) 0 None 0 of
          None \<Rightarrow> Some (None, H)
        | Some (free, dups) \<Rightarrow>
            (case free of
               None \<Rightarrow> Some (None, H)
             | Some i \<Rightarrow>
                 if dups \<ge> duplicatePeers H then Some (None, H)
                 else do {
                   let chans = (if chans > channelLimit H then channelLimit H else chans);
                   let (ok, h) = enet_malloc (ht_heap H);
                   let H = H\<lparr>ht_heap := h\<rparr>;
                   if \<not> ok then Some (None, H)
                   else do {
                     peer \<leftarrow> peer_at H i;
                     let peer = connecting_peer H c chans peer;
                     (_, H) \<leftarrow> queue_command i (verify_command H c peer) (set_peer i peer H);
                     Some (Some i, H) } })))"

subsection \<open>Verification of a connect\<close>

definition verify_mismatch :: "verify_connect_data \<Rightarrow> peer \<Rightarrow> bool" where
  "verify_mismatch c peer \<longleftrightarrow>
     (ucast (vc_channelCount c) :: size_t) < ENET_PROTOCOL_MINIMUM_CHANNEL_COUNT \<or>
     (ucast (vc_channelCount c) :: size_t) > ENET_PROTOCOL_MAXIMUM_CHANNEL_COUNT \<or>
     vc_packetThrottleInterval c \<noteq> packetThrottleInterval peer \<or>
     vc_packetThrottleAcceleration c \<noteq> packetThrottleAcceleration peer \<or>
     vc_packetThrottleDeceleration c \<noteq> packetThrottleDeceleration peer \<or>
     vc_connectID c \<noteq> connectID peer"

definition verified_peer :: "verify_connect_data \<Rightarrow> peer \<Rightarrow> peer" where
  "verified_peer c peer =
     (let chans = (ucast (vc_channelCount c) :: size_t);
          size = clamp_mtu (vc_mtu c); win = clamp_window (vc_windowSize c)
      in peer\<lparr>channelCount := (if chans < channelCount peer then chans else channelCount peer),
        outgoingPeerID := vc_outgoingPeerID c, incomingSessionID := vc_incomingSessionID c,
        outgoingSessionID := vc_outgoingSessionID c,
        mtu := (if size < mtu peer then size else mtu peer),
        windowSize := (if win < windowSize peer then win else windowSize peer),
        incomingBandwidth := vc_incomingBandwidth c, outgoingBandwidth := vc_outgoingBandwidth c\<rparr>)"

definition enet_protocol_handle_verify_connect ::
  "event option \<Rightarrow> nat \<Rightarrow> verify_connect_data \<Rightarrow> host \<Rightarrow> (int \<times> event option \<times> host) option" where
  "enet_protocol_handle_verify_connect event i c H = do {
     peer \<leftarrow> peer_at H i;
     if state peer \<noteq> CONNECTING then Some (0, event, H)
     else if verify_mismatch c peer
     then do {
       H \<leftarrow> enet_protocol_dispatch_state i ZOMBIE (set_peer i (peer\<lparr>eventData := 0\<rparr>) H);
       Some (-1, event, H) }
     else do {
       (_, H) \<leftarrow> on_peer i (\<lambda>p. enet_protocol_remove_sent_reliable_command p 1 0xFF) H;
       H \<leftarrow> update_peer i (verified_peer c) H;
       (event, H) \<leftarrow> enet_protocol_notify_connect i event H;
       Some (0, event, H) } }"

subsection \<open>Settings, ping and disconnect\<close>

definition enet_protocol_handle_ping :: "nat \<Rightarrow> host \<Rightarrow> (int \<times> host) option" where
  "enet_protocol_handle_ping i H = do {
     peer \<leftarrow> peer_at H i;
     Some (if state peer \<noteq> CONNECTED \<and> state peer \<noteq> DISCONNECT_LATER then -1 else 0, H) }"

definition enet_protocol_handle_bandwidth_limit :: "nat \<Rightarrow> u32 \<Rightarrow> u32 \<Rightarrow> host \<Rightarrow> (int \<times> host) option" where
  "enet_protocol_handle_bandwidth_limit i incoming outgoing H = do {
     peer \<leftarrow> peer_at H i;
     if state peer \<noteq> CONNECTED \<and> state peer \<noteq> DISCONNECT_LATER then Some (-1, H)
     else do {
       let H = (if incomingBandwidth peer \<noteq> 0
                then H\<lparr>bandwidthLimitedPeers := bandwidthLimitedPeers H - 1\<rparr> else H);
       let peer = peer\<lparr>incomingBandwidth := incoming, outgoingBandwidth := outgoing\<rparr>;
       let H = (if incomingBandwidth peer \<noteq> 0
                then H\<lparr>bandwidthLimitedPeers := bandwidthLimitedPeers H + 1\<rparr> else H);
       let peer = peer\<lparr>windowSize := outgoing_window (ht_outgoingBandwidth H) (incomingBandwidth peer)\<rparr>;
       Some (0, set_peer i peer H) } }"

definition enet_protocol_handle_throttle_configure ::
  "nat \<Rightarrow> u32 \<Rightarrow> u32 \<Rightarrow> u32 \<Rightarrow> host \<Rightarrow> (int \<times> host) option" where
  "enet_protocol_handle_throttle_configure i interval acceleration deceleration H = do {
     peer \<leftarrow> peer_at H i;
     if state peer \<noteq> CONNECTED \<and> state peer \<noteq> DISCONNECT_LATER then Some (-1, H)
     else Some (0, set_peer i (peer\<lparr>packetThrottleInterval := interval,
         packetThrottleAcceleration := acceleration, packetThrottleDeceleration := deceleration\<rparr>) H) }"

definition enet_protocol_handle_disconnect :: "nat \<Rightarrow> bool \<Rightarrow> u32 \<Rightarrow> host \<Rightarrow> (int \<times> host) option" where
  "enet_protocol_handle_disconnect i acknowledge data H = do {
     peer \<leftarrow> peer_at H i;
     if state peer = DISCONNECTED \<or> state peer = ZOMBIE \<or> state peer = ACKNOWLEDGING_DISCONNECT
     then Some (0, H)
     else do {
       (_, H) \<leftarrow> on_queue i (enet_peer_reset_queues i) H;
       H \<leftarrow> (if state peer = CONNECTION_SUCCEEDED \<or> state peer = DISCONNECTING \<or> state peer = CONNECTING
            then enet_protocol_dispatch_state i ZOMBIE H
            else if state peer \<noteq> CONNECTED \<and> state peer \<noteq> DISCONNECT_LATER
            then enet_peer_reset i
              (if state peer = CONNECTION_PENDING then H\<lparr>recalculateBandwidthLimits := True\<rparr> else H)
            else if acknowledge then enet_protocol_change_state i ACKNOWLEDGING_DISCONNECT H
            else enet_protocol_dispatch_state i ZOMBIE H);
       peer \<leftarrow> peer_at H i;
       Some (0, if state peer \<noteq> DISCONNECTED then set_peer i (peer\<lparr>eventData := data\<rparr>) H else H) } }"

end
