(* ===== verification/Protocol_Data.thy ===== *)
theory Protocol_Data
  imports Protocol_Connect
begin

text \<open>
  \<^verbatim>\<open>protocol.c\<close>, the commands that carry data.  \<open>cur\<close> is \<^verbatim>\<open>* currentData\<close> as an offset into
  the receive buffer; it stands behind the command's struct on entry and behind its data on
  return.
\<close>

definition can_receive :: "peer \<Rightarrow> u8 \<Rightarrow> bool" where
  "can_receive peer chan \<longleftrightarrow>
     \<not> (ucast chan \<ge> channelCount peer \<or> (state peer \<noteq> CONNECTED \<and> state peer \<noteq> DISCONNECT_LATER))"

text \<open>Whether the data that a command announces lies inside the datagram.\<close>

definition data_fits :: "host \<Rightarrow> nat \<Rightarrow> u16 \<Rightarrow> bool" where
  "data_fits H cur len \<longleftrightarrow>
     \<not> (ucast len > maximumPacketSize H \<or> cur + unat len > unat (receivedDataLength H))"

text \<open>\<^verbatim>\<open>enet_peer_queue_incoming_command\<close> of the peer \<open>i\<close> of a host.\<close>

definition queue_incoming ::
  "nat \<Rightarrow> protocol \<Rightarrow> bytes option \<Rightarrow> size_t \<Rightarrow> u32 \<Rightarrow> u32 \<Rightarrow> host \<Rightarrow> (queue_result \<times> host) option" where
  "queue_incoming i command data len flags fragments H = do {
     (r, H) \<leftarrow> on_queue i (\<lambda>p. enet_peer_queue_incoming_command (maximumWaitingData H) (ht_ids H)
                 i p command data len flags fragments) H;
     Some (r, H\<lparr>ht_ids := Suc (ht_ids H)\<rparr>) }"

definition queue_data :: "nat \<Rightarrow> protocol \<Rightarrow> nat \<Rightarrow> u16 \<Rightarrow> u32 \<Rightarrow> host \<Rightarrow> (int \<times> host) option" where
  "queue_data i command cur len flags H = do {
     (r, H) \<leftarrow> queue_incoming i command (Some (map Some (drop cur (receivedData H)))) (ucast len) flags 0 H;
     Some (if r = Q_Null then -1 else 0, H) }"

definition enet_protocol_handle_send_reliable ::
  "nat \<Rightarrow> protocol \<Rightarrow> u16 \<Rightarrow> nat \<Rightarrow> host \<Rightarrow> (int \<times> nat \<times> host) option" where
  "enet_protocol_handle_send_reliable i command len cur H = do {
     peer \<leftarrow> peer_at H i;
     if \<not> can_receive peer (p_channelID command) \<or> \<not> data_fits H cur len then Some (-1, cur, H)
     else do {
       (r, H) \<leftarrow> queue_data i command cur len ENET_PACKET_FLAG_RELIABLE H;
       Some (r, cur + unat len, H) } }"

definition enet_protocol_handle_send_unreliable ::
  "nat \<Rightarrow> protocol \<Rightarrow> u16 \<Rightarrow> nat \<Rightarrow> host \<Rightarrow> (int \<times> nat \<times> host) option" where
  "enet_protocol_handle_send_unreliable i command len cur H = do {
     peer \<leftarrow> peer_at H i;
     if \<not> can_receive peer (p_channelID command) \<or> \<not> data_fits H cur len then Some (-1, cur, H)
     else do {
       (r, H) \<leftarrow> queue_data i command cur len 0 H;
       Some (r, cur + unat len, H) } }"

subsection \<open>Unsequenced commands\<close>

definition window_bit :: "u32 list \<Rightarrow> nat \<Rightarrow> bool" where
  "window_bit ws n \<longleftrightarrow> ws ! (n div 32) AND push_bit (n mod 32) 1 \<noteq> 0"

definition set_window_bit :: "u32 list \<Rightarrow> nat \<Rightarrow> u32 list" where
  "set_window_bit ws n = ws[n div 32 := ws ! (n div 32) OR push_bit (n mod 32) 1]"

text \<open>
  The check of a group number against the window: outside of it (or a duplicate) is \<open>None\<close>,
  otherwise the peer with its window moved and the index of the group's bit.
\<close>

definition enter_unsequenced :: "u16 \<Rightarrow> peer \<Rightarrow> (nat \<times> peer) option" where
  "enter_unsequenced grp peer =
     (let g = (ucast grp :: u32); index = g mod ENET_PEER_UNSEQUENCED_WINDOW_SIZE;
          base = ucast (incomingUnsequencedGroup peer);
          g = (if g < base then g + 0x10000 else g)
      in if g \<ge> base + ENET_PEER_FREE_UNSEQUENCED_WINDOWS * ENET_PEER_UNSEQUENCED_WINDOW_SIZE then None
         else let g = g AND 0xFFFF in
           if g - index \<noteq> base
           then Some (unat index, peer\<lparr>incomingUnsequencedGroup := ucast (g - index),
                  unsequencedWindow := replicate (length (unsequencedWindow peer)) 0\<rparr>)
           else if window_bit (unsequencedWindow peer) (unat index) then None
           else Some (unat index, peer))"

definition enet_protocol_handle_send_unsequenced ::
  "nat \<Rightarrow> protocol \<Rightarrow> u16 \<Rightarrow> u16 \<Rightarrow> nat \<Rightarrow> host \<Rightarrow> (int \<times> nat \<times> host) option" where
  "enet_protocol_handle_send_unsequenced i command grp len cur H = do {
     peer \<leftarrow> peer_at H i;
     if \<not> can_receive peer (p_channelID command) \<or> \<not> data_fits H cur len then Some (-1, cur, H)
     else (case enter_unsequenced grp peer of
         None \<Rightarrow> Some (0, cur + unat len, H)
       | Some (index, peer) \<Rightarrow> do {
           (r, H) \<leftarrow> queue_data i command cur len ENET_PACKET_FLAG_UNSEQUENCED (set_peer i peer H);
           if r = -1 then Some (-1, cur + unat len, H)
           else do {
             H \<leftarrow> update_peer i (\<lambda>p. p\<lparr>unsequencedWindow := set_window_bit (unsequencedWindow p) index\<rparr>) H;
             Some (0, cur + unat len, H) } }) }"

subsection \<open>Fragments\<close>

text \<open>The checks of a fragment's header; \<^verbatim>\<open>totalLength - fragmentOffset\<close> does not wrap after the test before it.\<close>

definition fragment_invalid :: "size_t \<Rightarrow> fragment_data \<Rightarrow> bool" where
  "fragment_invalid maximum f \<longleftrightarrow>
     fr_fragmentCount f > ENET_PROTOCOL_MAXIMUM_FRAGMENT_COUNT \<or>
     fr_fragmentNumber f \<ge> fr_fragmentCount f \<or>
     ucast (fr_totalLength f) > maximum \<or>
     fr_fragmentOffset f \<ge> fr_totalLength f \<or>
     ucast (fr_dataLength f) > fr_totalLength f - fr_fragmentOffset f"

text \<open>The search for the command that collects the fragments, from the back of the queue.\<close>

datatype start_search = Start_None | Start_Mismatch | Start_Found incoming_command

definition start_found :: "heap \<Rightarrow> u8 \<Rightarrow> fragment_data \<Rightarrow> incoming_command \<Rightarrow> start_search option" where
  "start_found h num f c =
     (if command_number (ic_command c) \<noteq> num then Some Start_Mismatch
      else do {
        packet \<leftarrow> Option.bind (ic_packet c) (hp_packets h);
        Some (if ucast (fr_totalLength f) \<noteq> dataLength packet \<or> fr_fragmentCount f \<noteq> ic_fragmentCount c
              then Start_Mismatch else Start_Found c) })"

fun find_start_reliable :: "heap \<Rightarrow> u16 \<Rightarrow> fragment_data \<Rightarrow> incoming_command list \<Rightarrow> start_search option" where
  "find_start_reliable h current f [] = Some Start_None"
| "find_start_reliable h current f (c # cs) =
     (let start = fr_startSequenceNumber f in
      if start \<ge> current \<and> ic_reliableSequenceNumber c < current then find_start_reliable h current f cs
      else if \<not> start \<ge> current \<and> ic_reliableSequenceNumber c \<ge> current then Some Start_None
      else if ic_reliableSequenceNumber c \<le> start
      then if ic_reliableSequenceNumber c < start then Some Start_None
        else start_found h ENET_PROTOCOL_COMMAND_SEND_FRAGMENT f c
      else find_start_reliable h current f cs)"

fun find_start_unreliable ::
  "heap \<Rightarrow> u16 \<Rightarrow> u16 \<Rightarrow> fragment_data \<Rightarrow> incoming_command list \<Rightarrow> start_search option" where
  "find_start_unreliable h current sn f [] = Some Start_None"
| "find_start_unreliable h current sn f (c # cs) =
     (let start = fr_startSequenceNumber f in
      if sn \<ge> current \<and> ic_reliableSequenceNumber c < current then find_start_unreliable h current sn f cs
      else if \<not> sn \<ge> current \<and> ic_reliableSequenceNumber c \<ge> current then Some Start_None
      else if ic_reliableSequenceNumber c < sn then Some Start_None
      else if ic_reliableSequenceNumber c > sn then find_start_unreliable h current sn f cs
      else if ic_unreliableSequenceNumber c \<le> start
      then if ic_unreliableSequenceNumber c < start then Some Start_None
        else start_found h ENET_PROTOCOL_COMMAND_SEND_UNRELIABLE_FRAGMENT f c
      else find_start_unreliable h current sn f cs)"

text \<open>
  The command at an address: it is in a channel's queue or among the dispatched commands, or
  it has been freed.
\<close>

definition command_at :: "nat \<Rightarrow> peer \<Rightarrow> incoming_command option" where
  "command_at ident peer = List.find (\<lambda>c. ic_id c = ident) (peer_commands peer)"

definition replace_command :: "incoming_command \<Rightarrow> peer \<Rightarrow> peer" where
  "replace_command c peer =
     (let f = map (\<lambda>d. if ic_id d = ic_id c then c else d) in
      peer\<lparr>dispatchedCommands := f (dispatchedCommands peer),
        channels := map (\<lambda>ch. ch\<lparr>ch_incomingReliableCommands := f (ch_incomingReliableCommands ch),
            ch_incomingUnreliableCommands := f (ch_incomingUnreliableCommands ch)\<rparr>) (channels peer)\<rparr>)"

definition copy_fragment :: "packet_id \<Rightarrow> u32 \<Rightarrow> u32 \<Rightarrow> u8 list \<Rightarrow> heap \<Rightarrow> heap option" where
  "copy_fragment pid off len src h = do {
     packet \<leftarrow> hp_packets h pid;
     let len = (if (ucast (off + len) :: size_t) > dataLength packet
                then ucast (dataLength packet - ucast off) else len);
     data \<leftarrow> pk_data packet;
     if unat len \<le> length src \<and> unat off + unat len \<le> length data
     then Some (update_packet pid (packet\<lparr>pk_data := Some (patch (unat off)
            (map Some (take (unat len) src)) data)\<rparr>) h)
     else None }"

text \<open>
  The fragment is stored once; the result is whether the last one arrived, after which the
  queue is dispatched.
\<close>

definition store_fragment ::
  "nat \<Rightarrow> fragment_data \<Rightarrow> u8 list \<Rightarrow> peer \<Rightarrow> heap \<Rightarrow> (bool \<times> peer \<times> heap) option" where
  "store_fragment ident f src peer h = do {
     c \<leftarrow> command_at ident peer;
     bits \<leftarrow> ic_fragments c;
     let n = unat (fr_fragmentNumber f);
     if \<not> n div 32 < length bits then None
     else if window_bit bits n then Some (False, peer, h)
     else do {
       let c = c\<lparr>ic_fragmentsRemaining := ic_fragmentsRemaining c - 1,
             ic_fragments := Some (set_window_bit bits n)\<rparr>;
       pid \<leftarrow> ic_packet c;
       h \<leftarrow> copy_fragment pid (fr_fragmentOffset f) (ucast (fr_dataLength f)) src h;
       Some (ic_fragmentsRemaining c \<le> 0, replace_command c peer, h) } }"

definition collect_fragment ::
  "(nat \<Rightarrow> u8 \<Rightarrow> peer \<Rightarrow> nat list \<Rightarrow> heap \<Rightarrow> (peer \<times> nat list \<times> heap) option) \<Rightarrow>
    nat \<Rightarrow> u8 \<Rightarrow> nat \<Rightarrow> fragment_data \<Rightarrow> nat \<Rightarrow> host \<Rightarrow> host option" where
  "collect_fragment dispatch i chan ident f cur H = do {
     (complete, H) \<leftarrow> on_peer i (store_fragment ident f (drop cur (receivedData H))) H;
     if complete then do {
       (_, H) \<leftarrow> on_queue i (\<lambda>p q h. map_option (\<lambda>r. ((), r)) (dispatch i chan p q h)) H;
       Some H }
     else Some H }"

text \<open>Whether the start number lies in the windows that are open.\<close>

definition window_open :: "u16 \<Rightarrow> channel \<Rightarrow> bool" where
  "window_open sn channel \<longleftrightarrow>
     \<not> (relative_window sn channel < current_window channel \<or>
        relative_window sn channel \<ge> current_window channel + ENET_PEER_FREE_RELIABLE_WINDOWS - 1)"

definition collect_into ::
  "(nat \<Rightarrow> u8 \<Rightarrow> peer \<Rightarrow> nat list \<Rightarrow> heap \<Rightarrow> (peer \<times> nat list \<times> heap) option) \<Rightarrow> start_search \<Rightarrow>
    nat \<Rightarrow> protocol \<Rightarrow> fragment_data \<Rightarrow> u32 \<Rightarrow> nat \<Rightarrow> host \<Rightarrow> (int \<times> nat \<times> host) option" where
  "collect_into dispatch start i command f flags cur H =
     (case start of
        Start_Mismatch \<Rightarrow> Some (-1, cur, H)
      | Start_Found c \<Rightarrow> do {
          H \<leftarrow> collect_fragment dispatch i (p_channelID command) (ic_id c) f cur H;
          Some (0, cur + unat (fr_dataLength f), H) }
      | Start_None \<Rightarrow> do {
          (r, H) \<leftarrow> queue_incoming i command None (ucast (fr_totalLength f)) flags (fr_fragmentCount f) H;
          (case r of
             Q_Null \<Rightarrow> Some (-1, cur, H)
           | Q_Dummy \<Rightarrow> None
           | Q_Command ident \<Rightarrow> do {
               H \<leftarrow> collect_fragment dispatch i (p_channelID command) ident f cur H;
               Some (0, cur + unat (fr_dataLength f), H) }) })"

definition enet_protocol_handle_send_fragment ::
  "nat \<Rightarrow> protocol \<Rightarrow> fragment_data \<Rightarrow> nat \<Rightarrow> host \<Rightarrow> (int \<times> nat \<times> host) option" where
  "enet_protocol_handle_send_fragment i command f cur H = do {
     peer \<leftarrow> peer_at H i;
     if \<not> can_receive peer (p_channelID command) \<or> \<not> data_fits H cur (fr_dataLength f)
     then Some (-1, cur, H)
     else do {
       channel \<leftarrow> channel_at peer (p_channelID command);
       if \<not> window_open (fr_startSequenceNumber f) channel
       then Some (0, cur + unat (fr_dataLength f), H)
       else if fragment_invalid (maximumPacketSize H) f then Some (-1, cur, H)
       else do {
         start \<leftarrow> find_start_reliable (ht_heap H) (ch_incomingReliableSequenceNumber channel) f
                   (rev (ch_incomingReliableCommands channel));
         collect_into enet_peer_dispatch_incoming_reliable_commands start i
           (command\<lparr>p_reliableSequenceNumber := fr_startSequenceNumber f\<rparr>) f
           ENET_PACKET_FLAG_RELIABLE cur H } } }"

definition enet_protocol_handle_send_unreliable_fragment ::
  "nat \<Rightarrow> protocol \<Rightarrow> fragment_data \<Rightarrow> nat \<Rightarrow> host \<Rightarrow> (int \<times> nat \<times> host) option" where
  "enet_protocol_handle_send_unreliable_fragment i command f cur H = do {
     peer \<leftarrow> peer_at H i;
     if \<not> can_receive peer (p_channelID command) \<or> \<not> data_fits H cur (fr_dataLength f)
     then Some (-1, cur, H)
     else do {
       channel \<leftarrow> channel_at peer (p_channelID command);
       let sn = p_reliableSequenceNumber command;
       if \<not> window_open sn channel \<or>
          (sn = ch_incomingReliableSequenceNumber channel \<and>
           fr_startSequenceNumber f \<le> ch_incomingUnreliableSequenceNumber channel)
       then Some (0, cur + unat (fr_dataLength f), H)
       else if fragment_invalid (maximumPacketSize H) f then Some (-1, cur, H)
       else do {
         start \<leftarrow> find_start_unreliable (ht_heap H) (ch_incomingReliableSequenceNumber channel) sn f
                   (rev (ch_incomingUnreliableCommands channel));
         collect_into enet_peer_dispatch_incoming_unreliable_commands start i command f
           ENET_PACKET_FLAG_UNRELIABLE_FRAGMENT cur H } } }"

end
