(* ===== verification/Incoming_Inv.thy ===== *)
theory Incoming_Inv
  imports Peer_State_Inv Protocol_Data
begin

text \<open>
  Queueing and dispatching received commands keeps the invariant: no command appears that was
  not queued, only the command's channel changes, and the dispatch queue follows the peer's mark.
\<close>

subsection \<open>The commands of a peer\<close>

lemma mset_concat_update:
  "i < length cs \<Longrightarrow>
    mset (concat (map f (cs[i := c]))) + mset (f (cs ! i)) = mset (concat (map f cs)) + mset (f c)"
proof (induction cs arbitrary: i)
  case (Cons a cs)
  then show ?case
    by (cases i) (simp_all add: ac_simps)
qed simp

lemma peer_commands_set_channel:
  assumes "channel_at p i = Some c"
  shows "mset (peer_commands (set_channel p i c')) +
      mset (ch_incomingReliableCommands c @ ch_incomingUnreliableCommands c) =
    mset (peer_commands p) + mset (ch_incomingReliableCommands c' @ ch_incomingUnreliableCommands c')"
  using assms mset_concat_update [of "unat i" "channels p"
      "\<lambda>c. ch_incomingReliableCommands c @ ch_incomingUnreliableCommands c" c']
  by (simp add: peer_commands_def set_channel_def channel_at_Some)

lemma dispatch_moved_commands:
  "mset (peer_commands (fst (dispatch_moved i moved p q))) = mset moved + mset (peer_commands p)"
  by (simp add: peer_commands_def)

lemma need_dispatch_step: "queue_step i p q (fst (need_dispatch i p q)) (snd (need_dispatch i p q))"
  by (simp add: need_dispatch_def queue_step_def)

lemma dispatch_moved_step: "queue_step i p q (fst (dispatch_moved i moved p q)) (snd (dispatch_moved i moved p q))"
  by (simp add: dispatch_moved_def need_dispatch_def queue_step_def)

text \<open>How dispatching may follow dispatching: the mark is only ever set.\<close>

lemma queue_step_set:
  assumes "queue_step i p q p1 q1" "queue_step i p1 q1 p2 q2"
    "needsDispatch p \<longrightarrow> needsDispatch p1" "needsDispatch p1 \<longrightarrow> needsDispatch p2"
  shows "queue_step i p q p2 q2"
  using assms by (auto simp: queue_step_def)

text \<open>What a dispatch of a channel does to the peer.\<close>

definition in_step :: "nat \<Rightarrow> u8 \<Rightarrow> peer \<Rightarrow> nat list \<Rightarrow> peer \<Rightarrow> nat list \<Rightarrow> bool" where
  "in_step i chan p q p' q' \<longleftrightarrow> incoming_frame p p' \<and> queue_step i p q p' q' \<and>
     (needsDispatch p \<longrightarrow> needsDispatch p') \<and> (\<exists>c'. channels p' = (channels p)[unat chan := c'])"

lemma in_step_trans:
  assumes "in_step i chan p q p1 q1" "in_step i chan p1 q1 p2 q2"
  shows "in_step i chan p q p2 q2"
  using assms incoming_frame_trans [of p p1 p2] queue_step_set [of i p q p1 q1 p2 q2]
  by (auto simp: in_step_def)

lemma in_step_refl: "in_step i chan p q p q"
  unfolding in_step_def by (auto simp: queue_step_def intro!: exI [of _ "channels p ! unat chan"])

lemma dispatch_moved_in_step:
  assumes c: "channel_at p chan = Some c" and w: "ch_reliableWindows c' = ch_reliableWindows c"
  shows "in_step i chan p q (fst (dispatch_moved i moved (set_channel p chan c') q))
    (snd (dispatch_moved i moved (set_channel p chan c') q))"
proof -
  have "incoming_frame p (fst (dispatch_moved i moved (set_channel p chan c') q))"
    by (rule incoming_frame_trans [OF set_channel_frame [OF c w] dispatch_moved_frame])
  then show ?thesis
    using dispatch_moved_step [of i "set_channel p chan c'" q moved]
    by (auto simp: in_step_def set_channel_def queue_step_def dispatch_moved_def need_dispatch_def
        split: if_splits)
qed

text \<open>Only commands of the channel's unreliable queue are dropped.\<close>

definition dropped_only :: "channel \<Rightarrow> peer \<Rightarrow> peer \<Rightarrow> bool" where
  "dropped_only c p p' \<longleftrightarrow> (\<exists>gone. mset (peer_commands p') + mset gone = mset (peer_commands p) \<and>
     set gone \<subseteq> set (ch_incomingUnreliableCommands c))"

lemma dropped_only_subset: "dropped_only c p p' \<Longrightarrow> mset (peer_commands p') \<subseteq># mset (peer_commands p)"
  unfolding dropped_only_def by (metis mset_subset_eq_add_left)

lemma dropped_only_mem:
  assumes "dropped_only c p p'" "x \<in> set (peer_commands p)" "x \<notin> set (ch_incomingUnreliableCommands c)"
  shows "x \<in> set (peer_commands p')"
proof -
  obtain gone where g: "mset (peer_commands p') + mset gone = mset (peer_commands p)"
      "set gone \<subseteq> set (ch_incomingUnreliableCommands c)"
    using assms(1) unfolding dropped_only_def by blast
  have "x \<in># mset (peer_commands p') + mset gone"
    unfolding g(1) using assms(2) by simp
  then show ?thesis
    using g(2) assms(3) by auto
qed

text \<open>The packets that survive keep their lengths.\<close>

definition lengths_kept :: "heap \<Rightarrow> heap \<Rightarrow> bool" where
  "lengths_kept h h' \<longleftrightarrow> (\<forall>pid p'. hp_packets h' pid = Some p' \<longrightarrow>
     (\<exists>p. hp_packets h pid = Some p \<and> dataLength p = dataLength p'))"

lemma lengths_kept_refl [simp]: "lengths_kept h h"
  by (simp add: lengths_kept_def)

lemma lengths_kept_trans: "lengths_kept h1 h2 \<Longrightarrow> lengths_kept h2 h3 \<Longrightarrow> lengths_kept h1 h3"
  unfolding lengths_kept_def by metis

lemma release_lengths:
  assumes "release_packet pid h = Some h'"
  shows "lengths_kept h h'"
proof -
  obtain p where p: "hp_packets h pid = Some p"
    using assms by (auto simp: release_packet_def bind_eq_Some_conv)
  define p1 where "p1 = p\<lparr>referenceCount := referenceCount p - 1\<rparr>"
  have "h' = update_packet pid p1 h \<or> enet_packet_destroy (Some pid) (update_packet pid p1 h) = Some h'"
    using assms by (simp add: release_packet_def p Let_def p1_def split: if_splits)
  then have "hp_packets h' = (hp_packets h)(pid \<mapsto> p1) \<or> hp_packets h' = (hp_packets h)(pid := None)"
    using enet_packet_destroy_packets [of "update_packet pid p1 h" pid p1]
    by (auto simp: update_packet_def)
  then show ?thesis
    using p by (auto simp: lengths_kept_def p1_def split: if_splits)
qed

lemma release_all_lengths: "release_all release_packet ps h = Some h' \<Longrightarrow> lengths_kept h h'"
proof (induction ps arbitrary: h)
  case (Cons p ps)
  then show ?case
    using release_lengths lengths_kept_trans by (fastforce simp: bind_eq_Some_conv)
qed simp

lemma dispatch_unreliable_step:
  assumes c: "channel_at p chan = Some c"
    and eq: "enet_peer_dispatch_incoming_unreliable_commands i chan p q h = Some (p', q', h')"
  shows "in_step i chan p q p' q' \<and> dropped_only c p p' \<and> lengths_kept h h'"
proof -
  define s where "s = scan_unreliable c (ch_incomingUnreliableSequenceNumber c) [] [] [] 0
    (ch_incomingUnreliableCommands c)"
  define gone where "gone = take (us_dropped s) (us_kept s @ us_rest s)"
  define rest where "rest = drop (us_dropped s) (us_kept s @ us_rest s)"
  have split: "gone @ rest = us_kept s @ us_rest s"
    by (simp only: gone_def rest_def append_take_drop_id)
  have parts: "mset (ch_incomingUnreliableCommands c) = mset (us_moved s) + mset (gone @ rest)"
    using scan_unreliable_parts [of 0 "[]" c "ch_incomingUnreliableSequenceNumber c" "[]" "[]"
      "ch_incomingUnreliableCommands c"]
    unfolding split by (simp add: add.assoc flip: s_def)
  define c' where "c' = c\<lparr>ch_incomingUnreliableSequenceNumber := us_unreliable s, ch_incomingUnreliableCommands := rest\<rparr>"
  have p': "p' = fst (dispatch_moved i (us_moved s) (set_channel p chan c') q)"
      "q' = snd (dispatch_moved i (us_moved s) (set_channel p chan c') q)"
    using eq unfolding enet_peer_dispatch_incoming_unreliable_commands_def c Option.bind.bind_lunit Let_def
      s_def [symmetric] gone_def [symmetric] rest_def [symmetric] c'_def [symmetric]
    by (auto simp: bind_eq_Some_conv split: prod.splits)
  have "mset (peer_commands p') + mset gone = mset (peer_commands p)"
    using peer_commands_set_channel [OF c, of c'] parts unfolding p' dispatch_moved_commands
    by (simp add: c'_def ac_simps)
  moreover have "set gone \<subseteq> set (ch_incomingUnreliableCommands c)"
    using mset_eq_setD [of "ch_incomingUnreliableCommands c" "us_moved s @ gone @ rest"] parts by auto
  ultimately have "dropped_only c p p'"
    unfolding dropped_only_def by blast
  moreover have "lengths_kept h h'"
    using eq unfolding enet_peer_dispatch_incoming_unreliable_commands_def c Option.bind.bind_lunit Let_def
      enet_peer_remove_incoming_commands_def
    by (auto simp: bind_eq_Some_conv split: prod.splits dest: release_all_lengths)
  ultimately show ?thesis
    unfolding p' using dispatch_moved_in_step [OF c, of c'] by (simp add: c'_def)
qed

lemma dispatch_reliable_step:
  assumes c: "channel_at p chan = Some c"
    and eq: "enet_peer_dispatch_incoming_reliable_commands i chan p q h = Some (p', q', h')"
  shows "in_step i chan p q p' q' \<and> dropped_only c p p' \<and> lengths_kept h h'"
proof -
  obtain sn moved rest where pre: "reliable_prefix (ch_incomingReliableSequenceNumber c)
      (ch_incomingReliableCommands c) = (sn, moved, rest)"
    by (metis prod_cases3)
  define c' where "c' = c\<lparr>ch_incomingReliableSequenceNumber := sn,
    ch_incomingUnreliableSequenceNumber := 0, ch_incomingReliableCommands := rest\<rparr>"
  obtain p1 q1 where d: "dispatch_moved i moved (set_channel p chan c') q = (p1, q1)"
    by (cases "dispatch_moved i moved (set_channel p chan c') q")
  have st: "in_step i chan p q p1 q1"
    using dispatch_moved_in_step [OF c, of c' i q moved] unfolding d by (simp add: c'_def)
  have cmds: "mset (peer_commands p1) = mset (peer_commands p)"
    using peer_commands_set_channel [OF c, of c'] dispatch_moved_commands [of i moved "set_channel p chan c'" q]
      reliable_prefix_parts [OF pre] unfolding d by (simp add: c'_def ac_simps)
  have c1: "channel_at p1 chan = Some c'"
    using dispatch_moved_simps(5) [of i moved "set_channel p chan c'" q chan, unfolded d fst_conv] c
    by (simp add: set_channel_def channel_at_def split: if_splits)
  have "enet_peer_dispatch_incoming_reliable_commands i chan p q h =
      (if moved = [] then Some (p, q, h)
       else if ch_incomingUnreliableCommands c' \<noteq> []
       then enet_peer_dispatch_incoming_unreliable_commands i chan p1 q1 h else Some (p1, q1, h))"
    unfolding enet_peer_dispatch_incoming_reliable_commands_def c Option.bind.bind_lunit pre Let_def
      prod.case c'_def [symmetric] d ..
  then consider "p' = p" "q' = q" "h' = h" | "p' = p1" "q' = q1" "h' = h"
    | "enet_peer_dispatch_incoming_unreliable_commands i chan p1 q1 h = Some (p', q', h')"
    using eq by (auto split: if_splits)
  then show ?thesis
  proof cases
    case 3
    from dispatch_unreliable_step [OF c1 this] show ?thesis
      using in_step_trans [OF st] cmds by (auto simp: dropped_only_def c'_def)
  qed (use st cmds in_step_refl in \<open>auto simp: dropped_only_def intro: exI [of _ "[]"]\<close>)
qed

subsection \<open>Queueing\<close>

lemma insert_at_mset: "mset (insert_at n c cs) = add_mset c (mset cs)"
proof -
  have "mset (take n cs) + mset (drop n cs) = mset cs"
    by (simp only: mset_append [symmetric] append_take_drop_id)
  then show ?thesis
    by (simp add: insert_at_def)
qed

lemma queued_commands:
  assumes c: "channel_at p (p_channelID command) = Some c"
  shows "\<exists>usn. mset (peer_commands (queued ident pl command n pid len c p)) \<subseteq>#
    add_mset (new_incoming ident command usn n pid) (mset (peer_commands p))"
proof -
  define c' where "c' = insert_incoming pl (\<lambda>usn. new_incoming ident command usn n pid) c"
  have "\<exists>usn. mset (ch_incomingReliableCommands c' @ ch_incomingUnreliableCommands c') \<subseteq>#
      add_mset (new_incoming ident command usn n pid)
        (mset (ch_incomingReliableCommands c @ ch_incomingUnreliableCommands c))"
    by (cases pl) (auto simp: c'_def insert_incoming_def insert_at_mset)
  then obtain usn where le: "mset (ch_incomingReliableCommands c' @ ch_incomingUnreliableCommands c') \<subseteq>#
      add_mset (new_incoming ident command usn n pid)
        (mset (ch_incomingReliableCommands c @ ch_incomingUnreliableCommands c))" ..
  have "mset (peer_commands (set_channel p (p_channelID command) c')) +
      mset (ch_incomingReliableCommands c @ ch_incomingUnreliableCommands c) \<subseteq>#
    add_mset (new_incoming ident command usn n pid) (mset (peer_commands p)) +
      mset (ch_incomingReliableCommands c @ ch_incomingUnreliableCommands c)"
    unfolding peer_commands_set_channel [OF c] using le by (simp add: subset_mset.add_left_mono)
  then have "mset (peer_commands (set_channel p (p_channelID command) c')) \<subseteq>#
      add_mset (new_incoming ident command usn n pid) (mset (peer_commands p))"
    by simp
  then show ?thesis
    by (auto simp: queued_def peer_commands_def simp flip: c'_def)
qed

lemma queued_in_step:
  assumes "channel_at p (p_channelID command) = Some c"
  shows "in_step i (p_channelID command) p q (queued ident pl command n pid len c p) q"
  using queued_frame [OF assms, of ident pl n pid len]
  by (auto simp: in_step_def queue_step_def queued_def set_channel_def)

lemma new_incoming_wf:
  assumes "n \<le> ENET_PROTOCOL_MAXIMUM_FRAGMENT_COUNT"
  shows "incoming_wf (new_incoming ident command usn n pid)"
proof -
  have "unat (n + 31) = unat n + 31"
    using assms by (subst unat_add_no_wrap) (simp_all add: word_le_nat_alt enet_consts)
  then have "unat n \<le> 32 * unat ((n + 31) div 32)"
    by (simp add: unat_div)
  then show ?thesis
    by (simp add: incoming_wf_def new_incoming_def)
qed

subsection \<open>The invariant\<close>

lemma mset_le_distinct:
  assumes "mset ys \<subseteq># mset xs" "distinct xs"
  shows "distinct ys"
proof -
  obtain zs where "mset xs = mset (ys @ zs)"
    using assms(1) by (metis ex_mset mset_append subset_mset.le_iff_add)
  then show ?thesis
    using assms(2) mset_eq_imp_distinct_iff distinct_append by blast
qed

lemma ids_ok_subset:
  assumes "mset (peer_commands p') \<subseteq># mset xs" "distinct (map ic_id xs)" "\<forall>c \<in> set xs. ic_id c < n"
  shows "ids_ok n p'"
proof -
  have "mset (map ic_id (peer_commands p')) \<subseteq># mset (map ic_id xs)"
    using image_mset_subseteq_mono [OF assms(1), of ic_id] by simp
  moreover have "set (peer_commands p') \<subseteq> set xs"
    using set_mset_mono [OF assms(1)] by simp
  ultimately show ?thesis
    using mset_le_distinct assms(2,3) unfolding ids_ok_def by blast
qed

lemma in_step_incoming:
  assumes st: "in_step i chan p q p' q'" and chan: "unat chan < unat (channelCount p)" and c: "is_connected p"
    and p: "incoming_ok n p" and ids: "ids_ok m p'" and wf: "\<forall>c \<in> set (peer_commands p'). incoming_wf c"
  shows "incoming_ok m p'"
proof -
  have fr: "incoming_frame p p'" and cs: "\<exists>c'. channels p' = (channels p)[unat chan := c']"
    using st by (simp_all add: in_step_def)
  have "spare_ok p'"
    using p cs chan by (auto simp: incoming_ok_def spare_ok_def incoming_frame_simps [OF fr])
  then show ?thesis
    using c ids wf incoming_frame_simps(1) [OF fr] by (auto simp: incoming_ok_def is_connected_def)
qed

text \<open>After a new command at most, or none, joined the others.\<close>

lemma in_step_incoming_new:
  assumes st: "in_step i chan p q p' q'" and chan: "unat chan < unat (channelCount p)" and c: "is_connected p"
    and p: "incoming_ok n p"
    and le: "mset (peer_commands p') \<subseteq># add_mset new (mset (peer_commands p))"
    and new: "incoming_wf new" "ic_id new = n"
  shows "incoming_ok (Suc n) p'"
proof (rule in_step_incoming [OF st chan c p])
  show "ids_ok (Suc n) p'"
    by (rule ids_ok_subset [where xs = "new # peer_commands p"])
      (use p le new in \<open>auto simp: incoming_ok_def ids_ok_def\<close>)
  show "\<forall>c \<in> set (peer_commands p'). incoming_wf c"
    using set_mset_mono [OF le] p new(1) by (auto simp: incoming_ok_def)
qed

lemma in_step_incoming_same:
  assumes st: "in_step i chan p q p' q'" and chan: "unat chan < unat (channelCount p)" and c: "is_connected p"
    and p: "incoming_ok n p" and le: "mset (peer_commands p') \<subseteq># mset (peer_commands p)"
  shows "incoming_ok n p'"
proof (rule in_step_incoming [OF st chan c p])
  show "ids_ok n p'"
    by (rule ids_ok_subset [where xs = "peer_commands p"]) (use p le in \<open>auto simp: incoming_ok_def ids_ok_def\<close>)
  show "\<forall>c \<in> set (peer_commands p'). incoming_wf c"
    using set_mset_mono [OF le] p by (auto simp: incoming_ok_def)
qed

lemma in_step_same_status: "in_step i chan p q p' q' \<Longrightarrow> same_status p p'"
  using incoming_frame_simps(1,7) [of p p'] by (simp add: in_step_def same_status_def is_connected_def is_limited_def)

text \<open>The new command of a reliable fragment is still there after the dispatch, with its packet.\<close>

definition started :: "nat \<Rightarrow> u32 \<Rightarrow> size_t \<Rightarrow> peer \<Rightarrow> heap \<Rightarrow> bool" where
  "started ident n len p h \<longleftrightarrow> (\<exists>c pid pk. c \<in> set (peer_commands p) \<and> ic_id c = ident \<and>
     ic_fragmentCount c = n \<and> ic_packet c = Some pid \<and> hp_packets h pid = Some pk \<and> dataLength pk = len)"

lemma incoming_refs_commands: "incoming_refs p = ic_refs (peer_commands p)"
proof -
  have "sum_list (map channel_refs cs) =
      ic_refs (concat (map (\<lambda>c. ch_incomingReliableCommands c @ ch_incomingUnreliableCommands c) cs))" for cs
    by (induction cs) (simp_all add: channel_refs_def add.assoc)
  then show ?thesis
    by (simp add: incoming_refs_def peer_commands_def)
qed

lemma command_packet:
  assumes "refs_ok h (peer_refs p + M)" "c \<in> set (peer_commands p)" "ic_packet c = Some pid"
  shows "\<exists>pk. hp_packets h pid = Some pk"
proof -
  have "pid \<in># ic_refs (peer_commands p)"
    using assms(2,3) by (force simp: ic_refs_def List.map_filter_def)
  then have "pid \<in># peer_refs p + M"
    by (simp add: peer_refs_def incoming_refs_commands)
  then show ?thesis
    using refs_ok_None [OF assms(1), of pid] by (cases "hp_packets h pid") (auto simp: count_eq_zero_iff)
qed

text \<open>Both dispatches, by the place of the command.\<close>

definition dispatch_at :: "place \<Rightarrow> nat \<Rightarrow> u8 \<Rightarrow> peer \<Rightarrow> nat list \<Rightarrow> heap \<Rightarrow> (peer \<times> nat list \<times> heap) option" where
  "dispatch_at pl = (case pl of Place_Reliable _ \<Rightarrow> enet_peer_dispatch_incoming_reliable_commands
     | _ \<Rightarrow> enet_peer_dispatch_incoming_unreliable_commands)"

lemma dispatch_at_ok:
  assumes ok: "refs_ok h (peer_refs p + M)" and c: "channel_at p chan = Some c"
  shows "\<exists>p' q' h'. dispatch_at pl i chan p q h = Some (p', q', h') \<and> refs_ok h' (peer_refs p' + M) \<and>
    in_step i chan p q p' q' \<and> dropped_only c p p' \<and> lengths_kept h h'"
proof -
  have "\<exists>p' q' h'. dispatch_at pl i chan p q h = Some (p', q', h') \<and> refs_ok h' (peer_refs p' + M)"
    using dispatch_reliable_refs [OF ok c, of i q] dispatch_unreliable_refs [OF ok c, of i q]
    by (cases pl) (auto simp: dispatch_at_def)
  then obtain p' q' h' where eq: "dispatch_at pl i chan p q h = Some (p', q', h')" "refs_ok h' (peer_refs p' + M)"
    by blast
  moreover have "in_step i chan p q p' q' \<and> dropped_only c p p' \<and> lengths_kept h h'"
    using eq(1) dispatch_reliable_step [OF c, of i q h p' q' h'] dispatch_unreliable_step [OF c, of i q h p' q' h']
    by (cases pl) (auto simp: dispatch_at_def)
  ultimately show ?thesis
    by blast
qed

text \<open>Queueing on one peer: nothing changed, or the new command is in and dispatched.\<close>

lemma queue_incoming_step:
  assumes c: "channel_at p (p_channelID command) = Some c"
    and data: "case data of None \<Rightarrow> flags AND ENET_PACKET_FLAG_NO_ALLOCATE = 0 | Some bs \<Rightarrow> unat len \<le> length bs"
    and ok: "refs_ok h (peer_refs p + M)" and ids: "ids_ok ident p"
  obtains (same) r h' where "enet_peer_queue_incoming_command mx ident i p command data len flags n q h = Some (r, p, q, h')"
      "refs_ok h' (peer_refs p + M)" "r = Q_Null \<or> r = Q_Dummy \<and> n = 0"
  | (accepted) p' q' h' usn where
      "enet_peer_queue_incoming_command mx ident i p command data len flags n q h = Some (Q_Command ident, p', q', h')"
      "refs_ok h' (peer_refs p' + M)" "in_step i (p_channelID command) p q p' q'"
      "\<exists>pid. mset (peer_commands p') \<subseteq># add_mset (new_incoming ident command usn n pid) (mset (peer_commands p))"
      "command_number command = ENET_PROTOCOL_COMMAND_SEND_FRAGMENT \<Longrightarrow> started ident n len p' h'"
proof -
  from c data ok show thesis
  proof (cases rule: queue_incoming_cases [where mx = mx and ident = ident and i = i and flags = flags
        and n = n and q = q])
    case discarded
    then show thesis
      using same [OF _ ok] by (auto simp: word_gt_0)
  next
    case (refused h1)
    then show thesis
      using same by blast
  next
    case (accepted pid h1)
    define pl where "pl = place_command c command"
    define p1 where "p1 = queued ident pl command n pid len c p"
    have pl: "pl \<noteq> Discard"
      using accepted(2) by (simp add: pl_def)
    have p1: "peer_refs p1 = add_mset pid (peer_refs p)"
        "channel_at p1 (p_channelID command) = Some (insert_incoming pl (\<lambda>usn. new_incoming ident command usn n pid) c)"
        "in_step i (p_channelID command) p q p1 q"
      unfolding p1_def using queued_refs [OF c pl] queued_channel_at [OF c] queued_in_step [OF c] by simp_all
    have "refs_ok h1 (peer_refs p1 + M)"
      using accepted(3) by (simp add: p1(1))
    from dispatch_at_ok [OF this p1(2), of pl i q] obtain p2 q2 h2 where
      d: "dispatch_at pl i (p_channelID command) p1 q h1 = Some (p2, q2, h2)" "refs_ok h2 (peer_refs p2 + M)"
        "in_step i (p_channelID command) p1 q p2 q2" "lengths_kept h1 h2"
        "dropped_only (insert_incoming pl (\<lambda>usn. new_incoming ident command usn n pid) c) p1 p2"
      by blast
    have eq: "enet_peer_queue_incoming_command mx ident i p command data len flags n q h = Some (Q_Command ident, p2, q2, h2)"
      using accepted(5) d(1) by (cases pl) (simp_all add: pl_def p1_def dispatch_at_def)
    obtain usn where usn: "mset (peer_commands p1) \<subseteq># add_mset (new_incoming ident command usn n pid) (mset (peer_commands p))"
      unfolding p1_def using queued_commands [OF c] by blast
    show thesis
    proof (rule that(2) [OF eq d(2) in_step_trans [OF p1(3) d(3)]])
      show "\<exists>pid. mset (peer_commands p2) \<subseteq># add_mset (new_incoming ident command usn n pid) (mset (peer_commands p))"
        using subset_mset.order_trans [OF dropped_only_subset [OF d(5)] usn] by blast
    next
      assume num: "command_number command = ENET_PROTOCOL_COMMAND_SEND_FRAGMENT"
      show "started ident n len p2 h2"
      proof -
        define new where "new = new_incoming ident command 0 n pid"
        obtain k where k: "pl = Place_Reliable k"
          using num pl by (auto simp: pl_def place_command_def Let_def split: option.splits if_splits)
        define c' where "c' = insert_incoming pl (\<lambda>usn. new_incoming ident command usn n pid) c"
        have c': "new \<in> set (ch_incomingReliableCommands c')"
            "ch_incomingUnreliableCommands c' = ch_incomingUnreliableCommands c"
          by (simp_all add: c'_def k insert_incoming_def insert_at_def new_def)
        have c1: "c' \<in> set (channels p1)" and c0: "c \<in> set (channels p)"
          using p1(2) c nth_mem by (auto simp: c'_def channel_at_Some)
        have "set (ch_incomingUnreliableCommands c) \<subseteq> set (peer_commands p)"
          using c0 by (auto simp: peer_commands_def)
        moreover have "ic_id new = ident"
          by (simp add: new_def new_incoming_def)
        ultimately have "new \<notin> set (ch_incomingUnreliableCommands c')"
          using ids unfolding c'(2) ids_ok_def by fastforce
        moreover have "new \<in> set (peer_commands p1)"
          using c'(1) c1 by (auto simp: peer_commands_def)
        ultimately have "new \<in> set (peer_commands p2)"
          using dropped_only_mem [OF d(5)] by (simp add: c'_def)
        moreover from command_packet [OF d(2) this, of pid] obtain pk where "hp_packets h2 pid = Some pk"
          by (auto simp: new_def new_incoming_def)
        moreover from this have "dataLength pk = len"
          using d(4) accepted(6) unfolding lengths_kept_def by fastforce
        ultimately show ?thesis
          unfolding started_def by (intro exI [of _ new]) (auto simp: new_def new_incoming_def)
      qed
    qed
  qed
qed

subsection \<open>Queueing on the host\<close>

lemma queue_incoming_eq:
  assumes "peer_at H i = Some p"
    and "enet_peer_queue_incoming_command (maximumWaitingData H) (ht_ids H) i p command data len flags n
      (dispatchQueue H) (ht_heap H) = Some (r, p', q', h')"
  shows "queue_incoming i command data len flags n H =
    Some (r, set_peer i p' (H\<lparr>dispatchQueue := q', ht_heap := h'\<rparr>)\<lparr>ht_ids := Suc (ht_ids H)\<rparr>)"
  using assms by (simp add: queue_incoming_def on_queue_def set_peer_def)

lemma queue_incoming_ok:
  assumes H: "host_ok M H" "peer_at H i = Some p"
    and conn: "is_connected p" and chan: "ucast (p_channelID command) < channelCount p"
    and data: "case data of None \<Rightarrow> flags AND ENET_PACKET_FLAG_NO_ALLOCATE = 0 | Some bs \<Rightarrow> unat len \<le> length bs"
    and n: "n \<le> ENET_PROTOCOL_MAXIMUM_FRAGMENT_COUNT"
  shows "\<exists>r H' p'. queue_incoming i command data len flags n H = Some (r, H') \<and> host_ok M H' \<and>
    peers_only H H' \<and> peer_at H' i = Some p' \<and> incoming_frame p p' \<and> (r = Q_Dummy \<longrightarrow> n = 0) \<and>
    (\<forall>ident. r = Q_Command ident \<longrightarrow> command_number command = ENET_PROTOCOL_COMMAND_SEND_FRAGMENT \<longrightarrow>
      started ident n len p' (ht_heap H'))"
proof -
  note p = host_okD [OF H]
  have unat_chan: "unat (p_channelID command) < unat (channelCount p)"
    using chan by (simp add: word_less_nat_alt)
  then have "unat (p_channelID command) < length (channels p)"
    using p(1) by (simp add: peer_ok_def)
  then obtain c where c: "channel_at p (p_channelID command) = Some c"
    by (simp add: channel_at_def)
  have ids: "ids_ok (ht_ids H) p"
    using p(2) by (simp add: incoming_ok_def)
  define H' where "H' p' q' h' = set_peer i p' (H\<lparr>dispatchQueue := q', ht_heap := h'\<rparr>)\<lparr>ht_ids := Suc (ht_ids H)\<rparr>" for p' q' h'
  have H': "peers_only H (H' p' q' h')" "peer_at (H' p' q' h') i = Some p'" "ht_heap (H' p' q' h') = h'" for p' q' h'
    using H(2) by (auto simp: H'_def peers_only_def set_peer_def peer_at_Some peer_at_def split: if_splits)
  have ok: "host_ok M (H' p' q' h')" if "peer_ok p'" "incoming_ok (Suc (ht_ids H)) p'" "same_status p p'"
      "queue_step i p (dispatchQueue H) p' q'" "refs_ok h' (peer_refs p' + (other_refs i H + M))" for p' q' h'
    by (rule peer_step_ok [OF H _ that(1)])
      (use that(2-5) in \<open>simp_all add: peer_step_def H'_def set_peer_def same_status_def\<close>)
  from c data p(3) ids show ?thesis
  proof (cases rule: queue_incoming_step [where mx = "maximumWaitingData H" and i = i and flags = flags
        and n = n and q = "dispatchQueue H"])
    case (same r h')
    have "host_ok M (H' p (dispatchQueue H) h')"
      by (rule ok [OF p(1) incoming_ok_mono [OF p(2)]])
        (use same(2) in \<open>simp_all add: same_status_def queue_step_def\<close>)
    then show ?thesis
      using queue_incoming_eq [OF H(2) same(1)] same(3) H' incoming_frame_refl unfolding H'_def [symmetric] by blast
  next
    case (accepted p' q' h' usn)
    obtain pid where le: "mset (peer_commands p') \<subseteq># add_mset (new_incoming (ht_ids H) command usn n pid) (mset (peer_commands p))"
      using accepted(4) ..
    have fr: "incoming_frame p p'" and st: "queue_step i p (dispatchQueue H) p' q'"
      using accepted(3) by (simp_all add: in_step_def)
    have "incoming_ok (Suc (ht_ids H)) p'"
      by (rule in_step_incoming_new [OF accepted(3) unat_chan conn p(2) le new_incoming_wf [OF n]])
        (simp add: new_incoming_def)
    then have "host_ok M (H' p' q' h')"
      using ok in_step_same_status [OF accepted(3)] st accepted(2) incoming_frame_simps(5) [OF fr] p(1) by blast
    moreover have "queue_incoming i command data len flags n H = Some (Q_Command (ht_ids H), H' p' q' h')"
      unfolding H'_def by (rule queue_incoming_eq [OF H(2) accepted(1)])
    ultimately show ?thesis
      using accepted(5) H' fr by auto
  qed
qed

end
