(* ===== verification/Acks_Inv.thy ===== *)
theory Acks_Inv
  imports Peer_State_Inv Protocol_Acks
begin

text \<open>
  Acknowledgements keep the host's invariant and never fail: whatever sequence number, channel
  and time a remote acknowledges, the command that is removed releases its packet exactly once,
  and no packet is touched after it was freed.
\<close>

lemma host_ok_out:
  assumes H: "host_ok M H" "peer_at H i = Some p"
    and fr: "out_frame p p'" and ok: "peer_ok p'"
    and refs: "refs_ok h' (peer_refs p' + (other_refs i H + M))"
  shows "host_ok M (set_peer i p' (H\<lparr>ht_heap := h'\<rparr>))"
proof -
  have "needsDispatch p' = needsDispatch p"
    using fr by (simp add: out_frame_def)
  then show ?thesis
    using host_ok_peer [OF H ok out_frame_incoming [OF fr host_okD(2) [OF H]] _ refs] by simp
qed

text \<open>The same for a change that holds no reference.\<close>

lemma host_ok_settings:
  assumes H: "host_ok M H" "peer_at H i = Some p"
    and fr: "out_frame p p'" and ok: "peer_ok p'" and refs: "peer_refs p' = peer_refs p"
  shows "host_ok M (set_peer i p' H)"
  using host_ok_out [OF H fr ok, of "ht_heap H"] host_okD(3) [OF H] refs by simp

subsection \<open>Removing an acknowledged command\<close>

lemma find_sent_split: "find_sent sn chan cs = Some (prior, c, after) \<Longrightarrow> cs = prior @ c # after"
  by (induction cs arbitrary: prior) (auto split: if_splits)

lemma find_resent_split: "find_resent sn chan cs = Some (prior, c, after) \<Longrightarrow> cs = prior @ c # after"
  by (induction cs arbitrary: prior) (auto split: if_splits)

lemma leave_window_fields:
  "ch_incomingReliableCommands (leave_window sn c) = ch_incomingReliableCommands c"
  "ch_incomingUnreliableCommands (leave_window sn c) = ch_incomingUnreliableCommands c"
  "channel_commands (leave_window sn c) = channel_commands c"
  "channel_refs (leave_window sn c) = channel_refs c" "channel_ok (leave_window sn c) = channel_ok c"
  by (simp_all add: leave_window_def Let_def channel_commands_def channel_refs_def channel_ok_def)

lemma release_sent_some:
  assumes "refs_ok h (oc_refs [oc] + M)"
  shows "\<exists>h'. (case oc_packet oc of None \<Rightarrow> Some h | Some pid \<Rightarrow> release_sent_packet pid h) = Some h' \<and> refs_ok h' M"
  using assms sent.release_some [of h _ M] by (cases "oc_packet oc") auto

lemma leave_channel:
  assumes ok: "peer_ok p"
  shows "\<exists>q. (if ucast chan < channelCount p
      then do { c \<leftarrow> channel_at p chan; Some (set_channel p chan (leave_window sn c)) } else Some p) = Some q \<and>
    out_frame p q \<and> peer_ok q \<and> peer_refs q = peer_refs p"
proof (cases "ucast chan < channelCount p")
  case True
  then have "unat chan < length (channels p)"
    using ok by (simp add: peer_ok_def word_less_nat_alt)
  then obtain c where c: "channel_at p chan = Some c"
    by (simp add: channel_at_def)
  have "out_frame p (set_channel p chan (leave_window sn c))"
    by (rule set_channel_out_frame [OF c leave_window_fields(3)])
  moreover have "peer_ok (set_channel p chan (leave_window sn c))"
    using set_channel_ok [OF ok] channel_at_ok [OF ok c] by (simp add: leave_window_fields)
  moreover have "peer_refs (set_channel p chan (leave_window sn c)) = peer_refs p"
    using set_channel_refs [OF c leave_window_fields(4)] by (simp add: peer_refs_def set_channel_def outgoing_refs_def)
  ultimately show ?thesis
    using True c by simp
qed (simp add: ok)

lemma transit_upd [simp]:
  "out_frame p (q\<lparr>reliableDataInTransit := x\<rparr>) = out_frame p q" "out_frame p (q\<lparr>nextTimeout := t\<rparr>) = out_frame p q"
  "peer_ok (q\<lparr>reliableDataInTransit := x\<rparr>) = peer_ok q" "peer_ok (q\<lparr>nextTimeout := t\<rparr>) = peer_ok q"
  "peer_refs (q\<lparr>reliableDataInTransit := x\<rparr>) = peer_refs q" "peer_refs (q\<lparr>nextTimeout := t\<rparr>) = peer_refs q"
  by (simp_all add: out_frame_def peer_ok_def peer_refs_def outgoing_refs_def incoming_refs_def)

lemma drop_sent_ok:
  assumes ok: "peer_ok p" and refs: "refs_ok h (oc_refs [oc] + (peer_refs p + M))"
  shows "\<exists>n p' h'. drop_sent b sn chan oc p h = Some (n, p', h') \<and> out_frame p p' \<and> peer_ok p' \<and>
    refs_ok h' (peer_refs p' + M)"
proof -
  obtain q where q: "(if ucast chan < channelCount p
      then do { c \<leftarrow> channel_at p chan; Some (set_channel p chan (leave_window sn c)) } else Some p) = Some q"
      "out_frame p q" "peer_ok q" "peer_refs q = peer_refs p"
    using leave_channel [OF ok] by blast
  obtain h' where h': "(case oc_packet oc of None \<Rightarrow> Some h | Some pid \<Rightarrow> release_sent_packet pid h) = Some h'"
      "refs_ok h' (peer_refs p + M)"
    using release_sent_some [OF refs] by blast
  define q1 where "q1 = (if oc_packet oc \<noteq> None \<and> b
    then q\<lparr>reliableDataInTransit := reliableDataInTransit q - ucast (oc_fragmentLength oc)\<rparr> else q)"
  define q2 where "q2 = (case sentReliableCommands q1 of [] \<Rightarrow> q1
    | first # _ \<Rightarrow> q1\<lparr>nextTimeout := oc_sentTime first + oc_roundTripTimeout first\<rparr>)"
  have "out_frame p q2" "peer_ok q2" "peer_refs q2 = peer_refs p"
    using q(2-4) by (simp_all add: q2_def q1_def split: list.split)
  moreover have "drop_sent b sn chan oc p h = Some (command_number (oc_command oc), q2, h')"
    unfolding drop_sent_def q(1) Option.bind.bind_lunit Let_def q1_def [symmetric] h'(1) q2_def ..
  ultimately show ?thesis
    using h'(2) by simp
qed

lemma remove_sent_reliable_ok:
  assumes ok: "peer_ok p" and refs: "refs_ok h (peer_refs p + M)"
  shows "\<exists>n p' h'. enet_protocol_remove_sent_reliable_command p sn chan h = Some (n, p', h') \<and>
    out_frame p p' \<and> peer_ok p' \<and> refs_ok h' (peer_refs p' + M)"
proof -
  have step: "\<exists>n p' h'. drop_sent b sn chan oc q h = Some (n, p', h') \<and> out_frame p p' \<and> peer_ok p' \<and>
      refs_ok h' (peer_refs p' + M)"
    if "out_frame p q" "peer_ok q" "peer_refs p = oc_refs [oc] + peer_refs q" for b oc q
  proof -
    have "refs_ok h (oc_refs [oc] + (peer_refs q + M))"
      using refs that(3) by (simp add: add.assoc)
    from drop_sent_ok [OF that(2) this] show ?thesis
      using out_frame_trans [OF that(1)] by blast
  qed
  show ?thesis
  proof (cases "find_sent sn chan (sentReliableCommands p)")
    case None
    show ?thesis
    proof (cases "find_resent sn chan (outgoingReliableCommands p)")
      case None
      with \<open>find_sent sn chan (sentReliableCommands p) = None\<close> ok refs show ?thesis
        by (simp add: enet_protocol_remove_sent_reliable_command_def)
    next
      case (Some r)
      obtain prior oc after where r: "r = (prior, oc, after)"
        by (rule prod_cases3)
      have "outgoingReliableCommands p = prior @ oc # after"
        using find_resent_split Some r by blast
      then show ?thesis
        using step [of "p\<lparr>outgoingReliableCommands := prior @ after\<rparr>" oc False] None Some r ok
        by (simp add: enet_protocol_remove_sent_reliable_command_def out_frame_def peer_ok_def peer_refs_def
            outgoing_refs_def incoming_refs_def ac_simps oc_refs_simps(2) [of oc after])
    qed
  next
    case (Some r)
    obtain prior oc after where r: "r = (prior, oc, after)"
      by (rule prod_cases3)
    have "sentReliableCommands p = prior @ oc # after"
      using find_sent_split Some r by blast
    then show ?thesis
      using step [of "p\<lparr>sentReliableCommands := prior @ after\<rparr>" oc True] Some r ok
      by (simp add: enet_protocol_remove_sent_reliable_command_def out_frame_def peer_ok_def peer_refs_def
          outgoing_refs_def incoming_refs_def ac_simps oc_refs_simps(2) [of oc after])
  qed
qed

lemma remove_sent_host_ok:
  assumes H: "host_ok M H" "peer_at H i = Some p"
  shows "\<exists>n p' H'. on_peer i (\<lambda>p. enet_protocol_remove_sent_reliable_command p sn chan) H = Some (n, H') \<and>
    host_ok M H' \<and> peers_only H H' \<and> peer_at H' i = Some p' \<and> out_frame p p'"
proof -
  obtain n p' h' where r: "enet_protocol_remove_sent_reliable_command p sn chan (ht_heap H) = Some (n, p', h')"
      "out_frame p p'" "peer_ok p'" "refs_ok h' (peer_refs p' + (other_refs i H + M))"
    using remove_sent_reliable_ok [OF host_okD(1,3) [OF H]] by blast
  have "on_peer i (\<lambda>p. enet_protocol_remove_sent_reliable_command p sn chan) H =
      Some (n, set_peer i p' (H\<lparr>ht_heap := h'\<rparr>))"
    by (rule on_peer_Some [OF H(2)]) (rule r(1))
  then show ?thesis
    using host_ok_out [OF H r(2-4)] r(2) peers_only_upd(4) peer_at_set(2) [OF H(2)] by blast
qed

subsection \<open>Acknowledgements\<close>

text \<open>The throttle, the round trip time and the epoch are settings of the peer.\<close>

definition timing_frame :: "peer \<Rightarrow> peer \<Rightarrow> bool" where
  "timing_frame p p' \<longleftrightarrow> out_frame p p' \<and> (peer_ok p \<longrightarrow> peer_ok p') \<and> peer_refs p' = peer_refs p"

lemma timing_frame_trans: "timing_frame p q \<Longrightarrow> timing_frame q r \<Longrightarrow> timing_frame p r"
  using out_frame_trans by (auto simp: timing_frame_def)

lemma throttle_frame: "timing_frame p (snd (enet_peer_throttle p rtt))"
proof -
  have sub: "a - b \<le> a" if "b < a" for a b :: u32
    using that unat_sub [of b a] by (simp add: word_le_nat_alt word_less_nat_alt)
  have "packetThrottle p - packetThrottleDeceleration p \<le> packetThrottleLimit p"
    if "packetThrottleDeceleration p < packetThrottle p" "packetThrottle p \<le> packetThrottleLimit p"
    using sub [OF that(1)] that(2) by (rule order_trans)
  then show ?thesis
    by (auto simp: timing_frame_def enet_peer_throttle_def Let_def out_frame_def peer_ok_def peer_refs_def
        outgoing_refs_def incoming_refs_def)
qed

lemma smooth_frame: "timing_frame p (smooth_round_trip rtt p)"
  by (auto simp: timing_frame_def smooth_round_trip_def Let_def out_frame_def peer_ok_def peer_refs_def
      outgoing_refs_def incoming_refs_def)

lemma epoch_frame: "timing_frame p (throttle_epoch now p)"
  by (auto simp: timing_frame_def throttle_epoch_def Let_def out_frame_def peer_ok_def peer_refs_def
      outgoing_refs_def incoming_refs_def)

lemma received_frame: "timing_frame p (p\<lparr>lastReceiveTime := now, earliestTimeout := 0\<rparr>)"
  by (auto simp: timing_frame_def out_frame_def peer_ok_def peer_refs_def outgoing_refs_def incoming_refs_def)

lemma acknowledged_frame: "timing_frame p (acknowledged_peer now sent p)"
  unfolding acknowledged_peer_def Let_def
  by (rule timing_frame_trans [OF received_frame timing_frame_trans [OF throttle_frame
        timing_frame_trans [OF smooth_frame epoch_frame]]])

lemma timing_host_ok:
  assumes H: "host_ok M H" "peer_at H i = Some p" and fr: "timing_frame p p'"
  shows "host_ok M (set_peer i p' H)"
  by (rule host_ok_settings [OF H]) (use fr host_okD(1) [OF H] in \<open>simp_all add: timing_frame_def\<close>)

lemma handle_acknowledge_ok:
  assumes H: "host_ok M H" "peer_at H i = Some p"
  shows "\<exists>r e' H'. enet_protocol_handle_acknowledge e i chan sn t H = Some (r, e', H') \<and>
    host_ok M H' \<and> peers_only H H'"
proof -
  define sent where "sent = complete_time (serviceTime H) t"
  show ?thesis
  proof (cases "state p = DISCONNECTED \<or> state p = ZOMBIE \<or> enet_time_less (serviceTime H) sent")
    case True
    then show ?thesis
      using H by (simp add: enet_protocol_handle_acknowledge_def sent_def)
  next
    case False
    define H1 where "H1 = set_peer i (acknowledged_peer (serviceTime H) sent p) H"
    have H1: "host_ok M H1" "peer_at H1 i = Some (acknowledged_peer (serviceTime H) sent p)" "peers_only H H1"
      unfolding H1_def using timing_host_ok [OF H acknowledged_frame] peer_at_set(1) [OF H(2)] by simp_all
    obtain n p2 H2 where H2: "on_peer i (\<lambda>p. enet_protocol_remove_sent_reliable_command p sn chan) H1 = Some (n, H2)"
        "host_ok M H2" "peers_only H1 H2" "peer_at H2 i = Some p2"
      using remove_sent_host_ok [OF H1(1,2)] by blast
    have po: "peers_only H H2"
      by (rule peers_only_trans [OF H1(3) H2(3)])
    have eq: "enet_protocol_handle_acknowledge e i chan sn t H =
      (case state p2 of
          ACKNOWLEDGING_CONNECT \<Rightarrow>
            if n \<noteq> ENET_PROTOCOL_COMMAND_VERIFY_CONNECT then Some (-1, e, H2)
            else do { (event, H) \<leftarrow> enet_protocol_notify_connect i e H2; Some (0, event, H) }
        | DISCONNECTING \<Rightarrow>
            if n \<noteq> ENET_PROTOCOL_COMMAND_DISCONNECT then Some (-1, e, H2)
            else do { (event, H) \<leftarrow> enet_protocol_notify_disconnect i e H2; Some (0, event, H) }
        | DISCONNECT_LATER \<Rightarrow>
            if outgoingReliableCommands p2 = [] \<and> outgoingUnreliableCommands p2 = [] \<and>
               sentReliableCommands p2 = []
            then do { H \<leftarrow> disconnect_connected i (eventData p2) H2; Some (0, e, H) }
            else Some (0, e, H2)
        | _ \<Rightarrow> Some (0, e, H2))"
      unfolding enet_protocol_handle_acknowledge_def H(2) Option.bind.bind_lunit sent_def [symmetric] Let_def
        if_not_P [OF False] H1_def [symmetric] H2(1) prod.case H2(4) ..
    obtain e3 H3 where H3: "enet_protocol_notify_connect i e H2 = Some (e3, H3)" "host_ok M H3" "peers_only H H3"
      using notify_connect_ok [OF H2(2,4), of e] peers_only_trans [OF po] by blast
    obtain e4 H4 where H4: "enet_protocol_notify_disconnect i e H2 = Some (e4, H4)" "host_ok M H4" "peers_only H H4"
      using notify_disconnect_ok [OF H2(2,4), of e] peers_only_trans [OF po] by blast
    have later: "\<exists>H5. disconnect_connected i (eventData p2) H2 = Some H5 \<and> host_ok M H5 \<and> peers_only H H5"
      if "state p2 = DISCONNECT_LATER"
      using disconnect_connected_ok [OF H2(2,4), of "eventData p2"] that peers_only_trans [OF po]
      by (auto simp: is_connected_def)
    show ?thesis
      unfolding eq using H2(2) H3 H4 later po by (auto split: peer_state.split)
  qed
qed

end
