(* ===== verification/Connect_Inv.thy ===== *)
theory Connect_Inv
  imports Acks_Inv Protocol_Connect
begin

text \<open>
  The handshake and the settings keep the host's invariant and never fail, whatever the remote
  asks for: the negotiated sizes stay in their bounds, the counters follow the peer's state and
  bandwidth, and a peer that is taken into use had no queues left.
\<close>

subsection \<open>Negotiated values\<close>

lemma clamp_bounds: "lo \<le> hi \<Longrightarrow> lo \<le> clamp lo hi x \<and> clamp lo hi x \<le> (hi :: 'a :: linorder)"
  by (auto simp: clamp_def not_less)

lemma clamp_mtu_bounds: "ENET_PROTOCOL_MINIMUM_MTU \<le> clamp_mtu x" "clamp_mtu x \<le> ENET_PROTOCOL_MAXIMUM_MTU"
  using clamp_bounds [of ENET_PROTOCOL_MINIMUM_MTU ENET_PROTOCOL_MAXIMUM_MTU x]
  by (simp_all add: clamp_mtu_def enet_consts)

lemma clamp_window_bounds:
  "ENET_PROTOCOL_MINIMUM_WINDOW_SIZE \<le> clamp_window x" "clamp_window x \<le> ENET_PROTOCOL_MAXIMUM_WINDOW_SIZE"
  using clamp_bounds [of ENET_PROTOCOL_MINIMUM_WINDOW_SIZE ENET_PROTOCOL_MAXIMUM_WINDOW_SIZE x]
  by (simp_all add: clamp_window_def enet_consts)

lemma outgoing_window_bounds:
  "ENET_PROTOCOL_MINIMUM_WINDOW_SIZE \<le> outgoing_window a b" "outgoing_window a b \<le> ENET_PROTOCOL_MAXIMUM_WINDOW_SIZE"
  unfolding outgoing_window_def by (rule clamp_window_bounds)+

lemma sum_list_replicate_empty [simp]: "sum_list (replicate n {#}) = {#}"
  by (induction n) simp_all

subsection \<open>Connect\<close>

lemma scan_peers_free:
  "scan_peers addr cid ps n free dups = Some (Some i, k) \<Longrightarrow>
    free = Some i \<or> (n \<le> i \<and> i < n + length ps \<and> state (ps ! (i - n)) = DISCONNECTED)"
proof (induction ps arbitrary: n free dups)
  case (Cons p ps)
  have nth: "(p # ps) ! (i - n) = ps ! (i - Suc n)" if "Suc n \<le> i"
    using that by (simp add: nth_Cons Suc_diff_le split: nat.split) (metis Suc_diff_Suc Suc_le_lessD nat.inject)
  show ?case
  proof (cases "state p = DISCONNECTED")
    case True
    then show ?thesis
      using Cons.IH [of "Suc n" "if free = None then Some n else free" dups] Cons.prems nth
      by (auto split: if_splits)
  next
    case False
    then have "scan_peers addr cid ps (Suc n) free dups = Some (Some i, k) \<or>
        scan_peers addr cid ps (Suc n) free (dups + 1) = Some (Some i, k)"
      using Cons.prems by (auto split: if_splits)
    then show ?thesis
      using Cons.IH [of "Suc n" free] nth by (fastforce dest: Suc_leD)
  qed
qed simp

lemma fresh_channel_simps [simp]:
  "channel_refs fresh_channel = {#}" "channel_ok fresh_channel"
  "ch_incomingReliableCommands fresh_channel = []" "ch_incomingUnreliableCommands fresh_channel = []"
  by (simp_all add: fresh_channel_def channel_refs_def channel_ok_def enet_consts)

lemma connecting_peer_ok:
  assumes p: "peer_ok p" "incoming_ok n p" "state p = DISCONNECTED" and chans: "chans \<le> ENET_PROTOCOL_MAXIMUM_CHANNEL_COUNT"
  shows "peer_ok (connecting_peer H c chans p)" "incoming_ok n (connecting_peer H c chans p)"
    "same_status p (connecting_peer H c chans p)" "peer_refs (connecting_peer H c chans p) = peer_refs p"
    "needsDispatch (connecting_peer H c chans p) = needsDispatch p"
proof -
  have none: "channels p = []"
    using p(2,3) by (simp add: incoming_ok_def)
  show "peer_ok (connecting_peer H c chans p)"
    using p(1) chans clamp_mtu_bounds outgoing_window_bounds
    by (simp add: peer_ok_def connecting_peer_def Let_def)
  have "peer_commands (connecting_peer H c chans p) = peer_commands p"
    by (simp add: connecting_peer_def Let_def peer_commands_def none concat_replicate_trivial)
  then show "incoming_ok n (connecting_peer H c chans p)"
    using p(2) by (simp add: incoming_ok_def ids_ok_def spare_ok_def connecting_peer_def Let_def empty_channels_def)
  show "same_status p (connecting_peer H c chans p)"
    by (simp add: same_status_def is_connected_def is_limited_def p(3) connecting_peer_def Let_def)
  show "peer_refs (connecting_peer H c chans p) = peer_refs p"
    by (simp add: peer_refs_def outgoing_refs_def incoming_refs_def none connecting_peer_def Let_def)
  show "needsDispatch (connecting_peer H c chans p) = needsDispatch p"
    by (simp add: connecting_peer_def Let_def)
qed

lemma malloc_host_ok:
  assumes "enet_malloc (ht_heap H) = (b, h)" "host_ok M H"
  shows "host_ok M (H\<lparr>ht_heap := h\<rparr>)"
  using refs_ok_cong [of h "ht_heap H"] enet_malloc_packets [OF assms(1)] assms(2)
  by (simp add: host_ok_def host_refs_def)

lemma handle_connect_ok:
  assumes H: "host_ok M H"
  shows "\<exists>r H'. enet_protocol_handle_connect c H = Some (r, H') \<and> host_ok M H' \<and> peers_only H H' \<and>
    (\<forall>i. r = Some i \<longrightarrow> i < length (ht_peers H))"
proof -
  define chans where "chans = (let n = (ucast (cn_channelCount c) :: size_t)
    in if n > channelLimit H then channelLimit H else n)"
  define n where "n = (ucast (cn_channelCount c) :: size_t)"
  consider (refused) "enet_protocol_handle_connect c H = Some (None, H)"
    | (free) i k where "n \<le> ENET_PROTOCOL_MAXIMUM_CHANNEL_COUNT"
        "scan_peers (receivedAddress H) (cn_connectID c) (ht_peers H) 0 None 0 = Some (Some i, k)"
        "enet_protocol_handle_connect c H =
          (let (ok, h) = enet_malloc (ht_heap H);
               H = H\<lparr>ht_heap := h\<rparr>
           in if \<not> ok then Some (None, H)
              else do {
                peer \<leftarrow> peer_at H i;
                let peer = connecting_peer H c chans peer;
                (_, H) \<leftarrow> queue_command i (verify_command H c peer) (set_peer i peer H);
                Some (Some i, H) })"
  proof (cases "n < ENET_PROTOCOL_MINIMUM_CHANNEL_COUNT \<or> n > ENET_PROTOCOL_MAXIMUM_CHANNEL_COUNT")
    case True
    then show thesis
      using refused by (simp add: enet_protocol_handle_connect_def n_def Let_def)
  next
    case False
    note eq = enet_protocol_handle_connect_def [of c H, unfolded Let_def, folded n_def, unfolded if_not_P [OF False]]
    have le: "n \<le> ENET_PROTOCOL_MAXIMUM_CHANNEL_COUNT"
      using False by (simp add: not_less)
    show thesis
    proof (cases "scan_peers (receivedAddress H) (cn_connectID c) (ht_peers H) 0 None 0")
      case None
      then show thesis
        using refused by (simp add: eq)
    next
      case (Some r)
      obtain i k where r: "r = (i, k)"
        by (cases r)
      show thesis
      proof (cases "i = None \<or> k \<ge> duplicatePeers H")
        case True
        then show thesis
          using refused Some r by (cases i) (simp_all add: eq)
      next
        case False
        then obtain j where j: "i = Some j" "\<not> k \<ge> duplicatePeers H"
          by auto
        have chans: "chans = (if n > channelLimit H then channelLimit H else n)"
          by (simp add: chans_def n_def Let_def)
        show thesis
          by (rule free [OF le, of j k]) (use Some r j in \<open>simp_all add: eq, simp add: chans Let_def split: prod.split\<close>)
      qed
    qed
  qed
  then show ?thesis
  proof cases
    case refused
    then show ?thesis
      using H by simp
  next
    case (free i k)
    obtain ok h where m: "enet_malloc (ht_heap H) = (ok, h)"
      by (cases "enet_malloc (ht_heap H)")
    define H1 where "H1 = H\<lparr>ht_heap := h\<rparr>"
    have H1: "host_ok M H1" "peers_only H H1"
      unfolding H1_def using malloc_host_ok [OF m H] by simp_all
    show ?thesis
    proof (cases ok)
      case False
      then show ?thesis
        using free(3) m H1 by (simp add: H1_def)
    next
      case True
      have i: "i < length (ht_peers H)" "state (ht_peers H ! i) = DISCONNECTED"
        using scan_peers_free [OF free(2)] by auto
      define p where "p = ht_peers H ! i"
      have p: "peer_at H1 i = Some p" "state p = DISCONNECTED" "peer_at H i = Some p"
        using i by (simp_all add: H1_def p_def peer_at_Some)
      have chans: "chans \<le> ENET_PROTOCOL_MAXIMUM_CHANNEL_COUNT"
        using free(1) by (auto simp: chans_def n_def Let_def)
      define p' where "p' = connecting_peer H1 c chans p"
      note ok' = connecting_peer_ok [OF host_okD(1,2) [OF H1(1) p(1)] p(2) chans, of H1 c, folded p'_def]
      have H2: "host_ok M (set_peer i p' H1)" "peer_at (set_peer i p' H1) i = Some p'"
        using host_ok_peer [OF H1(1) p(1) ok'(1-3,5), of "ht_heap H1"] host_okD(3) [OF H1(1) p(1)] ok'(4)
          peer_at_set(1) [OF p(1)] by simp_all
      have "p_channelID (verify_command H1 c p') = 0xFF"
        by (simp add: verify_command_def command_of_def)
      from queue_command_ok [OF H2 this] obtain b H3 where
        H3: "queue_command i (verify_command H1 c p') (set_peer i p' H1) = Some (b, H3)" "host_ok M H3"
          "peers_only (set_peer i p' H1) H3"
        by blast
      have "enet_protocol_handle_connect c H = Some (Some i, H3)"
        using free(3) m True p(3) H3(1) by (simp add: H1_def [symmetric] p'_def Let_def)
      moreover have "peers_only H H3"
        by (rule peers_only_trans [OF H1(2) peers_only_trans [OF peers_only_upd(1) H3(3)]])
      ultimately show ?thesis
        using H3(2) i(1) by simp
    qed
  qed
qed

subsection \<open>Verification of a connect\<close>

lemma verified_peer_ok:
  assumes p: "peer_ok p" "incoming_ok n p" "state p = CONNECTING"
  shows "peer_ok (verified_peer c p)" "incoming_ok n (verified_peer c p)" "same_status p (verified_peer c p)"
    "peer_refs (verified_peer c p) = peer_refs p" "needsDispatch (verified_peer c p) = needsDispatch p"
proof -
  have "unat (channelCount (verified_peer c p)) \<le> unat (channelCount p)"
    by (simp add: verified_peer_def Let_def word_less_nat_alt)
  then have "peer_ok p \<Longrightarrow> unat (channelCount (verified_peer c p)) \<le> length (channels p) \<and>
      channelCount (verified_peer c p) \<le> ENET_PROTOCOL_MAXIMUM_CHANNEL_COUNT"
    by (auto simp: peer_ok_def word_le_nat_alt intro: order_trans)
  then show "peer_ok (verified_peer c p)"
    using p(1) clamp_mtu_bounds [of "vc_mtu c"] clamp_window_bounds [of "vc_windowSize c"]
    by (auto simp: peer_ok_def verified_peer_def Let_def)
  have "empty_channels (channels p)"
    using p(2,3) by (simp add: incoming_ok_def)
  then have "spare_ok (verified_peer c p)"
    by (auto simp: spare_ok_def empty_channels_def verified_peer_def Let_def dest: in_set_dropD)
  moreover have "peer_commands (verified_peer c p) = peer_commands p" "channels (verified_peer c p) = channels p"
    "state (verified_peer c p) = state p"
    by (simp_all add: peer_commands_def verified_peer_def Let_def)
  ultimately show "incoming_ok n (verified_peer c p)"
    using p(2) by (simp add: incoming_ok_def ids_ok_def)
  show "same_status p (verified_peer c p)"
    by (simp add: same_status_def is_connected_def is_limited_def p(3) verified_peer_def Let_def)
  show "peer_refs (verified_peer c p) = peer_refs p"
    by (simp add: peer_refs_def outgoing_refs_def incoming_refs_def verified_peer_def Let_def)
  show "needsDispatch (verified_peer c p) = needsDispatch p"
    by (simp add: verified_peer_def Let_def)
qed

lemma handle_verify_connect_ok:
  assumes H: "host_ok M H" "peer_at H i = Some p"
  shows "\<exists>r e' H'. enet_protocol_handle_verify_connect e i c H = Some (r, e', H') \<and> host_ok M H' \<and> peers_only H H'"
proof -
  consider "state p \<noteq> CONNECTING" | "state p = CONNECTING" "verify_mismatch c p"
    | "state p = CONNECTING" "\<not> verify_mismatch c p"
    by blast
  then show ?thesis
  proof cases
    case 1
    then show ?thesis
      using H by (simp add: enet_protocol_handle_verify_connect_def)
  next
    case 2
    have H1: "host_ok M (set_peer i (p\<lparr>eventData := 0\<rparr>) H)"
        "peer_at (set_peer i (p\<lparr>eventData := 0\<rparr>) H) i = Some (p\<lparr>eventData := 0\<rparr>)"
      using event_data_ok [OF H] peer_at_set(1) [OF H(2)] by simp_all
    from dispatch_state_ok [OF this, of ZOMBIE] obtain H2 where
      "enet_protocol_dispatch_state i ZOMBIE (set_peer i (p\<lparr>eventData := 0\<rparr>) H) = Some H2" "host_ok M H2"
      "peers_only (set_peer i (p\<lparr>eventData := 0\<rparr>) H) H2"
      by auto
    then show ?thesis
      using 2 H(2) peers_only_trans [OF peers_only_upd(1)] by (simp add: enet_protocol_handle_verify_connect_def)
  next
    case 3
    obtain n p1 H1 where H1: "on_peer i (\<lambda>p. enet_protocol_remove_sent_reliable_command p 1 0xFF) H = Some (n, H1)"
        "host_ok M H1" "peers_only H H1" "peer_at H1 i = Some p1" "out_frame p p1"
      using remove_sent_host_ok [OF H] by blast
    have st: "state p1 = CONNECTING"
      using H1(5) 3(1) by (simp add: out_frame_def)
    define H2 where "H2 = set_peer i (verified_peer c p1) H1"
    note ok2 = verified_peer_ok [OF host_okD(1,2) [OF H1(2,4)] st, of c]
    have H2: "host_ok M H2" "peer_at H2 i = Some (verified_peer c p1)" "peers_only H1 H2"
      unfolding H2_def using host_ok_peer [OF H1(2,4) ok2(1-3,5), of "ht_heap H1"] host_okD(3) [OF H1(2,4)] ok2(4)
        peer_at_set(1) [OF H1(4)] by simp_all
    obtain e' H3 where H3: "enet_protocol_notify_connect i e H2 = Some (e', H3)" "host_ok M H3" "peers_only H2 H3"
      using notify_connect_ok [OF H2(1,2)] by blast
    have "enet_protocol_handle_verify_connect e i c H = Some (0, e', H3)"
      using 3 H(2) H1(1,4) H3(1) by (simp add: enet_protocol_handle_verify_connect_def update_peer_def H2_def)
    then show ?thesis
      using H3(2) peers_only_trans [OF H1(3) peers_only_trans [OF H2(3) H3(3)]] by blast
  qed
qed

subsection \<open>Settings\<close>

lemma handle_ping_ok:
  "peer_at H i = Some p \<Longrightarrow> \<exists>r. enet_protocol_handle_ping i H = Some (r, H)"
  by (simp add: enet_protocol_handle_ping_def)

lemma handle_bandwidth_limit_ok:
  assumes H: "host_ok M H" "peer_at H i = Some p"
  shows "\<exists>r H'. enet_protocol_handle_bandwidth_limit i inb outb H = Some (r, H') \<and> host_ok M H' \<and> peers_only H H'"
proof (cases "is_connected p")
  case False
  then show ?thesis
    using H by (simp add: enet_protocol_handle_bandwidth_limit_def is_connected_def)
next
  case True
  note p = host_okD [OF H]
  define p' where "p' = p\<lparr>incomingBandwidth := inb, outgoingBandwidth := outb,
    windowSize := outgoing_window (ht_outgoingBandwidth H) inb\<rparr>"
  define n where "n = bandwidthLimitedPeers H + (if inb \<noteq> 0 then 1 else 0) - (if incomingBandwidth p \<noteq> 0 then 1 else 0)"
  define H' where "H' = set_peer i p' (H\<lparr>bandwidthLimitedPeers := n\<rparr>)"
  have "enet_protocol_handle_bandwidth_limit i inb outb H = Some (0, H')"
    using True H(2) by (auto simp: enet_protocol_handle_bandwidth_limit_def is_connected_def H'_def p'_def n_def Let_def)
  moreover have "host_ok M H'"
  proof (rule peer_step_ok [OF H])
    show "peer_step i p p' H H'"
      using True by (simp add: peer_step_def H'_def p'_def set_peer_def n_def queue_step_def is_connected_def is_limited_def)
    show "peer_ok p'"
      using p(1) outgoing_window_bounds by (simp add: p'_def peer_ok_def)
    show "incoming_ok (ht_ids H') p'"
      using p(2) by (simp add: p'_def H'_def incoming_ok_def spare_ok_def ids_ok_def peer_commands_def)
    show "refs_ok (ht_heap H') (peer_refs p' + (other_refs i H + M))"
      using p(3) by (simp add: p'_def H'_def peer_refs_def outgoing_refs_def incoming_refs_def)
  qed
  moreover have "peers_only H H'"
    by (simp add: peers_only_def H'_def set_peer_def)
  ultimately show ?thesis
    by blast
qed

lemma handle_throttle_configure_ok:
  assumes H: "host_ok M H" "peer_at H i = Some p"
  shows "\<exists>r H'. enet_protocol_handle_throttle_configure i t a d H = Some (r, H') \<and> host_ok M H' \<and> peers_only H H'"
proof -
  have "host_ok M (set_peer i (p\<lparr>packetThrottleInterval := t, packetThrottleAcceleration := a,
      packetThrottleDeceleration := d\<rparr>) H)"
    by (rule host_ok_settings [OF H])
      (use host_okD(1) [OF H] in \<open>simp_all add: out_frame_def peer_ok_def peer_refs_def outgoing_refs_def incoming_refs_def\<close>)
  then show ?thesis
    using H by (simp add: enet_protocol_handle_throttle_configure_def)
qed

subsection \<open>The remote's disconnect\<close>

lemma handle_disconnect_ok:
  assumes H: "host_ok M H" "peer_at H i = Some p"
  shows "\<exists>r H'. enet_protocol_handle_disconnect i ack d H = Some (r, H') \<and> host_ok M H' \<and> peers_only H H'"
proof (cases "state p = DISCONNECTED \<or> state p = ZOMBIE \<or> state p = ACKNOWLEDGING_DISCONNECT")
  case True
  then show ?thesis
    using H by (auto simp: enet_protocol_handle_disconnect_def)
next
  case False
  obtain H1 where H1: "on_queue i (enet_peer_reset_queues i) H = Some ((), H1)" "host_ok M H1" "peers_only H H1"
      "peer_at H1 i = Some (emptied p)"
    using on_queue_reset_ok [OF H] by blast
  define H1' where "H1' = (if state p = CONNECTION_PENDING then H1\<lparr>recalculateBandwidthLimits := True\<rparr> else H1)"
  have H1': "host_ok M H1'" "peers_only H H1'" "peer_at H1' i = Some (emptied p)"
    using H1(2-4) peers_only_trans [OF H1(3) peers_only_upd(2)] by (simp_all add: H1'_def)
  define op where "op = (if state p = CONNECTION_SUCCEEDED \<or> state p = DISCONNECTING \<or> state p = CONNECTING
            then enet_protocol_dispatch_state i ZOMBIE H1
            else if state p \<noteq> CONNECTED \<and> state p \<noteq> DISCONNECT_LATER then enet_peer_reset i H1'
            else if ack then enet_protocol_change_state i ACKNOWLEDGING_DISCONNECT H1
            else enet_protocol_dispatch_state i ZOMBIE H1)"
  have "\<exists>H2 p2. op = Some H2 \<and> host_ok M H2 \<and> peers_only H H2 \<and> peer_at H2 i = Some p2"
    using dispatch_state_ok [OF H1(2,4), of ZOMBIE] change_state_ok [OF H1(2,4), of ACKNOWLEDGING_DISCONNECT]
      peer_reset_ok [OF H1'(1,3)] peers_only_trans [OF H1(3)] peers_only_trans [OF H1'(2)]
    by (auto simp: op_def)
  then obtain H2 p2 where H2: "op = Some H2" "host_ok M H2" "peers_only H H2" "peer_at H2 i = Some p2"
    by blast
  have "enet_protocol_handle_disconnect i ack d H =
      Some (0, if state p2 \<noteq> DISCONNECTED then set_peer i (p2\<lparr>eventData := d\<rparr>) H2 else H2)"
    unfolding enet_protocol_handle_disconnect_def H(2) Option.bind.bind_lunit if_not_P [OF False] H1(1) prod.case
      H1'_def [symmetric] op_def [symmetric] H2(1,4) ..
  moreover have "host_ok M (set_peer i (p2\<lparr>eventData := d\<rparr>) H2)"
    by (rule event_data_ok [OF H2(2,4)])
  ultimately show ?thesis
    using H2(2,3) peers_only_trans [OF H2(3) peers_only_upd(1)] by simp
qed

end
