(* ===== verification/Data_Inv.thy ===== *)
theory Data_Inv
  imports Incoming_Inv Connect_Inv
begin

text \<open>
  The commands that carry data keep the host's invariant and never fail: payloads are read
  inside the received datagram, fragments are written inside the packet that collects them, and
  the bit of a fragment lies inside the command's bits.
\<close>

definition received_ok :: "host \<Rightarrow> bool" where
  "received_ok H \<longleftrightarrow> unat (receivedDataLength H) \<le> length (receivedData H)"

lemma received_ok_peers_only: "peers_only H H' \<Longrightarrow> received_ok H' = received_ok H"
  by (simp add: received_ok_def peers_only_simps)

lemma can_receive_connected:
  "can_receive p chan \<Longrightarrow> is_connected p" "can_receive p chan \<Longrightarrow> ucast chan < channelCount p"
  by (simp_all add: can_receive_def is_connected_def not_le)

subsection \<open>Whole packets\<close>

lemma queue_data_ok:
  assumes H: "host_ok M H" "peer_at H i = Some p" and chan: "is_connected p" "ucast (p_channelID command) < channelCount p"
    and len: "cur + unat len \<le> length (receivedData H)"
  shows "\<exists>r H' p'. queue_data i command cur len flags H = Some (r, H') \<and> host_ok M H' \<and> peers_only H H' \<and>
    peer_at H' i = Some p' \<and> incoming_frame p p'"
proof -
  have "case Some (map Some (drop cur (receivedData H))) of
      None \<Rightarrow> flags AND ENET_PACKET_FLAG_NO_ALLOCATE = 0 | Some bs \<Rightarrow> unat (ucast len :: size_t) \<le> length bs"
    using len by simp
  from queue_incoming_ok [OF H chan this, of 0] show ?thesis
    by (fastforce simp: queue_data_def)
qed

lemma data_fits_length:
  "received_ok H \<Longrightarrow> data_fits H cur len \<Longrightarrow> cur + unat len \<le> length (receivedData H)"
  by (simp add: received_ok_def data_fits_def)

lemma handle_send_reliable_ok:
  assumes H: "host_ok M H" "peer_at H i = Some p" and rc: "received_ok H"
  shows "\<exists>r cur' H'. enet_protocol_handle_send_reliable i command len cur H = Some (r, cur', H') \<and>
    host_ok M H' \<and> peers_only H H' \<and> (r = 0 \<longrightarrow> cur' = cur + unat len)"
proof (cases "\<not> can_receive p (p_channelID command) \<or> \<not> data_fits H cur len")
  case True
  then show ?thesis
    using H by (auto simp: enet_protocol_handle_send_reliable_def)
next
  case False
  then show ?thesis
    using queue_data_ok [OF H can_receive_connected data_fits_length [OF rc], of "p_channelID command" command cur len
        ENET_PACKET_FLAG_RELIABLE] H(2)
    by (auto simp: enet_protocol_handle_send_reliable_def)
qed

lemma handle_send_unreliable_ok:
  assumes H: "host_ok M H" "peer_at H i = Some p" and rc: "received_ok H"
  shows "\<exists>r cur' H'. enet_protocol_handle_send_unreliable i command len cur H = Some (r, cur', H') \<and>
    host_ok M H' \<and> peers_only H H' \<and> (r = 0 \<longrightarrow> cur' = cur + unat len)"
proof (cases "\<not> can_receive p (p_channelID command) \<or> \<not> data_fits H cur len")
  case True
  then show ?thesis
    using H by (auto simp: enet_protocol_handle_send_unreliable_def)
next
  case False
  then show ?thesis
    using queue_data_ok [OF H can_receive_connected data_fits_length [OF rc], of "p_channelID command" command cur len 0] H(2)
    by (auto simp: enet_protocol_handle_send_unreliable_def)
qed

subsection \<open>Unsequenced commands\<close>

lemma enter_unsequenced_shape:
  "\<exists>late moved dup n g. enter_unsequenced grp p =
     (if late then None
      else if moved then Some (n, p\<lparr>incomingUnsequencedGroup := g,
        unsequencedWindow := replicate (length (unsequencedWindow p)) 0\<rparr>)
      else if dup then None else Some (n, p))"
  unfolding enter_unsequenced_def Let_def by (intro exI) (rule refl)

text \<open>What the unsequenced window does not touch.\<close>

definition window_frame :: "peer \<Rightarrow> peer \<Rightarrow> bool" where
  "window_frame p p' \<longleftrightarrow> timing_frame p p' \<and> length (unsequencedWindow p') = length (unsequencedWindow p) \<and>
     channelCount p' = channelCount p \<and> is_connected p' = is_connected p"

lemma window_frame_reset:
  "window_frame p (p\<lparr>incomingUnsequencedGroup := g, unsequencedWindow := replicate (length (unsequencedWindow p)) 0\<rparr>)"
  by (simp add: window_frame_def timing_frame_def out_frame_def peer_ok_def peer_refs_def outgoing_refs_def
      incoming_refs_def is_connected_def)

lemma window_frame_refl: "window_frame p p"
  by (simp add: window_frame_def timing_frame_def)

lemma enter_unsequenced_frame:
  assumes "enter_unsequenced grp p = Some (n, p')"
  shows "window_frame p p'"
proof -
  obtain late moved dup m g where "enter_unsequenced grp p =
     (if late then None
      else if moved then Some (m, p\<lparr>incomingUnsequencedGroup := g,
        unsequencedWindow := replicate (length (unsequencedWindow p)) 0\<rparr>)
      else if dup then None else Some (m, p))"
    using enter_unsequenced_shape by blast
  then show ?thesis
    using assms window_frame_refl window_frame_reset by (simp split: if_split_asm)
qed

lemma set_window_frame:
  "timing_frame p (p\<lparr>unsequencedWindow := set_window_bit (unsequencedWindow p) n\<rparr>)"
  by (simp add: timing_frame_def out_frame_def peer_ok_def peer_refs_def outgoing_refs_def incoming_refs_def
      set_window_bit_def)

lemma handle_send_unsequenced_ok:
  assumes H: "host_ok M H" "peer_at H i = Some p" and rc: "received_ok H"
  shows "\<exists>r cur' H'. enet_protocol_handle_send_unsequenced i command grp len cur H = Some (r, cur', H') \<and>
    host_ok M H' \<and> peers_only H H' \<and> (r = 0 \<longrightarrow> cur' = cur + unat len)"
proof (cases "\<not> can_receive p (p_channelID command) \<or> \<not> data_fits H cur len")
  case True
  then show ?thesis
    using H by (auto simp: enet_protocol_handle_send_unsequenced_def)
next
  case False
  show ?thesis
  proof (cases "enter_unsequenced grp p")
    case None
    then show ?thesis
      using False H by (auto simp: enet_protocol_handle_send_unsequenced_def)
  next
    case (Some r)
    obtain n p1 where r: "r = (n, p1)"
      by (cases r)
    have fr: "timing_frame p p1" "channelCount p1 = channelCount p" "is_connected p1 = is_connected p"
      using enter_unsequenced_frame [OF Some [unfolded r]] by (simp_all add: window_frame_def)
    define H1 where "H1 = set_peer i p1 H"
    have H1: "host_ok M H1" "peer_at H1 i = Some p1" "peers_only H H1"
      unfolding H1_def using timing_host_ok [OF H fr(1)] peer_at_set(1) [OF H(2)] by simp_all
    have chan: "is_connected p1" "ucast (p_channelID command) < channelCount p1"
      using can_receive_connected False fr(2,3) by auto
    have "cur + unat len \<le> length (receivedData H1)"
      using data_fits_length [OF rc] False by (simp add: peers_only_simps(7) [OF H1(3)])
    from queue_data_ok [OF H1(1,2) chan this, of ENET_PACKET_FLAG_UNSEQUENCED] obtain r2 H2 p2 where
      H2: "queue_data i command cur len ENET_PACKET_FLAG_UNSEQUENCED H1 = Some (r2, H2)" "host_ok M H2"
        "peers_only H1 H2" "peer_at H2 i = Some p2"
      by blast
    define H3 where "H3 = set_peer i (p2\<lparr>unsequencedWindow := set_window_bit (unsequencedWindow p2) n\<rparr>) H2"
    have H3: "host_ok M H3" "peers_only H2 H3"
      unfolding H3_def using timing_host_ok [OF H2(2,4) set_window_frame] by simp_all
    have po: "peers_only H H2"
      by (rule peers_only_trans [OF H1(3) H2(3)])
    have "enet_protocol_handle_send_unsequenced i command grp len cur H =
        (if r2 = -1 then Some (-1, cur + unat len, H2) else Some (0, cur + unat len, H3))"
      using False H(2) Some r H2(1,4)
      by (simp add: enet_protocol_handle_send_unsequenced_def H1_def H3_def update_peer_def)
    then show ?thesis
      using H2(2) H3(1) po peers_only_trans [OF po H3(2)] by auto
  qed
qed

subsection \<open>Storing a fragment\<close>

lemma ids_ok_unique:
  "ids_ok n p \<Longrightarrow> c \<in> set (peer_commands p) \<Longrightarrow> d \<in> set (peer_commands p) \<Longrightarrow> ic_id d = ic_id c \<Longrightarrow> d = c"
  by (auto simp: ids_ok_def distinct_map dest: inj_onD)

lemma command_at_unique:
  assumes "ids_ok n p" "c \<in> set (peer_commands p)"
  shows "command_at (ic_id c) p = Some c"
proof (cases "command_at (ic_id c) p")
  case None
  then show ?thesis
    using assms(2) by (auto simp: command_at_def find_None_iff)
next
  case (Some d)
  then have "d \<in> set (peer_commands p) \<and> ic_id d = ic_id c"
    by (auto simp: command_at_def find_Some_iff)
  then show ?thesis
    using Some ids_ok_unique [OF assms] by simp
qed

definition swap_command :: "incoming_command \<Rightarrow> incoming_command \<Rightarrow> incoming_command" where
  "swap_command c d = (if ic_id d = ic_id c then c else d)"

lemma replace_command_fields:
  "peer_commands (replace_command c p) = map (swap_command c) (peer_commands p)"
  "state (replace_command c p) = state p" "channelCount (replace_command c p) = channelCount p"
  "needsDispatch (replace_command c p) = needsDispatch p" "outgoing_refs (replace_command c p) = outgoing_refs p"
  "incomingBandwidth (replace_command c p) = incomingBandwidth p" "peer_ok (replace_command c p) = peer_ok p"
  "channels (replace_command c p) = map (\<lambda>ch. ch\<lparr>
     ch_incomingReliableCommands := map (swap_command c) (ch_incomingReliableCommands ch),
     ch_incomingUnreliableCommands := map (swap_command c) (ch_incomingUnreliableCommands ch)\<rparr>) (channels p)"
  by (simp_all add: replace_command_def Let_def peer_commands_def swap_command_def [abs_def] map_concat comp_def
      outgoing_refs_def peer_ok_def channel_ok_def)

lemma ic_refs_map:
  assumes "\<And>d. d \<in> set cs \<Longrightarrow> ic_packet (f d) = ic_packet d"
  shows "ic_refs (map f cs) = ic_refs cs"
proof -
  have "List.map_filter ic_packet (map f cs) = List.map_filter ic_packet cs"
    using assms by (induction cs) (simp_all add: List.map_filter_simps split: option.split)
  then show ?thesis
    by (simp add: ic_refs_def)
qed

lemma replace_command_ok:
  assumes ids: "ids_ok n p" and c: "c \<in> set (peer_commands p)"
    and c': "ic_id c' = ic_id c" "ic_packet c' = ic_packet c" "incoming_wf c'" and p: "incoming_ok n p"
  shows "incoming_ok n (replace_command c' p)" "same_status p (replace_command c' p)"
    "peer_refs (replace_command c' p) = peer_refs p"
proof -
  have pk: "ic_packet (swap_command c' d) = ic_packet d" if "d \<in> set (peer_commands p)" for d
    using ids_ok_unique [OF ids c that] c'(1,2) by (auto simp: swap_command_def)
  have sub: "set (ch_incomingReliableCommands ch) \<subseteq> set (peer_commands p)"
    "set (ch_incomingUnreliableCommands ch) \<subseteq> set (peer_commands p)" if "ch \<in> set (channels p)" for ch
    using that by (auto simp: peer_commands_def)
  have ch: "channel_refs (ch\<lparr>ch_incomingReliableCommands := map (swap_command c') (ch_incomingReliableCommands ch),
      ch_incomingUnreliableCommands := map (swap_command c') (ch_incomingUnreliableCommands ch)\<rparr>) = channel_refs ch"
    if "ch \<in> set (channels p)" for ch
  proof -
    have "ic_refs (map (swap_command c') (ch_incomingReliableCommands ch)) = ic_refs (ch_incomingReliableCommands ch)"
      "ic_refs (map (swap_command c') (ch_incomingUnreliableCommands ch)) = ic_refs (ch_incomingUnreliableCommands ch)"
      by (rule ic_refs_map, rule pk, use sub [OF that] in blast)+
    then show ?thesis
      by (simp add: channel_refs_def)
  qed
  have empty: "empty_channels (map (\<lambda>ch. ch\<lparr>
      ch_incomingReliableCommands := map (swap_command c') (ch_incomingReliableCommands ch),
      ch_incomingUnreliableCommands := map (swap_command c') (ch_incomingUnreliableCommands ch)\<rparr>) cs)"
    if "empty_channels cs" "set cs \<subseteq> set (channels p)" for cs
    using that ch by (auto simp: empty_channels_def)
  have id: "ic_id (swap_command c' d) = ic_id d" for d
    by (simp add: swap_command_def)
  then have "map ic_id (map (swap_command c') cs) = map ic_id cs" for cs
    by simp
  then have "ids_ok n (replace_command c' p)"
    using ids id unfolding ids_ok_def replace_command_fields by (auto simp del: map_map)
  moreover have "spare_ok (replace_command c' p)"
    using p empty [of "drop (unat (channelCount p)) (channels p)"] set_drop_subset [of _ "channels p"]
    by (simp add: incoming_ok_def spare_ok_def replace_command_fields drop_map)
  moreover have "empty_channels (channels p) \<Longrightarrow> empty_channels (channels (replace_command c' p))"
    using empty [of "channels p"] by (simp add: replace_command_fields)
  moreover have "\<forall>d \<in> set (peer_commands (replace_command c' p)). incoming_wf d"
    using p c'(3) by (auto simp: incoming_ok_def replace_command_fields swap_command_def)
  ultimately show "incoming_ok n (replace_command c' p)"
    using p by (simp add: incoming_ok_def replace_command_fields)
  show "same_status p (replace_command c' p)"
    by (simp add: same_status_def is_connected_def is_limited_def replace_command_fields)
  have "incoming_refs (replace_command c' p) = incoming_refs p"
    unfolding incoming_refs_commands replace_command_fields by (rule ic_refs_map) (rule pk)
  then show "peer_refs (replace_command c' p) = peer_refs p"
    by (simp add: peer_refs_def replace_command_fields)
qed

lemma copy_fragment_ok:
  assumes refs: "refs_ok h M" and pk: "hp_packets h pid = Some pk" "dataLength pk = ucast tot"
    and fits: "off < tot" "len \<le> tot - off" and src: "unat len \<le> length src"
  shows "\<exists>h'. copy_fragment pid off len src h = Some h' \<and> refs_ok h' M"
proof -
  have sub: "unat (tot - off) = unat tot - unat off"
    using fits(1) by (simp add: unat_sub word_less_nat_alt word_le_nat_alt)
  then have le: "unat off + unat len \<le> unat tot"
    using fits by (simp add: word_le_nat_alt word_less_nat_alt)
  then have add: "unat (off + len) = unat off + unat len"
    using unat_u32_lt [of tot] by (intro unat_add_no_wrap) (simp del: unat_u32_lt)
  then have nowrap: "\<not> (ucast (off + len) :: size_t) > dataLength pk"
    using le by (simp add: pk(2) word_less_nat_alt not_less)
  have "0 < unat tot"
    using fits(1) by (simp add: word_less_nat_alt)
  then obtain bs where bs: "pk_data pk = Some bs" "unat tot \<le> length bs"
    using refs_ok_fits [OF refs pk(1)] by (auto simp: packet_fits_def pk(2) split: option.splits)
  define pk' where "pk' = pk\<lparr>pk_data := Some (patch (unat off) (map Some (take (unat len) src)) bs)\<rparr>"
  have len: "length (patch (unat off) (map Some (take (unat len) src)) bs) = length bs"
    using le bs(2) src by (intro length_patch) simp
  have "copy_fragment pid off len src h = Some (update_packet pid pk' h)"
    using src le bs nowrap by (simp add: copy_fragment_def pk(1) pk'_def)
  moreover have "refs_ok (update_packet pid pk' h) M"
  proof (rule refs_okI)
    show "packet_fits p" if "hp_packets (update_packet pid pk' h) q = Some p" for q p
      using that refs_ok_fits [OF refs] bs len
      by (auto simp: update_packet_def pk'_def packet_fits_def pk(2) split: if_splits)
  qed (use refs_ok_count [OF refs] refs_ok_None [OF refs] refs_ok_next [OF refs] pk(1) in
      \<open>auto simp: update_packet_def pk'_def split: if_splits\<close>)
  ultimately show ?thesis
    by blast
qed

lemma window_bit_index: "unat (m :: u32) < unat k \<Longrightarrow> unat k \<le> 32 * l \<Longrightarrow> unat m div 32 < l"
  by simp

lemma fragment_bounds:
  assumes "\<not> fragment_invalid mx f"
  shows "unat (fr_fragmentNumber f) < unat (fr_fragmentCount f)" "fr_fragmentOffset f < fr_totalLength f"
    "ucast (fr_dataLength f) \<le> fr_totalLength f - fr_fragmentOffset f" "0 < fr_fragmentCount f"
    "fr_fragmentCount f \<le> ENET_PROTOCOL_MAXIMUM_FRAGMENT_COUNT"
  using assms by (auto simp: fragment_invalid_def not_le not_less word_less_nat_alt word_le_nat_alt)

lemma store_fragment_ok:
  assumes p: "peer_ok p" "incoming_ok n p" and refs: "refs_ok h (peer_refs p + M)"
    and st: "started ident (fr_fragmentCount f) (ucast (fr_totalLength f)) p h"
    and f: "\<not> fragment_invalid mx f" and src: "unat (fr_dataLength f) \<le> length src"
  shows "\<exists>b p' h'. store_fragment ident f src p h = Some (b, p', h') \<and> refs_ok h' (peer_refs p' + M) \<and>
    peer_ok p' \<and> incoming_ok n p' \<and> same_status p p' \<and> needsDispatch p' = needsDispatch p \<and>
    channelCount p' = channelCount p"
proof -
  note fb = fragment_bounds [OF f]
  obtain c pid pk where c: "c \<in> set (peer_commands p)" "ic_id c = ident" "ic_fragmentCount c = fr_fragmentCount f"
      "ic_packet c = Some pid" "hp_packets h pid = Some pk" "dataLength pk = ucast (fr_totalLength f)"
    using st by (auto simp: started_def)
  have ids: "ids_ok n p" and wf: "incoming_wf c"
    using p(2) c(1) by (auto simp: incoming_ok_def)
  obtain bits where bits: "ic_fragments c = Some bits" "unat (fr_fragmentCount f) \<le> 32 * length bits"
    using wf fb(4) by (auto simp: incoming_wf_def c(3))
  define m where "m = unat (fr_fragmentNumber f)"
  have m: "m div 32 < length bits"
    unfolding m_def by (rule window_bit_index [OF fb(1) bits(2)])
  have at: "command_at ident p = Some c"
    using command_at_unique [OF ids c(1)] c(2) by simp
  define c' where "c' = c\<lparr>ic_fragmentsRemaining := ic_fragmentsRemaining c - 1,
    ic_fragments := Some (set_window_bit bits m)\<rparr>"
  have c': "ic_id c' = ic_id c" "ic_packet c' = ic_packet c" "incoming_wf c'"
    using wf bits by (auto simp: c'_def incoming_wf_def set_window_bit_def)
  note rep = replace_command_ok [OF ids c(1) c' p(2)]
  have "unat (ucast (fr_dataLength f) :: u32) \<le> length src"
    using src by simp
  from copy_fragment_ok [OF refs c(5,6) fb(2,3) this] obtain h' where
    h': "copy_fragment pid (fr_fragmentOffset f) (ucast (fr_dataLength f)) src h = Some h'"
      "refs_ok h' (peer_refs p + M)"
    by blast
  have eq: "store_fragment ident f src p h = (if window_bit bits m then Some (False, p, h)
      else Some (ic_fragmentsRemaining c' \<le> 0, replace_command c' p, h'))"
    using m h'(1) by (simp add: store_fragment_def at bits(1) c(4) c'_def m_def [symmetric])
  show ?thesis
  proof (cases "window_bit bits m")
    case True
    then show ?thesis
      using eq refs p by (auto simp: same_status_def)
  next
    case False
    then show ?thesis
      using eq h'(2) p(1) rep by (auto simp: replace_command_fields)
  qed
qed

subsection \<open>Reliable fragments\<close>

lemma start_found_ok:
  assumes refs: "refs_ok h (peer_refs p + M)" and c: "c \<in> set (peer_commands p)" and wf: "incoming_wf c"
  shows "\<exists>s. start_found h num f c = Some s \<and>
    (\<forall>d. s = Start_Found d \<longrightarrow> started (ic_id d) (fr_fragmentCount f) (ucast (fr_totalLength f)) p h)"
proof -
  obtain pid where pid: "ic_packet c = Some pid"
    using wf by (auto simp: incoming_wf_def)
  obtain pk where pk: "hp_packets h pid = Some pk"
    using command_packet [OF refs c pid] ..
  have "start_found h num f c = Some (if command_number (ic_command c) \<noteq> num \<or>
      ucast (fr_totalLength f) \<noteq> dataLength pk \<or> fr_fragmentCount f \<noteq> ic_fragmentCount c
      then Start_Mismatch else Start_Found c)"
    by (simp add: start_found_def pid pk)
  moreover have "started (ic_id c) (fr_fragmentCount f) (ucast (fr_totalLength f)) p h"
    if "ucast (fr_totalLength f) = dataLength pk" "fr_fragmentCount f = ic_fragmentCount c"
    unfolding started_def using c pid pk that by (intro exI [of _ c]) auto
  ultimately show ?thesis
    by auto
qed

lemma find_start_reliable_ok:
  assumes refs: "refs_ok h (peer_refs p + M)" and wf: "\<forall>c \<in> set (peer_commands p). incoming_wf c"
  shows "set cs \<subseteq> set (peer_commands p) \<Longrightarrow> \<exists>s. find_start_reliable h current f cs = Some s \<and>
    (\<forall>d. s = Start_Found d \<longrightarrow> started (ic_id d) (fr_fragmentCount f) (ucast (fr_totalLength f)) p h)"
proof (induction cs)
  case (Cons c cs)
  then show ?case
    using start_found_ok [OF refs, of c ENET_PROTOCOL_COMMAND_SEND_FRAGMENT f] wf by (auto simp: Let_def)
qed simp

lemma dispatch_host_ok:
  assumes H: "host_ok M H" "peer_at H i = Some p" and conn: "is_connected p" and chan: "ucast chan < channelCount p"
  shows "\<exists>H'. on_queue i (\<lambda>p q h. map_option (\<lambda>r. ((), r)) (dispatch_at pl i chan p q h)) H = Some ((), H') \<and>
    host_ok M H' \<and> peers_only H H'"
proof -
  note p = host_okD [OF H]
  have unat_chan: "unat chan < unat (channelCount p)"
    using chan by (simp add: word_less_nat_alt)
  then obtain c where c: "channel_at p chan = Some c"
    using p(1) by (simp add: peer_ok_def channel_at_def)
  obtain p' q' h' where d: "dispatch_at pl i chan p (dispatchQueue H) (ht_heap H) = Some (p', q', h')"
      "refs_ok h' (peer_refs p' + (other_refs i H + M))" "in_step i chan p (dispatchQueue H) p' q'" "dropped_only c p p'"
    using dispatch_at_ok [OF p(3) c] by blast
  have "on_queue i (\<lambda>p q h. map_option (\<lambda>r. ((), r)) (dispatch_at pl i chan p q h)) H =
      Some ((), set_peer i p' (H\<lparr>dispatchQueue := q', ht_heap := h'\<rparr>))"
    by (rule on_queue_Some [OF H(2)]) (simp add: d(1))
  moreover have "host_ok M (set_peer i p' (H\<lparr>dispatchQueue := q', ht_heap := h'\<rparr>))"
  proof (rule host_ok_queue [OF H])
    show "peer_ok p'" "queue_step i p (dispatchQueue H) p' q'"
      using d(3) p(1) incoming_frame_simps(5) [of p p'] by (simp_all add: in_step_def)
    show "incoming_ok (ht_ids H) p'"
      by (rule in_step_incoming_same [OF d(3) unat_chan conn p(2) dropped_only_subset [OF d(4)]])
    show "same_status p p'"
      by (rule in_step_same_status [OF d(3)])
  qed (rule d(2))
  ultimately show ?thesis
    using peers_only_upd(6) by blast
qed

lemma collect_fragment_ok:
  assumes H: "host_ok M H" "peer_at H i = Some p" and conn: "is_connected p" and chan: "ucast chan < channelCount p"
    and st: "started ident (fr_fragmentCount f) (ucast (fr_totalLength f)) p (ht_heap H)"
    and f: "\<not> fragment_invalid mx f" and src: "cur + unat (fr_dataLength f) \<le> length (receivedData H)"
  shows "\<exists>H'. collect_fragment enet_peer_dispatch_incoming_reliable_commands i chan ident f cur H = Some H' \<and>
    host_ok M H' \<and> peers_only H H'"
proof -
  note p = host_okD [OF H]
  have "unat (fr_dataLength f) \<le> length (drop cur (receivedData H))"
    using src by simp
  from store_fragment_ok [OF p(1-3) st f this] obtain b p' h' where
    s: "store_fragment ident f (drop cur (receivedData H)) p (ht_heap H) = Some (b, p', h')"
      "refs_ok h' (peer_refs p' + (other_refs i H + M))" "peer_ok p'" "incoming_ok (ht_ids H) p'" "same_status p p'"
      "needsDispatch p' = needsDispatch p" "channelCount p' = channelCount p"
    by blast
  define H1 where "H1 = set_peer i p' (H\<lparr>ht_heap := h'\<rparr>)"
  have H1: "host_ok M H1" "peer_at H1 i = Some p'" "peers_only H H1"
    unfolding H1_def using host_ok_peer [OF H s(3-6,2)] peer_at_set(2) [OF H(2)] by simp_all
  have on: "on_peer i (store_fragment ident f (drop cur (receivedData H))) H = Some (b, H1)"
    unfolding H1_def by (rule on_peer_Some [OF H(2)]) (rule s(1))
  have "is_connected p'" "ucast chan < channelCount p'"
    using conn chan s(5,7) by (simp_all add: same_status_def)
  from dispatch_host_ok [OF H1(1,2) this, of "Place_Reliable 0"] obtain H2 where
    "on_queue i (\<lambda>p q h. map_option (\<lambda>r. ((), r)) (enet_peer_dispatch_incoming_reliable_commands i chan p q h)) H1 =
      Some ((), H2)" "host_ok M H2" "peers_only H1 H2"
    by (auto simp: dispatch_at_def)
  then show ?thesis
    using on H1(1,3) peers_only_trans [OF H1(3)] by (cases b) (simp_all add: collect_fragment_def)
qed

lemma collect_into_ok:
  assumes H: "host_ok M H" "peer_at H i = Some p" and conn: "is_connected p"
    and chan: "ucast (p_channelID command) < channelCount p"
    and num: "command_number command = ENET_PROTOCOL_COMMAND_SEND_FRAGMENT"
    and s: "\<And>d. s = Start_Found d \<Longrightarrow>
      started (ic_id d) (fr_fragmentCount f) (ucast (fr_totalLength f)) p (ht_heap H)"
    and f: "\<not> fragment_invalid mx f" and src: "cur + unat (fr_dataLength f) \<le> length (receivedData H)"
  shows "\<exists>r cur' H'. collect_into enet_peer_dispatch_incoming_reliable_commands s i command f
      ENET_PACKET_FLAG_RELIABLE cur H = Some (r, cur', H') \<and>
    host_ok M H' \<and> peers_only H H' \<and> (r = 0 \<longrightarrow> cur' = cur + unat (fr_dataLength f))"
proof (cases s)
  case Start_Mismatch
  then show ?thesis
    using H by (simp add: collect_into_def)
next
  case (Start_Found d)
  then show ?thesis
    using collect_fragment_ok [OF H conn chan s [OF Start_Found] f src] by (auto simp: collect_into_def)
next
  case Start_None
  note fb = fragment_bounds [OF f]
  have "case None of None \<Rightarrow> ENET_PACKET_FLAG_RELIABLE AND ENET_PACKET_FLAG_NO_ALLOCATE = 0
      | Some (bs :: bytes) \<Rightarrow> unat (ucast (fr_totalLength f) :: size_t) \<le> length bs"
    by (simp add: enet_consts)
  from queue_incoming_ok [OF H conn chan this fb(5)] obtain r H1 p1 where
    q: "queue_incoming i command None (ucast (fr_totalLength f)) ENET_PACKET_FLAG_RELIABLE (fr_fragmentCount f) H = Some (r, H1)"
      "host_ok M H1" "peers_only H H1" "peer_at H1 i = Some p1" "incoming_frame p p1"
      "r = Q_Dummy \<longrightarrow> fr_fragmentCount f = 0"
      "\<And>ident. r = Q_Command ident \<Longrightarrow>
        started ident (fr_fragmentCount f) (ucast (fr_totalLength f)) p1 (ht_heap H1)"
    using num by blast
  have c1: "is_connected p1" "ucast (p_channelID command) < channelCount p1"
    using conn chan incoming_frame_simps(1,3) [OF q(5)] by (simp_all add: is_connected_def)
  have src1: "cur + unat (fr_dataLength f) \<le> length (receivedData H1)"
    using src by (simp add: peers_only_simps(7) [OF q(3)])
  show ?thesis
  proof (cases r)
    case Q_Null
    then show ?thesis
      using Start_None q by (simp add: collect_into_def)
  next
    case Q_Dummy
    then show ?thesis
      using q(6) fb(4) by simp
  next
    case (Q_Command ident)
    from collect_fragment_ok [OF q(2,4) c1 q(7) [OF this] f src1] obtain H2 where
      "collect_fragment enet_peer_dispatch_incoming_reliable_commands i (p_channelID command) ident f cur H1 = Some H2"
      "host_ok M H2" "peers_only H1 H2"
      by blast
    then show ?thesis
      using Start_None q(1) Q_Command peers_only_trans [OF q(3)] by (simp add: collect_into_def)
  qed
qed

lemma handle_send_fragment_ok:
  assumes H: "host_ok M H" "peer_at H i = Some p" and rc: "received_ok H"
    and num: "command_number command = ENET_PROTOCOL_COMMAND_SEND_FRAGMENT"
  shows "\<exists>r cur' H'. enet_protocol_handle_send_fragment i command f cur H = Some (r, cur', H') \<and>
    host_ok M H' \<and> peers_only H H' \<and> (r = 0 \<longrightarrow> cur' = cur + unat (fr_dataLength f))"
proof (cases "\<not> can_receive p (p_channelID command) \<or> \<not> data_fits H cur (fr_dataLength f)")
  case True
  then show ?thesis
    using H by (auto simp: enet_protocol_handle_send_fragment_def)
next
  case False
  note p = host_okD [OF H]
  have chan: "is_connected p" "ucast (p_channelID command) < channelCount p"
    using can_receive_connected False by auto
  have "unat (p_channelID command) < length (channels p)"
    using chan(2) p(1) by (simp add: peer_ok_def word_less_nat_alt)
  then obtain c where c: "channel_at p (p_channelID command) = Some c"
    by (simp add: channel_at_def)
  have src: "cur + unat (fr_dataLength f) \<le> length (receivedData H)"
    using data_fits_length [OF rc] False by simp
  define command' where "command' = command\<lparr>p_reliableSequenceNumber := fr_startSequenceNumber f\<rparr>"
  have num': "command_number command' = ENET_PROTOCOL_COMMAND_SEND_FRAGMENT" "p_channelID command' = p_channelID command"
    using num by (simp_all add: command'_def command_number_def)
  have "c \<in> set (channels p)"
    using c by (simp add: channel_at_Some)
  then have sub: "set (rev (ch_incomingReliableCommands c)) \<subseteq> set (peer_commands p)"
    by (auto simp: peer_commands_def)
  have wf: "\<forall>c \<in> set (peer_commands p). incoming_wf c"
    using p(2) by (simp add: incoming_ok_def)
  obtain s where s: "find_start_reliable (ht_heap H) (ch_incomingReliableSequenceNumber c) f
      (rev (ch_incomingReliableCommands c)) = Some s"
    "\<And>d. s = Start_Found d \<Longrightarrow> started (ic_id d) (fr_fragmentCount f) (ucast (fr_totalLength f)) p (ht_heap H)"
    using find_start_reliable_ok [OF p(3) wf sub] by blast
  have eq: "enet_protocol_handle_send_fragment i command f cur H =
    (if \<not> window_open (fr_startSequenceNumber f) c then Some (0, cur + unat (fr_dataLength f), H)
     else if fragment_invalid (maximumPacketSize H) f then Some (-1, cur, H)
     else collect_into enet_peer_dispatch_incoming_reliable_commands s i command' f ENET_PACKET_FLAG_RELIABLE cur H)"
    unfolding enet_protocol_handle_send_fragment_def H(2) Option.bind.bind_lunit if_not_P [OF False] c s(1)
      command'_def ..
  show ?thesis
    using collect_into_ok [OF H chan(1) _ num'(1) s(2) _ src] chan(2) H
    unfolding eq by (auto simp: num'(2))
qed

end
