(* ===== verification/Protocol_Receive.thy ===== *)
theory Protocol_Receive
  imports Protocol_Data
begin

text \<open>
  \<^verbatim>\<open>protocol.c\<close>, from a datagram to the handlers: the header, decompression and checksum, the
  loop over the commands, and the loop over the datagrams.  The command loop takes fuel; each
  round moves \<^verbatim>\<open>currentData\<close> forward, so that the length of the datagram is enough
  (\<open>commands_loop_ok\<close> in \<open>Receive_Inv\<close>).
\<close>

subsection \<open>One command\<close>

text \<open>
  The switch over the command number, for a known peer.  Only a successful \<^verbatim>\<open>CONNECT\<close>
  makes an unknown peer known.
\<close>

definition handle_command ::
  "event option \<Rightarrow> nat \<Rightarrow> protocol \<Rightarrow> nat \<Rightarrow> host \<Rightarrow> (int \<times> event option \<times> nat \<times> host) option" where
  "handle_command event i command cur H =
     (case p_body command of
        Acknowledge sn t \<Rightarrow> do {
          (r, event, H) \<leftarrow> enet_protocol_handle_acknowledge event i (p_channelID command) sn t H;
          Some (r, event, cur, H) }
      | Connect _ \<Rightarrow> Some (-1, event, cur, H)
      | VerifyConnect c \<Rightarrow> do {
          (r, event, H) \<leftarrow> enet_protocol_handle_verify_connect event i c H;
          Some (r, event, cur, H) }
      | Disconnect d \<Rightarrow> do {
          (r, H) \<leftarrow> enet_protocol_handle_disconnect i
            (has_flag command ENET_PROTOCOL_COMMAND_FLAG_ACKNOWLEDGE) d H;
          Some (r, event, cur, H) }
      | Ping \<Rightarrow> do { (r, H) \<leftarrow> enet_protocol_handle_ping i H; Some (r, event, cur, H) }
      | SendReliable len \<Rightarrow> do {
          (r, cur, H) \<leftarrow> enet_protocol_handle_send_reliable i command len cur H;
          Some (r, event, cur, H) }
      | SendUnreliable _ len \<Rightarrow> do {
          (r, cur, H) \<leftarrow> enet_protocol_handle_send_unreliable i command len cur H;
          Some (r, event, cur, H) }
      | SendFragment f \<Rightarrow> do {
          (r, cur, H) \<leftarrow> (if command_number command = ENET_PROTOCOL_COMMAND_SEND_FRAGMENT
            then enet_protocol_handle_send_fragment i command f cur H
            else enet_protocol_handle_send_unreliable_fragment i command f cur H);
          Some (r, event, cur, H) }
      | SendUnsequenced g len \<Rightarrow> do {
          (r, cur, H) \<leftarrow> enet_protocol_handle_send_unsequenced i command g len cur H;
          Some (r, event, cur, H) }
      | BandwidthLimit inb outb \<Rightarrow> do {
          (r, H) \<leftarrow> enet_protocol_handle_bandwidth_limit i inb outb H; Some (r, event, cur, H) }
      | ThrottleConfigure t a d \<Rightarrow> do {
          (r, H) \<leftarrow> enet_protocol_handle_throttle_configure i t a d H; Some (r, event, cur, H) })"

text \<open>The acknowledgement of a command that asks for one; the result is whether the loop goes on.\<close>

definition acknowledge_command :: "u16 \<Rightarrow> nat \<Rightarrow> protocol \<Rightarrow> host \<Rightarrow> (bool \<times> host) option" where
  "acknowledge_command flags i command H =
     (if \<not> has_flag command ENET_PROTOCOL_COMMAND_FLAG_ACKNOWLEDGE then Some (True, H)
      else if flags AND ENET_PROTOCOL_HEADER_FLAG_SENT_TIME = 0 then Some (False, H)
      else do {
        (sentTime, _) \<leftarrow> get16 (drop 2 (packetData0 H));
        peer \<leftarrow> peer_at H i;
        let acknowledge = (do {
          (_, H) \<leftarrow> on_peer i (\<lambda>p. enet_peer_queue_acknowledgement p command sentTime) H;
          Some (True, H) });
        (case state peer of
           DISCONNECTING \<Rightarrow> Some (True, H)
         | ACKNOWLEDGING_CONNECT \<Rightarrow> Some (True, H)
         | DISCONNECTED \<Rightarrow> Some (True, H)
         | ZOMBIE \<Rightarrow> Some (True, H)
         | ACKNOWLEDGING_DISCONNECT \<Rightarrow>
             if command_number command = ENET_PROTOCOL_COMMAND_DISCONNECT then acknowledge
             else Some (True, H)
         | _ \<Rightarrow> acknowledge) })"

text \<open>
  The next command of the datagram: the checks that its struct lies inside the datagram.
\<close>

definition next_command :: "nat \<Rightarrow> host \<Rightarrow> (protocol \<times> nat) option" where
  "next_command cur H =
     (let tot = unat (receivedDataLength H); data = receivedData H in
      if \<not> cur < tot \<or> cur + 4 > tot then None
      else
        let num = data ! cur AND ENET_PROTOCOL_COMMAND_MASK in
        if num \<ge> ENET_PROTOCOL_COMMAND_COUNT then None
        else
          let size = unat (commandSizes ! unat num) in
          if size = 0 \<or> cur + size > tot then None
          else map_option (\<lambda>(command, _). (command, cur + size)) (get_command (drop cur data)))"

text \<open>\<^verbatim>\<open>command->header.reliableSequenceNumber = ENET_NET_TO_HOST_16 (...)\<close>, in place.\<close>

definition convert_number :: "nat \<Rightarrow> protocol \<Rightarrow> host \<Rightarrow> host" where
  "convert_number cur command H =
     set_receivedData (patch (cur + 2) (rev (put16 (p_reliableSequenceNumber command))) (receivedData H)) H"

fun commands_loop ::
  "nat \<Rightarrow> u16 \<Rightarrow> event option \<Rightarrow> nat option \<Rightarrow> nat \<Rightarrow> host \<Rightarrow> (event option \<times> host) option" where
  "commands_loop 0 flags event peer cur H = None"
| "commands_loop (Suc fuel) flags event peer cur H =
     (case next_command cur H of
        None \<Rightarrow> Some (event, H)
      | Some (command, cur') \<Rightarrow>
          (case peer of
             None \<Rightarrow>
               (case p_body command of
                  Connect c \<Rightarrow> do {
                    (r, H) \<leftarrow> enet_protocol_handle_connect c (convert_number cur command H);
                    (case r of
                       None \<Rightarrow> Some (event, H)
                     | Some i \<Rightarrow> do {
                         (continue, H) \<leftarrow> acknowledge_command flags i command H;
                         if continue then commands_loop fuel flags event (Some i) cur' H
                         else Some (event, H) }) }
                | _ \<Rightarrow> Some (event, H))
           | Some i \<Rightarrow> do {
               (r, event, cur', H) \<leftarrow> handle_command event i command cur' (convert_number cur command H);
               if r \<noteq> 0 then Some (event, H)
               else do {
                 (continue, H) \<leftarrow> acknowledge_command flags i command H;
                 if continue then commands_loop fuel flags event (Some i) cur' H
                 else Some (event, H) } }))"

declare commands_loop.simps [simp del]

subsection \<open>One datagram\<close>

record header =
  hd_peerID :: u16
  hd_sessionID :: u8
  hd_flags :: u16

definition read_header :: "u8 list \<Rightarrow> header option" where
  "read_header bs = do {
     (w, _) \<leftarrow> get16 bs;
     Some \<lparr>hd_peerID = w AND NOT (ENET_PROTOCOL_HEADER_FLAG_MASK OR ENET_PROTOCOL_HEADER_SESSION_MASK),
       hd_sessionID = ucast (drop_bit ENET_PROTOCOL_HEADER_SESSION_SHIFT (w AND ENET_PROTOCOL_HEADER_SESSION_MASK)),
       hd_flags = w AND ENET_PROTOCOL_HEADER_FLAG_MASK\<rparr> }"

definition header_size :: "header \<Rightarrow> bool \<Rightarrow> size_t" where
  "header_size hdr has_checksum =
     (if hd_flags hdr AND ENET_PROTOCOL_HEADER_FLAG_SENT_TIME \<noteq> 0 then sizeof_ENetProtocolHeader else 2) +
     (if has_checksum then 4 else 0)"

text \<open>
  Who sent the datagram: \<open>None\<close> if it is to be ignored, otherwise no peer (a connect request)
  or a peer whose state, address and session fit.
\<close>

definition find_sender :: "header \<Rightarrow> host \<Rightarrow> nat option option" where
  "find_sender hdr H =
     (if hd_peerID hdr = ENET_PROTOCOL_MAXIMUM_PEER_ID then Some None
      else if unat (hd_peerID hdr) \<ge> length (ht_peers H) then None
      else
        let peer = ht_peers H ! unat (hd_peerID hdr) in
        if state peer = DISCONNECTED \<or> state peer = ZOMBIE \<or>
           ((ad_host (receivedAddress H) \<noteq> ad_host (pr_address peer) \<or>
             ad_port (receivedAddress H) \<noteq> ad_port (pr_address peer)) \<and>
            ad_host (pr_address peer) \<noteq> ENET_HOST_BROADCAST) \<or>
           (outgoingPeerID peer < ENET_PROTOCOL_MAXIMUM_PEER_ID \<and>
            hd_sessionID hdr \<noteq> incomingSessionID peer)
        then None else Some (Some (unat (hd_peerID hdr))))"

text \<open>
  Decompression into the second buffer.  The limit for the input is the code's difference,
  which wraps around if the datagram is shorter than its header.
\<close>

definition decompress_datagram :: "header \<Rightarrow> size_t \<Rightarrow> host \<Rightarrow> (bool \<times> host) option" where
  "decompress_datagram hdr headerSize H =
     (if hd_flags hdr AND ENET_PROTOCOL_HEADER_FLAG_COMPRESSED = 0 then Some (True, H)
      else (case ht_compressor H of
         None \<Rightarrow> Some (False, H)
       | Some co \<Rightarrow> do {
           let limit = ucast ENET_PROTOCOL_MAXIMUM_MTU - headerSize;
           original \<leftarrow> co_decompress co (drop (unat headerSize) (receivedData H))
             (receivedDataLength H - headerSize) limit;
           Some (if length original = 0 \<or> length original > unat limit then (False, H)
             else (True, H\<lparr>packetData1 := patch 0 (take (unat headerSize) (receivedData H))
                  (patch (unat headerSize) original (packetData1 H)),
                receivedSlot := True, receivedDataLength := headerSize + of_nat (length original)\<rparr>)) }))"

text \<open>
  The checksum of the datagram with the connection's number in the place of the checksum,
  which is left in the buffer.  A bare connect has number 0.
\<close>

definition verify_checksum :: "nat option \<Rightarrow> size_t \<Rightarrow> host \<Rightarrow> (bool \<times> host) option" where
  "verify_checksum peer headerSize H =
     (case checksum H of
        None \<Rightarrow> Some (True, H)
      | Some callback \<Rightarrow> do {
          let at = unat (headerSize - 4);
          (desired, _) \<leftarrow> get32_native (drop at (receivedData H));
          cid \<leftarrow> (case peer of None \<Rightarrow> Some 0 | Some i \<Rightarrow> map_option connectID (peer_at H i));
          let H = set_receivedData (patch at (put32_native cid) (receivedData H)) H;
          Some (callback [map Some (take (unat (receivedDataLength H)) (receivedData H))] = desired, H) })"

definition note_sender :: "nat option \<Rightarrow> host \<Rightarrow> host option" where
  "note_sender peer H =
     (case peer of
        None \<Rightarrow> Some H
      | Some i \<Rightarrow> update_peer i (\<lambda>p. p\<lparr>pr_address := receivedAddress H,
          incomingDataTotal := incomingDataTotal p + ucast (receivedDataLength H)\<rparr>) H)"

text \<open>
  The early returns of the code give 0 whatever the event holds; the way out of the loop
  looks at it.  On entry \<^verbatim>\<open>receivedData\<close>, and so \<^verbatim>\<open>header\<close>, is \<^verbatim>\<open>packetData [0]\<close>.
\<close>

definition event_ready :: "event option \<Rightarrow> bool" where
  "event_ready event \<longleftrightarrow> (case event of None \<Rightarrow> False | Some ev \<Rightarrow> ev_type ev \<noteq> EVENT_NONE)"

definition enet_protocol_handle_incoming_commands ::
  "event option \<Rightarrow> host \<Rightarrow> (int \<times> event option \<times> host) option" where
  "enet_protocol_handle_incoming_commands event H =
     (if receivedDataLength H < 2 then Some (0, event, H)
      else do {
        hdr \<leftarrow> read_header (receivedData H);
        let headerSize = header_size hdr (checksum H \<noteq> None);
        (case find_sender hdr H of
           None \<Rightarrow> Some (0, event, H)
         | Some peer \<Rightarrow> do {
             (ok, H) \<leftarrow> decompress_datagram hdr headerSize H;
             if \<not> ok then Some (0, event, H)
             else do {
               (ok, H) \<leftarrow> verify_checksum peer headerSize H;
               if \<not> ok then Some (0, event, H)
               else do {
                 H \<leftarrow> note_sender peer H;
                 (event, H) \<leftarrow> commands_loop (Suc (unat (receivedDataLength H))) (hd_flags hdr) event
                   peer (unat headerSize) H;
                 Some (if event_ready event then 1 else 0, event, H) } } }) })"

subsection \<open>All datagrams\<close>

text \<open>\<^verbatim>\<open>enet_socket_receive\<close> into \<^verbatim>\<open>packetData [0]\<close>; a datagram longer than the array is an error there.\<close>

definition socket_receive :: "host \<Rightarrow> int \<times> host" where
  "socket_receive H =
     (case ht_receives H of
        [] \<Rightarrow> (0, H)
      | r # rs \<Rightarrow>
          let H = H\<lparr>ht_receives := rs\<rparr> in
          (case r of
             Recv_Error \<Rightarrow> (-1, H)
           | Recv_Nothing \<Rightarrow> (0, H)
           | Recv_Datagram addr bs \<Rightarrow>
               if length bs > length (packetData0 H) then (-1, H)
               else (int (length bs), H\<lparr>receivedAddress := addr, packetData0 := patch 0 bs (packetData0 H)\<rparr>)))"

definition accept_datagram :: "int \<Rightarrow> host \<Rightarrow> host" where
  "accept_datagram n H = H\<lparr>receivedSlot := False, receivedDataLength := of_int n,
     totalReceivedData := totalReceivedData H + of_int n,
     totalReceivedPackets := totalReceivedPackets H + 1\<rparr>"

primrec receive_loop :: "nat \<Rightarrow> event option \<Rightarrow> host \<Rightarrow> (int \<times> event option \<times> host) option" where
  "receive_loop 0 event H = Some (-1, event, H)"
| "receive_loop (Suc packets) event H =
     (let (n, H) = socket_receive H in
      if n < 0 then Some (-1, event, H)
      else if n = 0 then Some (0, event, H)
      else do {
        let H = accept_datagram n H;
        let (r, event) = (case intercept H of
              None \<Rightarrow> (0, event)
            | Some f \<Rightarrow> f (receivedAddress H) (take (unat (receivedDataLength H)) (receivedData H)) event);
        if r = 1 then if event_ready event then Some (1, event, H) else receive_loop packets event H
        else if r = -1 then Some (-1, event, H)
        else do {
          (r, event, H) \<leftarrow> enet_protocol_handle_incoming_commands event H;
          if r = 1 then Some (1, event, H)
          else if r = -1 then Some (-1, event, H)
          else receive_loop packets event H } })"

definition enet_protocol_receive_incoming_commands ::
  "event option \<Rightarrow> host \<Rightarrow> (int \<times> event option \<times> host) option" where
  "enet_protocol_receive_incoming_commands = receive_loop 256"

end
