(* ===== verification/Receive_Inv.thy ===== *)
theory Receive_Inv
  imports Data_Inv Protocol_Receive
begin

text \<open>
  A datagram keeps the host's invariant and is handled to its end, whatever its bytes: every
  read stays inside the receive buffers, every round of the command loop moves forward, and no
  packet is touched after it was freed.  The one exception is
  \<^verbatim>\<open>SEND_UNRELIABLE_FRAGMENT\<close>, whose handler uses a command that its own queueing may
  have freed (\<open>queue_incoming_may_dangle\<close>).
\<close>

subsection \<open>The receive buffers\<close>

definition buffers_ok :: "host \<Rightarrow> bool" where
  "buffers_ok H \<longleftrightarrow> length (packetData0 H) = unat ENET_PROTOCOL_MAXIMUM_MTU \<and>
     length (packetData1 H) = unat ENET_PROTOCOL_MAXIMUM_MTU \<and>
     unat (receivedDataLength H) \<le> unat ENET_PROTOCOL_MAXIMUM_MTU"

lemma buffers_received_ok: "buffers_ok H \<Longrightarrow> received_ok H"
  by (simp add: buffers_ok_def received_ok_def receivedData_def)

lemma buffers_ok_peers_only: "peers_only H H' \<Longrightarrow> buffers_ok H' = buffers_ok H"
  by (simp add: buffers_ok_def peers_only_simps)

lemma length_receivedData: "buffers_ok H \<Longrightarrow> length (receivedData H) = unat ENET_PROTOCOL_MAXIMUM_MTU"
  by (simp add: buffers_ok_def receivedData_def)

text \<open>What the receive buffers hold does not concern the peers.\<close>

definition same_peers :: "host \<Rightarrow> host \<Rightarrow> bool" where
  "same_peers H H' \<longleftrightarrow> ht_peers H' = ht_peers H \<and> ht_heap H' = ht_heap H \<and> ht_ids H' = ht_ids H \<and>
     dispatchQueue H' = dispatchQueue H \<and> connectedPeers H' = connectedPeers H \<and>
     bandwidthLimitedPeers H' = bandwidthLimitedPeers H \<and> ht_mtu H' = ht_mtu H"

lemma same_peers_ok: "same_peers H H' \<Longrightarrow> host_ok M H' = host_ok M H"
  by (simp add: same_peers_def host_ok_def host_refs_def)

lemma same_peers_at: "same_peers H H' \<Longrightarrow> peer_at H' i = peer_at H i"
  by (simp add: same_peers_def peer_at_def)

lemma set_receivedData_fields:
  "same_peers H (set_receivedData bs H)" "receivedData (set_receivedData bs H) = bs"
  "receivedDataLength (set_receivedData bs H) = receivedDataLength H" "checksum (set_receivedData bs H) = checksum H"
  "length bs = length (receivedData H) \<Longrightarrow> buffers_ok (set_receivedData bs H) = buffers_ok H"
  by (simp_all add: same_peers_def set_receivedData_def receivedData_def buffers_ok_def)

subsection \<open>The commands of a datagram\<close>

text \<open>How many bytes of data follow a command, if it is accepted.\<close>

fun data_length :: "protocol_body \<Rightarrow> nat" where
  "data_length (SendReliable len) = unat len"
| "data_length (SendUnreliable _ len) = unat len"
| "data_length (SendFragment f) = unat (fr_dataLength f)"
| "data_length (SendUnsequenced _ len) = unat len"
| "data_length _ = 0"

text \<open>The commands that the loop handles if each is accepted: those it handles are the first of these.\<close>

fun datagram_commands :: "nat \<Rightarrow> nat \<Rightarrow> host \<Rightarrow> protocol list" where
  "datagram_commands 0 cur H = []"
| "datagram_commands (Suc fuel) cur H =
     (case next_command cur H of
        None \<Rightarrow> []
      | Some (c, cur') \<Rightarrow> c # datagram_commands fuel (cur' + data_length (p_body c)) H)"

definition unreliable_fragment :: "protocol \<Rightarrow> bool" where
  "unreliable_fragment c \<longleftrightarrow> command_number c = ENET_PROTOCOL_COMMAND_SEND_UNRELIABLE_FRAGMENT"

lemma get_body_fits: "get_body num bs = Some (b, cs) \<Longrightarrow> body_fits num b"
  by (auto simp: get_body_def bind_eq_Some_conv split: if_splits prod.splits)

lemma get_command_wf:
  assumes "get_command bs = Some (c, cs)"
  shows "wf_command c"
  using assms get_body_fits by (auto simp: get_command_def bind_eq_Some_conv wf_command_def command_number_def)

lemma command_sizes:
  "list_all (\<lambda>s. unat s = 0 \<or> 4 \<le> unat s) commandSizes" "length commandSizes = 13"
  by (simp add: commandSizes_def enet_consts, simp add: commandSizes_def)

lemma next_command_Some:
  assumes "next_command cur H = Some (c, cur')"
  shows "wf_command c" "cur + 4 \<le> cur'" "cur' \<le> unat (receivedDataLength H)"
proof -
  define num where "num = receivedData H ! cur AND ENET_PROTOCOL_COMMAND_MASK"
  define size where "size = unat (commandSizes ! unat num)"
  define tot where "tot = unat (receivedDataLength H)"
  have eq: "next_command cur H = (if \<not> cur < tot \<or> cur + 4 > tot then None
      else if num \<ge> ENET_PROTOCOL_COMMAND_COUNT then None
      else if size = 0 \<or> cur + size > tot then None
      else map_option (\<lambda>(command, _). (command, cur + size)) (get_command (drop cur (receivedData H))))"
    unfolding next_command_def Let_def num_def size_def tot_def ..
  have n: "\<not> num \<ge> ENET_PROTOCOL_COMMAND_COUNT" "\<not> (size = 0 \<or> cur + size > tot)"
    and c: "map_option (\<lambda>(command, _). (command, cur + size)) (get_command (drop cur (receivedData H))) = Some (c, cur')"
    using assms unfolding eq by (metis option.distinct(1))+
  obtain cs where cs: "get_command (drop cur (receivedData H)) = Some (c, cs)" "cur' = cur + size"
    using c by (cases "get_command (drop cur (receivedData H))") auto
  show "wf_command c"
    using cs(1) get_command_wf by blast
  have "unat num < length commandSizes"
    using n(1) command_sizes(2) by (simp add: enet_consts word_le_nat_alt)
  then have "4 \<le> size"
    using n(2) command_sizes(1) unfolding size_def list_all_length by blast
  then show "cur + 4 \<le> cur'" "cur' \<le> unat (receivedDataLength H)"
    using n(2) cs(2) by (simp_all add: tot_def)
qed

text \<open>The loop reads what lies ahead of it only.\<close>

definition same_rest :: "nat \<Rightarrow> host \<Rightarrow> host \<Rightarrow> bool" where
  "same_rest n H H' \<longleftrightarrow> receivedDataLength H' = receivedDataLength H \<and>
     drop n (receivedData H') = drop n (receivedData H) \<and> length (receivedData H') = length (receivedData H)"

lemma same_rest_mono: "same_rest n H H' \<Longrightarrow> n \<le> m \<Longrightarrow> same_rest m H H'"
  unfolding same_rest_def by (metis drop_drop le_add_diff_inverse2)

lemma same_rest_trans: "same_rest n H1 H2 \<Longrightarrow> same_rest n H2 H3 \<Longrightarrow> same_rest n H1 H3"
  by (simp add: same_rest_def)

lemma same_rest_peers_only: "peers_only H H' \<Longrightarrow> same_rest n H H'"
  by (simp add: same_rest_def peers_only_simps)

lemma next_command_same:
  assumes "same_rest n H H'" "n \<le> cur" "received_ok H"
  shows "next_command cur H' = next_command cur H"
proof -
  have rest: "same_rest cur H H'"
    by (rule same_rest_mono [OF assms(1,2)])
  then have len: "receivedDataLength H' = receivedDataLength H"
    and dr: "drop cur (receivedData H') = drop cur (receivedData H)"
    by (simp_all add: same_rest_def)
  show ?thesis
  proof (cases "cur < unat (receivedDataLength H)")
    case True
    then have "cur < length (receivedData H)" "cur < length (receivedData H')"
      using assms(3) rest by (simp_all add: received_ok_def same_rest_def)
    then have "receivedData H' ! cur = receivedData H ! cur"
      using dr by (metis hd_drop_conv_nth)
    then show ?thesis
      by (simp only: next_command_def Let_def len dr)
  next
    case False
    then show ?thesis
      by (simp only: next_command_def Let_def len if_P disj_not1 not_False_eq_True simp_thms)
  qed
qed

lemma datagram_commands_same:
  "same_rest n H H' \<Longrightarrow> received_ok H \<Longrightarrow> n \<le> cur \<Longrightarrow> datagram_commands fuel cur H' = datagram_commands fuel cur H"
proof (induction fuel arbitrary: cur)
  case (Suc fuel)
  have "n \<le> cur' + m" if "next_command cur H = Some (c, cur')" for c cur' m
    using next_command_Some(2) [OF that] Suc.prems(3) by simp
  then show ?case
    using Suc next_command_same [OF Suc.prems(1,3,2)] by (auto split: option.split)
qed simp

subsection \<open>One command\<close>

lemma queue_acknowledgement_ok:
  assumes H: "host_ok M H" "peer_at H i = Some p"
  shows "\<exists>r H'. on_peer i (\<lambda>p. enet_peer_queue_acknowledgement p command t) H = Some (r, H') \<and>
    host_ok M H' \<and> peers_only H H'"
proof -
  note p = host_okD [OF H]
  obtain b h1 where m: "enet_malloc (ht_heap H) = (b, h1)"
    by (cases "enet_malloc (ht_heap H)")
  have h1: "refs_ok h1 (peer_refs p + (other_refs i H + M))"
    using refs_ok_cong [OF conjunct1 [OF enet_malloc_packets [OF m]] conjunct2 [OF enet_malloc_packets [OF m]]] p(3) by simp
  define p' where "p' = (if b then p\<lparr>outgoingDataTotal := outgoingDataTotal p + ucast sizeof_ENetProtocolAcknowledge,
    acknowledgements := acknowledgements p @ [\<lparr>ack_sentTime = ucast t, ack_command = command\<rparr>]\<rparr> else p)"
  have p': "out_frame p p'" "peer_ok p'" "peer_refs p' = peer_refs p"
    using p(1) by (simp_all add: p'_def out_frame_def peer_ok_def peer_refs_def outgoing_refs_def incoming_refs_def)
  have queue: "(let (ok, h) = enet_malloc (ht_heap H) in
        if \<not> ok then (False, p, h)
        else (True, p\<lparr>outgoingDataTotal := outgoingDataTotal p + ucast sizeof_ENetProtocolAcknowledge,
              acknowledgements := acknowledgements p @
                [\<lparr>ack_sentTime = ucast t, ack_command = command\<rparr>]\<rparr>, h)) = (b, p', h1)"
    by (simp add: m p'_def)
  have "\<exists>late. enet_peer_queue_acknowledgement p command t (ht_heap H) =
      (if late then Some (False, p, ht_heap H) else Some (b, p', h1))"
  proof (cases "ucast (p_channelID command) < channelCount p")
    case True
    then obtain c where c: "channel_at p (p_channelID command) = Some c"
      using p(1) by (auto simp: peer_ok_def channel_at_def word_less_nat_alt)
    show ?thesis
      unfolding enet_peer_queue_acknowledgement_def Let_def if_P [OF True] c Option.bind.bind_lunit
        queue [unfolded Let_def] by (rule exI) (rule refl)
  next
    case False
    then show ?thesis
      unfolding enet_peer_queue_acknowledgement_def Let_def if_not_P [OF False] queue [unfolded Let_def]
      by (intro exI [of _ False]) simp
  qed
  then consider "enet_peer_queue_acknowledgement p command t (ht_heap H) = Some (False, p, ht_heap H)"
    | "enet_peer_queue_acknowledgement p command t (ht_heap H) = Some (b, p', h1)"
    by (auto split: if_split_asm)
  then show ?thesis
  proof cases
    case 1
    then have "on_peer i (\<lambda>p. enet_peer_queue_acknowledgement p command t) H =
        Some (False, set_peer i p (H\<lparr>ht_heap := ht_heap H\<rparr>))"
      by (rule on_peer_Some [OF H(2)])
    then show ?thesis
      using host_ok_out [OF H out_frame_refl p(1,3)] peers_only_upd(4) by blast
  next
    case 2
    then have "on_peer i (\<lambda>p. enet_peer_queue_acknowledgement p command t) H =
        Some (b, set_peer i p' (H\<lparr>ht_heap := h1\<rparr>))"
      by (rule on_peer_Some [OF H(2)])
    then show ?thesis
      using host_ok_out [OF H p'(1,2), of h1] h1 p'(3) peers_only_upd(4) by auto
  qed
qed

lemma get16_total: "2 \<le> length bs \<Longrightarrow> \<exists>w cs. get16 bs = Some (w, cs)"
  by (cases bs rule: get16.cases) auto

lemma acknowledge_command_ok:
  assumes H: "host_ok M H" "peer_at H i = Some p" and b: "buffers_ok H"
  shows "\<exists>r H'. acknowledge_command flags i command H = Some (r, H') \<and> host_ok M H' \<and> peers_only H H'"
proof -
  have "2 \<le> length (drop 2 (packetData0 H))"
    using b by (simp add: buffers_ok_def enet_consts)
  then obtain t cs where t: "get16 (drop 2 (packetData0 H)) = Some (t, cs)"
    using get16_total by blast
  obtain r H' where q: "on_peer i (\<lambda>p. enet_peer_queue_acknowledgement p command t) H = Some (r, H')"
      "host_ok M H'" "peers_only H H'"
    using queue_acknowledgement_ok [OF H] by blast
  show ?thesis
    using H q t by (cases "state p") (auto simp: acknowledge_command_def Let_def)
qed

lemma handle_command_ok:
  assumes H: "host_ok M H" "peer_at H i = Some p" and rc: "received_ok H"
    and c: "wf_command command" "\<not> unreliable_fragment command"
  shows "\<exists>r e' cur' H'. handle_command e i command cur H = Some (r, e', cur', H') \<and> host_ok M H' \<and>
    peers_only H H' \<and> (r = 0 \<longrightarrow> cur' = cur + data_length (p_body command))"
proof (cases "p_body command")
  case (Acknowledge sn t)
  then show ?thesis
    using handle_acknowledge_ok [OF H, of e "p_channelID command" sn t] by (auto simp: handle_command_def)
next
  case (Connect x)
  then show ?thesis
    using H by (simp add: handle_command_def)
next
  case (VerifyConnect x)
  then show ?thesis
    using handle_verify_connect_ok [OF H, of e x] by (auto simp: handle_command_def)
next
  case (Disconnect d)
  then show ?thesis
    using handle_disconnect_ok [OF H, of "has_flag command ENET_PROTOCOL_COMMAND_FLAG_ACKNOWLEDGE" d]
    by (auto simp: handle_command_def)
next
  case Ping
  then show ?thesis
    using handle_ping_ok [OF H(2)] H(1) by (auto simp: handle_command_def)
next
  case (SendReliable len)
  then show ?thesis
    using handle_send_reliable_ok [OF H rc, of command len cur] by (auto simp: handle_command_def)
next
  case (SendUnreliable x len)
  then show ?thesis
    using handle_send_unreliable_ok [OF H rc, of command len cur] by (auto simp: handle_command_def)
next
  case (SendFragment f)
  then have num: "command_number command = ENET_PROTOCOL_COMMAND_SEND_FRAGMENT"
    using c by (auto simp: wf_command_def unreliable_fragment_def)
  then show ?thesis
    using handle_send_fragment_ok [OF H rc num, of f cur] SendFragment by (auto simp: handle_command_def)
next
  case (SendUnsequenced g len)
  then show ?thesis
    using handle_send_unsequenced_ok [OF H rc, of command g len cur] by (auto simp: handle_command_def)
next
  case (BandwidthLimit a b)
  then show ?thesis
    using handle_bandwidth_limit_ok [OF H, of a b] by (auto simp: handle_command_def)
next
  case (ThrottleConfigure t a d)
  then show ?thesis
    using handle_throttle_configure_ok [OF H, of t a d] by (auto simp: handle_command_def)
qed

subsection \<open>The loop over the commands\<close>

lemma drop_patch: "n + length xs \<le> m \<Longrightarrow> n \<le> length ys \<Longrightarrow> drop m (patch n xs ys) = drop m ys"
  by (simp add: patch_def)

lemma convert_number_ok:
  assumes b: "buffers_ok H" and n: "next_command cur H = Some (c, cur')"
  shows "same_peers H (convert_number cur c H)" "buffers_ok (convert_number cur c H)"
    "same_rest cur' H (convert_number cur c H)"
proof -
  define bs where "bs = patch (cur + 2) (rev (put16 (p_reliableSequenceNumber c))) (receivedData H)"
  note n' = next_command_Some(2,3) [OF n]
  have "cur + 4 \<le> length (receivedData H)"
    using n' b length_receivedData [OF b] by (simp add: buffers_ok_def)
  then have len: "length bs = length (receivedData H)"
    unfolding bs_def by (intro length_patch) (simp add: wire_simps)
  have "drop cur' bs = drop cur' (receivedData H)"
    unfolding bs_def by (rule drop_patch) (use n'(1) \<open>cur + 4 \<le> length (receivedData H)\<close> in \<open>simp_all add: wire_simps\<close>)
  then show "same_peers H (convert_number cur c H)" "buffers_ok (convert_number cur c H)"
    "same_rest cur' H (convert_number cur c H)"
    using len b unfolding convert_number_def bs_def [symmetric]
    by (simp_all add: set_receivedData_fields same_rest_def)
qed

text \<open>After a command was handled, or not, what is left of the datagram is as it was.\<close>

definition goes_on :: "packet_id multiset \<Rightarrow> nat \<Rightarrow> host \<Rightarrow> host \<Rightarrow> bool" where
  "goes_on M cur H H' \<longleftrightarrow> host_ok M H' \<and> buffers_ok H' \<and> same_rest cur H H' \<and>
     length (ht_peers H') = length (ht_peers H)"

lemma goes_on_peers_only:
  assumes "goes_on M cur H H1" "peers_only H1 H2" "host_ok M H2"
  shows "goes_on M cur H H2"
  using assms same_rest_trans [OF _ same_rest_peers_only [OF assms(2)]]
  by (simp add: goes_on_def buffers_ok_peers_only peers_only_simps(1))

lemma convert_number_goes_on:
  assumes "host_ok M H" "buffers_ok H" "next_command cur H = Some (c, cur')"
  shows "goes_on M cur' H (convert_number cur c H)"
proof -
  note c = convert_number_ok [OF assms(2,3)]
  have "length (ht_peers (convert_number cur c H)) = length (ht_peers H)"
    using c(1) by (simp add: same_peers_def)
  then show ?thesis
    using assms(1) c same_peers_ok [OF c(1)] by (simp add: goes_on_def)
qed

lemma next_command_progress:
  assumes "next_command cur H = Some (c, cur')" "unat (receivedDataLength H) - cur < Suc fuel"
  shows "unat (receivedDataLength H) - (cur' + n) < fuel"
  using next_command_Some(2,3) [OF assms(1)] assms(2) by simp

lemma commands_loop_ok:
  assumes "host_ok M H" "buffers_ok H" "\<And>i. peer = Some i \<Longrightarrow> i < length (ht_peers H)"
    and "unat (receivedDataLength H) - cur < fuel" "\<forall>c \<in> set (datagram_commands fuel cur H). \<not> unreliable_fragment c"
  shows "\<exists>e' H'. commands_loop fuel flags e peer cur H = Some (e', H') \<and> host_ok M H' \<and> buffers_ok H'"
  using assms
proof (induction fuel arbitrary: e peer cur H)
  case (Suc fuel)
  note ok = Suc.prems(1,2)
  show ?case
  proof (cases "next_command cur H")
    case None
    then show ?thesis
      using ok by (simp add: commands_loop.simps)
  next
    case (Some r)
    obtain c cur' where r: "r = (c, cur')"
      by (cases r)
    note nx = Some [unfolded r]
    note rc = buffers_received_ok [OF ok(2)]
    have safe: "\<not> unreliable_fragment c"
        "\<forall>c \<in> set (datagram_commands fuel (cur' + data_length (p_body c)) H). \<not> unreliable_fragment c"
      using Suc.prems(5) by (simp_all add: nx)
    have IH: "\<exists>e' H''. commands_loop fuel flags e (Some i) cur2 H' = Some (e', H'') \<and> host_ok M H'' \<and> buffers_ok H''"
      if g: "goes_on M cur' H H'" "i < length (ht_peers H)" and cur2: "cur2 = cur' + data_length (p_body c)" for H' i cur2 e
    proof (rule Suc.IH)
      show "host_ok M H'" "buffers_ok H'" "\<And>j. Some i = Some j \<Longrightarrow> j < length (ht_peers H')"
        using g by (auto simp: goes_on_def)
      have rest: "same_rest cur' H H'"
        using g(1) by (simp add: goes_on_def)
      show "unat (receivedDataLength H') - cur2 < fuel"
        using next_command_progress [OF nx Suc.prems(4)] rest by (simp add: same_rest_def cur2)
      show "\<forall>c \<in> set (datagram_commands fuel cur2 H'). \<not> unreliable_fragment c"
        using safe(2) datagram_commands_same [OF rest rc, of cur2] by (simp add: cur2)
    qed
    define H1 where "H1 = convert_number cur c H"
    have H1: "goes_on M cur' H H1"
      unfolding H1_def by (rule convert_number_goes_on [OF ok nx])
    have ack: "\<exists>continue H3. acknowledge_command flags i c H2 = Some (continue, H3) \<and> goes_on M cur' H H3"
      if "goes_on M cur' H H2" "i < length (ht_peers H)" for H2 i
    proof -
      have "host_ok M H2" "peer_at H2 i = Some (ht_peers H2 ! i)" "buffers_ok H2"
        using that by (simp_all add: goes_on_def peer_at_Some)
      from acknowledge_command_ok [OF this] show ?thesis
        using goes_on_peers_only [OF that(1)] by blast
    qed
    show ?thesis
    proof (cases peer)
      case None
      show ?thesis
      proof (cases "\<exists>x. p_body c = Connect x")
        case True
        then obtain x where x: "p_body c = Connect x" ..
        obtain r H2 where H2: "enet_protocol_handle_connect x H1 = Some (r, H2)" "host_ok M H2" "peers_only H1 H2"
            "\<And>i. r = Some i \<Longrightarrow> i < length (ht_peers H)"
          using handle_connect_ok [of M H1 x] H1 by (auto simp: goes_on_def)
        have g2: "goes_on M cur' H H2"
          by (rule goes_on_peers_only [OF H1 H2(3,2)])
        show ?thesis
        proof (cases r)
          case None
          with \<open>peer = None\<close> show ?thesis
            using nx x H2(1) g2 by (simp add: commands_loop.simps H1_def goes_on_def)
        next
          case (Some i)
          obtain continue H3 where H3: "acknowledge_command flags i c H2 = Some (continue, H3)" "goes_on M cur' H H3"
            using ack [OF g2 H2(4) [OF Some]] by blast
          show ?thesis
            using nx x H2(1) H3 IH [OF H3(2) H2(4) [OF Some], of cur' e] Some \<open>peer = None\<close>
            by (cases continue) (simp_all add: commands_loop.simps H1_def goes_on_def)
        qed
      next
        case False
        then have "commands_loop (Suc fuel) flags e peer cur H = Some (e, H)"
          using nx None by (cases "p_body c") (simp_all add: commands_loop.simps)
        then show ?thesis
          using ok by simp
      qed
    next
      case (Some i)
      have i: "i < length (ht_peers H)"
        by (rule Suc.prems(3) [OF Some])
      have 1: "host_ok M H1" "peer_at H1 i = Some (ht_peers H1 ! i)" "received_ok H1"
        using H1 i buffers_received_ok by (auto simp: goes_on_def peer_at_Some)
      from handle_command_ok [OF 1 next_command_Some(1) [OF nx] safe(1), of e cur'] obtain r e2 cur2 H2 where
        H2: "handle_command e i c cur' H1 = Some (r, e2, cur2, H2)" "host_ok M H2" "peers_only H1 H2"
          "r = 0 \<longrightarrow> cur2 = cur' + data_length (p_body c)"
        by blast
      have g2: "goes_on M cur' H H2"
        by (rule goes_on_peers_only [OF H1 H2(3,2)])
      obtain continue H3 where H3: "acknowledge_command flags i c H2 = Some (continue, H3)" "goes_on M cur' H H3"
        using ack [OF g2 i] by blast
      have "commands_loop (Suc fuel) flags e peer cur H =
          (if r \<noteq> 0 then Some (e2, H2) else if continue then commands_loop fuel flags e2 (Some i) cur2 H3 else Some (e2, H3))"
        using nx Some H2(1) H3(1) by (simp add: commands_loop.simps H1_def)
      then show ?thesis
        using g2 H3(2) IH [OF H3(2) i, of cur2 e2] H2(4) by (auto simp: goes_on_def)
    qed
  qed
qed simp

subsection \<open>A datagram\<close>

text \<open>
  The decompressor, which is a callback, reads no more than its input; the bound on what it
  writes is checked by the code.
\<close>

definition decompresses :: "host \<Rightarrow> bool" where
  "decompresses H \<longleftrightarrow> (case read_header (receivedData H) of None \<Rightarrow> True
     | Some hdr \<Rightarrow> decompress_datagram hdr (header_size hdr (checksum H \<noteq> None)) H \<noteq> None)"

text \<open>The commands of the datagram that was received, if all are accepted.\<close>

definition received_commands :: "host \<Rightarrow> protocol list" where
  "received_commands H = (case read_header (receivedData H) of None \<Rightarrow> []
     | Some hdr \<Rightarrow>
         let n = header_size hdr (checksum H \<noteq> None) in
         (case decompress_datagram hdr n H of
            Some (True, H') \<Rightarrow> datagram_commands (Suc (unat (receivedDataLength H'))) (unat n) H'
          | _ \<Rightarrow> []))"

lemma header_size_bounds:
  "unat (header_size hdr c) \<le> 8" "c \<Longrightarrow> 6 \<le> unat (header_size hdr c)" "2 \<le> unat (header_size hdr c)"
  "4 \<le> header_size hdr True"
  by (auto simp: header_size_def sizeof_ENetProtocolHeader_def)

lemma decompress_datagram_ok:
  assumes eq: "decompress_datagram hdr n H = Some (b, H')" and ok: "buffers_ok H" and n: "unat n \<le> 8"
  shows "same_peers H H' \<and> buffers_ok H' \<and> checksum H' = checksum H"
proof (cases "hd_flags hdr AND ENET_PROTOCOL_HEADER_FLAG_COMPRESSED = 0 \<or> ht_compressor H = None")
  case True
  then have "H' = H"
    using eq by (auto simp: decompress_datagram_def split: if_splits)
  then show ?thesis
    using ok by (simp add: same_peers_def)
next
  case False
  then obtain co where co: "ht_compressor H = Some co" "hd_flags hdr AND ENET_PROTOCOL_HEADER_FLAG_COMPRESSED \<noteq> 0"
    by auto
  define limit where "limit = (ucast ENET_PROTOCOL_MAXIMUM_MTU :: size_t) - n"
  have "n \<le> ucast ENET_PROTOCOL_MAXIMUM_MTU"
    using n by (simp add: word_le_nat_alt enet_consts)
  then have limit: "unat limit = unat ENET_PROTOCOL_MAXIMUM_MTU - unat n"
    by (simp add: limit_def unat_sub)
  obtain original where orig: "co_decompress co (drop (unat n) (receivedData H)) (receivedDataLength H - n) limit = Some original"
    using eq co by (auto simp: decompress_datagram_def bind_eq_Some_conv limit_def Let_def)
  have eq': "Some (b, H') = Some (if length original = 0 \<or> length original > unat limit then (False, H)
      else (True, H\<lparr>packetData1 := patch 0 (take (unat n) (receivedData H)) (patch (unat n) original (packetData1 H)),
        receivedSlot := True, receivedDataLength := n + of_nat (length original)\<rparr>))"
    using eq co orig by (simp add: decompress_datagram_def limit_def Let_def)
  show ?thesis
  proof (cases "length original = 0 \<or> length original > unat limit")
    case True
    then show ?thesis
      using eq' ok by (simp add: same_peers_def)
  next
    case False
    then have le: "unat n + length original \<le> unat ENET_PROTOCOL_MAXIMUM_MTU"
      using limit n by (simp add: enet_consts) arith
    then have small: "unat n + length original \<le> 4096"
      by (simp add: enet_consts)
    have "unat (of_nat (length original) :: size_t) = length original"
      using small by (intro unat_of_nat_less) simp
    then have len: "unat (n + of_nat (length original)) = unat n + length original"
      using small by (subst unat_add_no_wrap) simp_all
    have 1: "length (patch (unat n) original (packetData1 H)) = length (packetData1 H)"
      using le ok by (intro length_patch) (simp add: buffers_ok_def)
    have 2: "length (patch 0 (take (unat n) (receivedData H)) (patch (unat n) original (packetData1 H))) = length (packetData1 H)"
      using 1 le ok length_receivedData [OF ok] by (subst length_patch) (simp_all add: buffers_ok_def)
    show ?thesis
      using eq' False ok len le 2 by (simp add: same_peers_def buffers_ok_def)
  qed
qed

lemma get32_native_total: "4 \<le> length bs \<Longrightarrow> \<exists>w cs. get32_native bs = Some (w, cs)"
  by (cases bs rule: get32_native.cases) auto

lemma verify_checksum_ok:
  assumes ok: "buffers_ok H" and n: "unat n \<le> 8" "checksum H \<noteq> None \<Longrightarrow> 4 \<le> unat n"
    and peer: "\<And>i. peer = Some i \<Longrightarrow> i < length (ht_peers H)"
  shows "\<exists>b H'. verify_checksum peer n H = Some (b, H') \<and> same_peers H H' \<and> buffers_ok H' \<and> same_rest (unat n) H H'"
proof (cases "checksum H")
  case None
  then show ?thesis
    using ok by (auto simp: verify_checksum_def same_peers_def same_rest_def)
next
  case (Some f)
  define at where "at = unat (n - 4)"
  have at: "at + 4 = unat n"
    using n(2) Some by (simp add: at_def unat_sub word_le_nat_alt)
  have len: "length (receivedData H) = 4096"
    using length_receivedData [OF ok] by (simp add: enet_consts)
  have "4 \<le> length (drop at (receivedData H))"
    using at n(1) len by simp
  then obtain w cs where w: "get32_native (drop at (receivedData H)) = Some (w, cs)"
    using get32_native_total by blast
  obtain cid where cid: "(case peer of None \<Rightarrow> Some 0 | Some i \<Rightarrow> map_option connectID (peer_at H i)) = Some cid"
    using peer by (cases peer) (auto simp: peer_at_def)
  define H' where "H' = set_receivedData (patch at (put32_native cid) (receivedData H)) H"
  have patch: "length (patch at (put32_native cid) (receivedData H)) = length (receivedData H)"
    using at n(1) len by (intro length_patch) (simp add: wire_simps)
  have "drop (unat n) (patch at (put32_native cid) (receivedData H)) = drop (unat n) (receivedData H)"
    using at n(1) len by (intro drop_patch) (simp_all add: wire_simps)
  then have "same_peers H H'" "buffers_ok H'" "same_rest (unat n) H H'"
    unfolding H'_def using patch ok by (simp_all add: set_receivedData_fields same_rest_def)
  moreover have "\<exists>b. verify_checksum peer n H = Some (b, H')"
    by (simp add: verify_checksum_def Some at_def [symmetric] w cid H'_def Let_def)
  ultimately show ?thesis
    by blast
qed

lemma note_sender_ok:
  assumes H: "host_ok M H" and peer: "\<And>i. peer = Some i \<Longrightarrow> i < length (ht_peers H)"
  shows "\<exists>H'. note_sender peer H = Some H' \<and> host_ok M H' \<and> peers_only H H'"
proof (cases peer)
  case None
  then show ?thesis
    using H by (simp add: note_sender_def)
next
  case (Some i)
  define p where "p = ht_peers H ! i"
  have p: "peer_at H i = Some p"
    using peer [OF Some] by (simp add: peer_at_Some p_def)
  define p' where "p' = p\<lparr>pr_address := receivedAddress H,
    incomingDataTotal := incomingDataTotal p + ucast (receivedDataLength H)\<rparr>"
  have "host_ok M (set_peer i p' H)"
    by (rule host_ok_settings [OF H p])
      (use host_okD(1) [OF H p] in \<open>simp_all add: p'_def out_frame_def peer_ok_def peer_refs_def outgoing_refs_def incoming_refs_def\<close>)
  moreover have "note_sender peer H = Some (set_peer i p' H)"
    by (simp add: note_sender_def Some update_peer_def p p'_def)
  ultimately show ?thesis
    by simp
qed

lemma find_sender_known: "find_sender hdr H = Some (Some i) \<Longrightarrow> i < length (ht_peers H)"
  by (auto simp: find_sender_def Let_def split: if_split_asm)

lemma read_header_total: "2 \<le> length bs \<Longrightarrow> \<exists>hdr. read_header bs = Some hdr"
  using get16_total [of bs] by (auto simp: read_header_def)

lemma handle_incoming_ok:
  assumes H: "host_ok M H" and b: "buffers_ok H" and dec: "decompresses H"
    and safe: "\<forall>c \<in> set (received_commands H). \<not> unreliable_fragment c"
  shows "\<exists>r e' H'. enet_protocol_handle_incoming_commands e H = Some (r, e', H') \<and> host_ok M H' \<and> buffers_ok H' \<and>
    (r = 0 \<or> r = 1)"
proof (cases "receivedDataLength H < 2")
  case True
  then show ?thesis
    using H b by (simp add: enet_protocol_handle_incoming_commands_def)
next
  case False
  obtain hdr where hdr: "read_header (receivedData H) = Some hdr"
    using read_header_total [of "receivedData H"] length_receivedData [OF b] by (auto simp: enet_consts)
  define n where "n = header_size hdr (checksum H \<noteq> None)"
  have n: "unat n \<le> 8" "checksum H \<noteq> None \<Longrightarrow> 4 \<le> unat n"
    using header_size_bounds(1) [of hdr "checksum H \<noteq> None"] header_size_bounds(2) [of "checksum H \<noteq> None" hdr]
    by (auto simp: n_def)
  obtain ok1 H1 where H1: "decompress_datagram hdr n H = Some (ok1, H1)"
    using dec by (auto simp: decompresses_def hdr n_def)
  note 1 = decompress_datagram_ok [OF H1 b n(1)]
  have ok1: "host_ok M H1" "ht_peers H1 = ht_peers H"
    using same_peers_ok [OF conjunct1 [OF 1], of M] H conjunct1 [OF 1] by (simp_all only: same_peers_def)
  note eq = enet_protocol_handle_incoming_commands_def [of e H, unfolded if_not_P [OF False] hdr Option.bind.bind_lunit
      Let_def, folded n_def, unfolded H1 Option.bind.bind_lunit prod.case]
  show ?thesis
  proof (cases "find_sender hdr H = None \<or> \<not> ok1")
    case True
    then have "(\<exists>H'. enet_protocol_handle_incoming_commands e H = Some (0, e, H') \<and> (H' = H \<or> H' = H1))"
      by (cases "find_sender hdr H") (auto simp only: eq option.case if_True not_False_eq_True)
    then show ?thesis
      using H b 1 ok1(1) by blast
  next
    case False
    then obtain peer where peer: "find_sender hdr H = Some peer" and True: "ok1"
      by auto
    have known: "i < length (ht_peers H)" if "peer = Some i" for i
      by (rule find_sender_known [of hdr]) (use peer that in simp)
    obtain ok2 H2 where H2: "verify_checksum peer n H1 = Some (ok2, H2)" "same_peers H1 H2" "buffers_ok H2"
        "same_rest (unat n) H1 H2"
      using verify_checksum_ok [OF conjunct1 [OF conjunct2 [OF 1]] n(1), of peer] conjunct2 [OF conjunct2 [OF 1]] n(2)
        ok1(2) known by metis
    have ok2: "host_ok M H2" "ht_peers H2 = ht_peers H"
      using H2(2) ok1 same_peers_ok [OF H2(2)] by (simp_all add: same_peers_def)
    obtain H3 where H3: "note_sender peer H2 = Some H3" "host_ok M H3" "peers_only H2 H3"
      using note_sender_ok [OF ok2(1), of peer] known ok2(2) by metis
    have rest: "same_rest (unat n) H1 H3"
      by (rule same_rest_trans [OF H2(4) same_rest_peers_only [OF H3(3)]])
    have b3: "buffers_ok H3"
      using H2(3) buffers_ok_peers_only [OF H3(3)] by simp
    have "received_commands H = datagram_commands (Suc (unat (receivedDataLength H1))) (unat n) H1"
      using True by (simp only: received_commands_def hdr option.case Let_def n_def [symmetric] H1 prod.case bool.case)
    then have safe3: "\<forall>c \<in> set (datagram_commands (Suc (unat (receivedDataLength H3))) (unat n) H3). \<not> unreliable_fragment c"
      using safe datagram_commands_same [OF rest buffers_received_ok [OF conjunct1 [OF conjunct2 [OF 1]]] order_refl]
        rest by (simp only: same_rest_def)
    have known3: "i < length (ht_peers H3)" if "peer = Some i" for i
      using known [OF that] ok2(2) peers_only_simps(1) [OF H3(3)] by simp
    have fuel: "unat (receivedDataLength H3) - unat n < Suc (unat (receivedDataLength H3))"
      by simp
    obtain e' H4 where
      H4: "commands_loop (Suc (unat (receivedDataLength H3))) (hd_flags hdr) e peer (unat n) H3 = Some (e', H4)"
        "host_ok M H4" "buffers_ok H4"
      using commands_loop_ok [where peer = peer and flags = "hd_flags hdr" and e = e, OF H3(2) b3 _ fuel safe3] known3 by blast
    have "enet_protocol_handle_incoming_commands e H =
        (if \<not> ok2 then Some (0, e, H2) else Some (if event_ready e' then 1 else 0, e', H4))"
      using True by (simp add: eq peer H2(1) H3(1) H4(1))
    then show ?thesis
      using H4(2,3) ok2(1) H2(3) by (cases ok2) simp_all
  qed
qed

end
