(* ===== verification/Dispatch_Inv.thy ===== *)
theory Dispatch_Inv
  imports Peer_State_Inv
begin

text \<open>
  The dispatch of events to the application: it keeps the host's invariant, returns after at
  most one round per queued peer, and reports the first queued peer that has anything to
  report.
\<close>

definition has_event :: "peer \<Rightarrow> bool" where
  "has_event p \<longleftrightarrow> state p = CONNECTION_PENDING \<or> state p = CONNECTION_SUCCEEDED \<or> state p = ZOMBIE \<or>
     state p = CONNECTED \<and> dispatchedCommands p \<noteq> []"

text \<open>What the application learns about a peer.\<close>

definition event_of :: "peer \<Rightarrow> event_type" where
  "event_of p = (if state p = ZOMBIE then EVENT_DISCONNECT else if state p = CONNECTED then EVENT_RECEIVE else EVENT_CONNECT)"

subsection \<open>Receiving from a peer\<close>

lemma take_reference:
  assumes ok: "refs_ok h (add_mset pid M)" and pk: "hp_packets h pid = Some pk"
  shows "refs_ok (update_packet pid (pk\<lparr>referenceCount := referenceCount pk - 1\<rparr>) h) M"
proof -
  have "unat (referenceCount pk) = Suc (count M pid)"
    using refs_ok_count [OF ok pk] by simp
  then have "unat (referenceCount pk - 1) = count M pid"
    by (rule unat_dec)
  moreover have "count M q = 0" if "hp_packets h q = None" "q \<noteq> pid" for q
    using refs_ok_None [OF ok that(1)] that(2) by simp
  moreover have "unat (referenceCount p) = count M q" if "hp_packets h q = Some p" "q \<noteq> pid" for q p
    using refs_ok_count [OF ok that(1)] that(2) by simp
  ultimately show ?thesis
    using refs_ok_next [OF ok] refs_ok_fits [OF ok] pk
    by (intro refs_okI) (auto simp: update_packet_def split: if_splits simp del: count_eq_zero_iff)
qed

lemma peer_receive_ok:
  assumes p: "peer_ok p" "incoming_ok n p" and refs: "refs_ok h (peer_refs p + M)" and ne: "dispatchedCommands p \<noteq> []"
  shows "\<exists>pid chan p' h'. enet_peer_receive p h = Some (Some (pid, chan), p', h') \<and> refs_ok h' (peer_refs p' + M) \<and>
    live h' pid \<and> peer_ok p' \<and> incoming_ok n p' \<and> same_status p p' \<and> needsDispatch p' = needsDispatch p"
proof -
  obtain c cs where c: "dispatchedCommands p = c # cs"
    using ne by (cases "dispatchedCommands p") simp_all
  have wf: "\<forall>d \<in> set (peer_commands p). incoming_wf d" and mem: "c \<in> set (peer_commands p)"
    using p(2) c by (simp_all add: incoming_ok_def peer_commands_def)
  then obtain pid where pid: "ic_packet c = Some pid"
    by (auto simp: incoming_wf_def)
  define q where "q t = p\<lparr>dispatchedCommands := cs, totalWaitingData := t\<rparr>" for t
  have q: "peer_ok (q t)" "same_status p (q t)" "needsDispatch (q t) = needsDispatch p" for t
    using p(1) by (simp_all add: q_def peer_ok_def same_status_def is_connected_def is_limited_def)
  have pr: "peer_refs p = add_mset pid (peer_refs (q t))" for t
    by (simp add: peer_refs_def outgoing_refs_def incoming_refs_def q_def c pid)
  have pc: "peer_commands p = c # peer_commands (q t)" for t
    by (simp add: peer_commands_def c q_def)
  have io: "incoming_ok n (q t)" for t
    using p(2) pc [of t] unfolding incoming_ok_def ids_ok_def spare_ok_def by (simp add: q_def)
  have "refs_ok h (add_mset pid (peer_refs (q 0) + M))"
    using refs pr [of 0] by simp
  moreover from this obtain pk where pk: "hp_packets h pid = Some pk"
    using refs_ok_None [of h "add_mset pid (peer_refs (q 0) + M)" pid] by (cases "hp_packets h pid") auto
  ultimately have rk: "refs_ok (update_packet pid (pk\<lparr>referenceCount := referenceCount pk - 1\<rparr>) h) (peer_refs (q 0) + M)"
    by (rule take_reference)
  have same: "peer_refs (q t) = peer_refs (q 0)" for t
    by (simp add: peer_refs_def outgoing_refs_def incoming_refs_def q_def)
  have "refs_ok (update_packet pid (pk\<lparr>referenceCount := referenceCount pk - 1\<rparr>) h) (peer_refs (q t) + M)" for t
    using rk same [of t] by simp
  moreover have "live (update_packet pid (pk\<lparr>referenceCount := referenceCount pk - 1\<rparr>) h) pid"
    by (simp add: live_def update_packet_def)
  moreover have "enet_peer_receive p h = Some (Some (pid, p_channelID (ic_command c)),
      q (totalWaitingData p - dataLength pk),
      update_packet pid (pk\<lparr>referenceCount := referenceCount pk - 1\<rparr>) h)"
    by (simp add: enet_peer_receive_def c pid pk q_def Let_def)
  ultimately show ?thesis
    using q io by metis
qed

subsection \<open>One round\<close>

definition unmark :: "nat \<Rightarrow> nat list \<Rightarrow> peer \<Rightarrow> host \<Rightarrow> host" where
  "unmark i queue p H = set_peer i (p\<lparr>needsDispatch := False\<rparr>) (H\<lparr>dispatchQueue := queue\<rparr>)"

lemma unmark_ok:
  assumes H: "host_ok M H" and q: "dispatchQueue H = i # queue"
  obtains p where "peer_at H i = Some p" "host_ok M (unmark i queue p H)"
    "peer_at (unmark i queue p H) i = Some (p\<lparr>needsDispatch := False\<rparr>)" "i \<notin> set queue" "peers_only H (unmark i queue p H)"
proof -
  have "i \<in> {i. i < length (ht_peers H) \<and> needsDispatch (ht_peers H ! i)}" and ni: "i \<notin> set queue"
    using H q by (auto simp: host_ok_def queue_ok_def)
  then have p: "peer_at H i = Some (ht_peers H ! i)" "needsDispatch (ht_peers H ! i)"
    by (simp_all add: peer_at_Some)
  define p' where "p' = (ht_peers H ! i)\<lparr>needsDispatch := False\<rparr>"
  note pp = host_okD [OF H p(1)]
  have "host_ok M (set_peer i p' (H\<lparr>dispatchQueue := queue, ht_heap := ht_heap H\<rparr>))"
    by (rule host_ok_queue [OF H p(1)]) (use pp p(2) q in \<open>simp_all add: p'_def same_status_def queue_step_def\<close>)
  then have "host_ok M (unmark i queue (ht_peers H ! i) H)"
    by (simp add: unmark_def p'_def)
  then show thesis
    using that [OF p(1)] ni peer_at_set(4) [OF p(1)] peers_only_upd(5) by (simp add: unmark_def)
qed

lemma dispatch_round_none:
  assumes "peer_at H i = Some p" "\<not> has_event p"
  shows "dispatch_round i e (H\<lparr>dispatchQueue := queue\<rparr>) = Some (None, e, unmark i queue p H)"
  using assms by (cases "state p") (simp_all add: dispatch_round_def has_event_def unmark_def)

lemma mark_again:
  assumes H: "host_ok M H" "peer_at H i = Some p" and n: "\<not> needsDispatch p"
  shows "host_ok M (set_peer i (p\<lparr>needsDispatch := True\<rparr>) (H\<lparr>dispatchQueue := dispatchQueue H @ [i]\<rparr>))"
proof -
  note p = host_okD [OF H]
  have "host_ok M (set_peer i (p\<lparr>needsDispatch := True\<rparr>)
      (H\<lparr>dispatchQueue := dispatchQueue H @ [i], ht_heap := ht_heap H\<rparr>))"
    by (rule host_ok_queue [OF H]) (use p n in \<open>simp_all add: same_status_def queue_step_def\<close>)
  then show ?thesis
    by simp
qed

text \<open>What a round that ends the call hands to the application.\<close>

definition reported :: "event \<Rightarrow> nat \<Rightarrow> peer \<Rightarrow> host \<Rightarrow> bool" where
  "reported e i p H \<longleftrightarrow> ev_peer e = Some i \<and> ev_type e = event_of p \<and>
     (event_of p = EVENT_RECEIVE \<longrightarrow> (\<exists>pid. ev_packet e = Some pid \<and> live (ht_heap H) pid))"

lemma dispatch_round_event:
  assumes H: "host_ok M H" and q: "dispatchQueue H = i # queue" and p: "peer_at H i = Some p" and ev: "has_event p"
  shows "\<exists>e' H'. dispatch_round i e (H\<lparr>dispatchQueue := queue\<rparr>) = Some (Some 1, e', H') \<and> host_ok M H' \<and>
    peers_only H H' \<and> reported e' i p H'"
proof -
  define H1 where "H1 = unmark i queue p H"
  have H1: "host_ok M H1" "peer_at H1 i = Some (p\<lparr>needsDispatch := False\<rparr>)" "peers_only H H1"
    using unmark_ok [OF H q] p unfolding H1_def by (metis option.inject)+
  define p1 where "p1 = p\<lparr>needsDispatch := False\<rparr>"
  note H1' = H1(1,2) [folded p1_def]
  note eq = dispatch_round_def [of i e "H\<lparr>dispatchQueue := queue\<rparr>"]
  have at: "peer_at (H\<lparr>dispatchQueue := queue\<rparr>) i = Some p"
    using p by simp
  have un: "set_peer i p1 (H\<lparr>dispatchQueue := queue\<rparr>) = H1"
    by (simp add: H1_def unmark_def p1_def)
  have p1: "state p1 = state p" "dispatchedCommands p1 = dispatchedCommands p"
    by (simp_all add: p1_def)
  consider (connect) "state p = CONNECTION_PENDING \<or> state p = CONNECTION_SUCCEEDED" | (zombie) "state p = ZOMBIE"
    | (receive) "state p = CONNECTED" "dispatchedCommands p \<noteq> []"
    using ev by (auto simp: has_event_def)
  then show ?thesis
  proof cases
    case connect
    obtain H2 where "enet_protocol_change_state i CONNECTED H1 = Some H2" "host_ok M H2" "peers_only H1 H2"
      using change_state_ok [OF H1', of CONNECTED] by auto
    then show ?thesis
      using connect peers_only_trans [OF H1(3)] un at
      by (auto simp: eq p1_def [symmetric] p1 reported_def event_of_def Let_def)
  next
    case zombie
    have "host_ok M (H1\<lparr>recalculateBandwidthLimits := True\<rparr>)" "peer_at (H1\<lparr>recalculateBandwidthLimits := True\<rparr>) i = Some p1"
      using H1' by simp_all
    from peer_reset_ok [OF this] obtain H2 where "enet_peer_reset i (H1\<lparr>recalculateBandwidthLimits := True\<rparr>) = Some H2"
        "host_ok M H2" "peers_only (H1\<lparr>recalculateBandwidthLimits := True\<rparr>) H2"
      by blast
    then show ?thesis
      using zombie peers_only_trans [OF H1(3) peers_only_trans [OF peers_only_upd(2)]] un at
      by (auto simp: eq p1_def [symmetric] p1 reported_def event_of_def Let_def)
  next
    case receive
    note pp = host_okD [OF H1']
    obtain pid chan p2 h2 where r: "enet_peer_receive p1 (ht_heap H1) = Some (Some (pid, chan), p2, h2)"
        "refs_ok h2 (peer_refs p2 + (other_refs i H1 + M))" "live h2 pid" "peer_ok p2" "incoming_ok (ht_ids H1) p2"
        "same_status p1 p2" "needsDispatch p2 = needsDispatch p1"
      using peer_receive_ok [OF pp(1-3)] receive(2) p1(2) by auto
    define H2 where "H2 = set_peer i p2 (H1\<lparr>ht_heap := h2\<rparr>)"
    have on: "on_peer i enet_peer_receive H1 = Some (Some (pid, chan), H2)"
      unfolding H2_def by (rule on_peer_Some [OF H1'(2)]) (rule r(1))
    have H2: "host_ok M H2" "peer_at H2 i = Some p2" "peers_only H1 H2" "ht_heap H2 = h2"
      unfolding H2_def using host_ok_peer [OF H1' r(4-7,2)] peer_at_set(2) [OF H1'(2)] by simp_all
    define H3 where "H3 = (if dispatchedCommands p2 \<noteq> []
      then set_peer i (p2\<lparr>needsDispatch := True\<rparr>) (H2\<lparr>dispatchQueue := dispatchQueue H2 @ [i]\<rparr>) else H2)"
    have "host_ok M H3" "peers_only H2 H3" "ht_heap H3 = h2"
      using H2 mark_again [OF H2(1,2)] r(7) by (simp_all add: H3_def p1_def)
    moreover have "dispatch_round i e (H\<lparr>dispatchQueue := queue\<rparr>) =
        Some (Some 1, e\<lparr>ev_type := EVENT_RECEIVE, ev_peer := Some i, ev_channelID := chan, ev_packet := Some pid\<rparr>, H3)"
      using receive by (simp add: eq p p1_def [symmetric] p1 un on H2(2) H3_def Let_def)
    ultimately show ?thesis
      using receive r(3) peers_only_trans [OF H1(3) peers_only_trans [OF H2(3)]]
      by (auto simp: reported_def event_of_def)
  qed
qed

subsection \<open>The loop\<close>

lemma dispatch_loop_ok:
  assumes "host_ok M H" "length (dispatchQueue H) \<le> fuel"
  shows "\<exists>r e' H'. dispatch_loop fuel e H = Some (r, e', H') \<and> host_ok M H' \<and> peers_only H H' \<and>
    (case List.find (\<lambda>i. has_event (ht_peers H ! i)) (dispatchQueue H) of
       None \<Rightarrow> r = 0 \<and> e' = e \<and> dispatchQueue H' = []
     | Some i \<Rightarrow> r = 1 \<and> reported e' i (ht_peers H ! i) H')"
  using assms
proof (induction fuel arbitrary: H)
  case 0
  then show ?case
    by simp
next
  case (Suc fuel)
  show ?case
  proof (cases "dispatchQueue H")
    case Nil
    then show ?thesis
      using Suc.prems(1) by simp
  next
    case (Cons i queue)
    obtain p where p: "peer_at H i = Some p" "host_ok M (unmark i queue p H)" "i \<notin> set queue"
        "peers_only H (unmark i queue p H)"
      using unmark_ok [OF Suc.prems(1) Cons] by blast
    have pi: "p = ht_peers H ! i" "i < length (ht_peers H)"
      using p(1) by (simp_all add: peer_at_Some)
    show ?thesis
    proof (cases "has_event p")
      case True
      from dispatch_round_event [OF Suc.prems(1) Cons p(1) this, of e] show ?thesis
        using Cons True pi by (fastforce simp del: dispatch_loop.simps simp: dispatch_loop.simps(2))
    next
      case False
      define H1 where "H1 = unmark i queue p H"
      have H1: "dispatchQueue H1 = queue" "\<And>j. j \<noteq> i \<Longrightarrow> ht_peers H1 ! j = ht_peers H ! j"
        by (simp_all add: H1_def unmark_def set_peer_def)
      have len: "length (dispatchQueue H1) \<le> fuel"
        using Suc.prems(2) Cons H1(1) by simp
      have find: "List.find (\<lambda>i. has_event (ht_peers H1 ! i)) (dispatchQueue H1) =
          List.find (\<lambda>i. has_event (ht_peers H ! i)) (dispatchQueue H)"
      proof -
        have "ht_peers H1 ! j = ht_peers H ! j" if "j \<in> set queue" for j
          using H1(2) that p(3) by metis
        then show ?thesis
          using False pi H1(1) unfolding Cons by (auto intro!: find_cong)
      qed
      have same: "ht_peers H1 ! j = ht_peers H ! j"
        if "List.find (\<lambda>i. has_event (ht_peers H ! i)) (dispatchQueue H) = Some j" for j
      proof -
        have "has_event (ht_peers H ! j)"
          using that by (auto simp: find_Some_iff)
        then have "j \<noteq> i"
          using False pi(1) by auto
        then show ?thesis
          by (rule H1(2))
      qed
      obtain r e' H' where IH: "dispatch_loop fuel e H1 = Some (r, e', H')" "host_ok M H'" "peers_only H1 H'"
          "case List.find (\<lambda>i. has_event (ht_peers H1 ! i)) (dispatchQueue H1) of
            None \<Rightarrow> r = 0 \<and> e' = e \<and> dispatchQueue H' = []
          | Some i \<Rightarrow> r = 1 \<and> reported e' i (ht_peers H1 ! i) H'"
        using Suc.IH [OF p(2) [folded H1_def] len] by blast
      have "dispatch_loop (Suc fuel) e H = Some (r, e', H')"
        using IH(1) dispatch_round_none [OF p(1) False, of e queue] by (simp add: Cons H1_def)
      then show ?thesis
        using IH(2,3,4) peers_only_trans [OF p(4) [folded H1_def]] same unfolding find
        by (auto split: option.splits)
    qed
  qed
qed

end
