(* ===== verification/Host.thy ===== *)
theory Host
  imports Protocol_Connect
begin

text \<open>
  \<^verbatim>\<open>host.c\<close>: creation and destruction of a host, connecting, broadcasting, its settings, and
  the division of its bandwidth among the peers.  The two adjustment loops of the throttle
  terminate because each round marks a peer with the current time (\<open>unmarked\<close>).
\<close>

subsection \<open>Creation and destruction\<close>

definition clamp_channels :: "size_t \<Rightarrow> size_t" where
  "clamp_channels limit =
     (if limit = 0 \<or> limit > ENET_PROTOCOL_MAXIMUM_CHANNEL_COUNT then ENET_PROTOCOL_MAXIMUM_CHANNEL_COUNT
      else if limit < ENET_PROTOCOL_MINIMUM_CHANNEL_COUNT then ENET_PROTOCOL_MINIMUM_CHANNEL_COUNT
      else limit)"

definition initial_peer :: "nat \<Rightarrow> peer" where
  "initial_peer i = zero_peer\<lparr>incomingPeerID := of_nat i, outgoingSessionID := 0xFF, incomingSessionID := 0xFF\<rparr>"

primrec reset_all :: "nat list \<Rightarrow> host \<Rightarrow> host option" where
  "reset_all [] H = Some H"
| "reset_all (i # is) H = Option.bind (enet_peer_reset i H) (reset_all is)"

text \<open>The fields of a new host, before its peers are reset.\<close>

definition initial_host :: "address \<Rightarrow> nat \<Rightarrow> size_t \<Rightarrow> u32 \<Rightarrow> u32 \<Rightarrow> u32 \<Rightarrow> world \<Rightarrow> host" where
  "initial_host addr peerCount limit incoming outgoing seed w = world.extend w (host.fields
     addr incoming outgoing 0 ENET_HOST_DEFAULT_MTU seed False (map initial_peer [0..<peerCount])
     (clamp_channels limit) 0 [] False 0 0 0 [] None None \<lparr>ad_host = 0, ad_port = 0\<rparr>
     (replicate (unat ENET_PROTOCOL_MAXIMUM_MTU) 0) (replicate (unat ENET_PROTOCOL_MAXIMUM_MTU) 0)
     False 0 0 0 0 0 None 0 0 (ucast ENET_PROTOCOL_MAXIMUM_PEER_ID)
     ENET_HOST_DEFAULT_MAXIMUM_PACKET_SIZE ENET_HOST_DEFAULT_MAXIMUM_WAITING_DATA)"

text \<open>
  What the operating system contributes: whether a socket could be created and bound, the
  address it reports, and the random seed, to which the code adds the address of the host.
\<close>

record platform =
  pf_socket :: bool
  pf_bound :: bool
  pf_address :: "address option"
  pf_seed :: u32
  pf_pointer :: u32

definition host_seed :: "platform \<Rightarrow> u32" where
  "host_seed pf = (let s = pf_pointer pf + pf_seed pf in push_bit 16 s OR drop_bit 16 s)"

text \<open>\<open>Inl\<close> is the null result, with what is left of the world.\<close>

definition enet_host_create ::
  "platform \<Rightarrow> address option \<Rightarrow> size_t \<Rightarrow> size_t \<Rightarrow> u32 \<Rightarrow> u32 \<Rightarrow> world \<Rightarrow> (world + host) option" where
  "enet_host_create pf address peerCount limit incoming outgoing w =
     (if peerCount > ucast ENET_PROTOCOL_MAXIMUM_PEER_ID then Some (Inl w)
      else
        let (ok, h) = enet_malloc (ht_heap w); w = w\<lparr>ht_heap := h\<rparr> in
        if \<not> ok then Some (Inl w)
        else
          let (ok, h) = enet_malloc (ht_heap w); w = w\<lparr>ht_heap := h\<rparr> in
          if \<not> ok \<or> \<not> pf_socket pf \<or> (address \<noteq> None \<and> \<not> pf_bound pf) then Some (Inl w)
          else
            let addr = (case address of
                  None \<Rightarrow> \<lparr>ad_host = 0, ad_port = 0\<rparr>
                | Some a \<Rightarrow> (case pf_address pf of None \<Rightarrow> a | Some b \<Rightarrow> b));
                H = initial_host addr (unat peerCount) limit incoming outgoing (host_seed pf) w
            in map_option Inr (reset_all [0..<length (ht_peers H)] H))"

definition enet_host_destroy :: "host \<Rightarrow> world option" where
  "enet_host_destroy H = map_option world.truncate (reset_all [0..<length (ht_peers H)] H)"

subsection \<open>Connecting\<close>

text \<open>The first disconnected peer.\<close>

fun free_peer :: "nat \<Rightarrow> peer list \<Rightarrow> nat option" where
  "free_peer i [] = None"
| "free_peer i (p # ps) = (if state p = DISCONNECTED then Some i else free_peer (Suc i) ps)"

definition connect_window :: "u32 \<Rightarrow> u32" where
  "connect_window outgoing =
     clamp_window (if outgoing = 0 then ENET_PROTOCOL_MAXIMUM_WINDOW_SIZE else scale_window outgoing)"

definition connect_command :: "host \<Rightarrow> u32 \<Rightarrow> peer \<Rightarrow> protocol" where
  "connect_command H data peer =
     command_of (ENET_PROTOCOL_COMMAND_CONNECT OR ENET_PROTOCOL_COMMAND_FLAG_ACKNOWLEDGE) 0xFF
       (Connect \<lparr>cn_outgoingPeerID = incomingPeerID peer, cn_incomingSessionID = incomingSessionID peer,
          cn_outgoingSessionID = outgoingSessionID peer, cn_mtu = mtu peer, cn_windowSize = windowSize peer,
          cn_channelCount = ucast (channelCount peer), cn_incomingBandwidth = ht_incomingBandwidth H,
          cn_outgoingBandwidth = ht_outgoingBandwidth H,
          cn_packetThrottleInterval = packetThrottleInterval peer,
          cn_packetThrottleAcceleration = packetThrottleAcceleration peer,
          cn_packetThrottleDeceleration = packetThrottleDeceleration peer,
          cn_connectID = connectID peer, cn_data = data\<rparr>)"

definition enet_host_connect :: "address \<Rightarrow> size_t \<Rightarrow> u32 \<Rightarrow> host \<Rightarrow> (nat option \<times> host) option" where
  "enet_host_connect addr chans data H =
     (let chans = clamp ENET_PROTOCOL_MINIMUM_CHANNEL_COUNT ENET_PROTOCOL_MAXIMUM_CHANNEL_COUNT chans in
      case free_peer 0 (ht_peers H) of
        None \<Rightarrow> Some (None, H)
      | Some i \<Rightarrow>
          let (ok, h) = enet_malloc (ht_heap H); H = H\<lparr>ht_heap := h\<rparr> in
          if \<not> ok then Some (None, H)
          else do {
            let H = H\<lparr>randomSeed := randomSeed H + 1\<rparr>;
            peer \<leftarrow> peer_at H i;
            let peer = peer\<lparr>channels := replicate (unat chans) fresh_channel, channelCount := chans,
                  state := CONNECTING, pr_address := addr, connectID := randomSeed H,
                  windowSize := connect_window (ht_outgoingBandwidth H)\<rparr>;
            (_, H) \<leftarrow> queue_command i (connect_command H data peer) (set_peer i peer H);
            Some (Some i, H) })"

subsection \<open>Broadcasting and settings\<close>

primrec broadcast_loop :: "nat list \<Rightarrow> u8 \<Rightarrow> packet_id \<Rightarrow> host \<Rightarrow> host option" where
  "broadcast_loop [] chan pid H = Some H"
| "broadcast_loop (i # is) chan pid H = do {
     peer \<leftarrow> peer_at H i;
     if state peer \<noteq> CONNECTED then broadcast_loop is chan pid H
     else do {
       (_, H) \<leftarrow> on_peer i (\<lambda>p. enet_peer_send (maximumPacketSize H) (checksum H \<noteq> None) p chan pid) H;
       broadcast_loop is chan pid H } }"

definition enet_host_broadcast :: "u8 \<Rightarrow> packet_id \<Rightarrow> host \<Rightarrow> host option" where
  "enet_host_broadcast chan pid H = do {
     H \<leftarrow> broadcast_loop [0..<length (ht_peers H)] chan pid H;
     packet \<leftarrow> hp_packets (ht_heap H) pid;
     if referenceCount packet = 0
     then do { h \<leftarrow> enet_packet_destroy (Some pid) (ht_heap H); Some (H\<lparr>ht_heap := h\<rparr>) }
     else Some H }"

definition enet_host_compress :: "compressor option \<Rightarrow> host \<Rightarrow> host" where
  "enet_host_compress c H = H\<lparr>ht_compressor := c\<rparr>"

definition enet_host_channel_limit :: "size_t \<Rightarrow> host \<Rightarrow> host" where
  "enet_host_channel_limit limit H = H\<lparr>channelLimit := clamp_channels limit\<rparr>"

definition enet_host_bandwidth_limit :: "u32 \<Rightarrow> u32 \<Rightarrow> host \<Rightarrow> host" where
  "enet_host_bandwidth_limit incoming outgoing H =
     H\<lparr>ht_incomingBandwidth := incoming, ht_outgoingBandwidth := outgoing, recalculateBandwidthLimits := True\<rparr>"

end
