(* ===== verification/Host_Ops_Inv.thy ===== *)
theory Host_Ops_Inv
  imports Acks_Inv Connect_Inv Host
begin

text \<open>
  The invariant is established by \<^verbatim>\<open>enet_host_create\<close>, kept by \<^verbatim>\<open>enet_host_connect\<close> and the
  settings, and \<^verbatim>\<open>enet_host_destroy\<close> gives back every reference the host held.
\<close>

subsection \<open>Creation\<close>

text \<open>A peer that was never used holds nothing; resetting it touches neither heap nor queue.\<close>

definition unused :: "peer \<Rightarrow> bool" where
  "unused p \<longleftrightarrow> state p = DISCONNECTED \<and> \<not> needsDispatch p \<and> sentReliableCommands p = [] \<and>
     sentUnreliableCommands p = [] \<and> outgoingReliableCommands p = [] \<and> outgoingUnreliableCommands p = [] \<and>
     dispatchedCommands p = [] \<and> channels p = []"

lemma reset_unused:
  assumes "peer_at H i = Some p" "unused p"
  shows "enet_peer_reset i H = Some (set_peer i (reset_peer (ht_mtu H) p) H)"
proof -
  have "enet_peer_on_disconnect p H = H"
    using assms(2) by (simp add: enet_peer_on_disconnect_def unused_def)
  moreover have "enet_peer_reset_queues i (reset_fields m p) q h = Some ((), reset_peer m p, q, h)" for m q h
    using assms(2) by (simp add: enet_peer_reset_queues_def unused_def reset_fields_def reset_peer_def emptied_def
        enet_peer_reset_outgoing_commands_def enet_peer_remove_incoming_commands_def List.map_filter_simps Let_def)
  ultimately show ?thesis
    using assms(1) by (auto simp: enet_peer_reset_def on_queue_def set_peer_def peer_at_def split: if_split_asm)
qed

lemma reset_all_unused:
  assumes "distinct is" "\<forall>i \<in> set is. i < length (ht_peers H) \<and> unused (ht_peers H ! i)"
  shows "\<exists>ps. reset_all is H = Some (H\<lparr>ht_peers := ps\<rparr>) \<and> length ps = length (ht_peers H) \<and>
    (\<forall>j < length ps. ps ! j = (if j \<in> set is then reset_peer (ht_mtu H) (ht_peers H ! j) else ht_peers H ! j))"
  using assms
proof (induction "is" arbitrary: H)
  case (Cons i "is")
  define H1 where "H1 = set_peer i (reset_peer (ht_mtu H) (ht_peers H ! i)) H"
  have r: "enet_peer_reset i H = Some H1"
    unfolding H1_def using Cons.prems by (intro reset_unused) (simp_all add: peer_at_Some)
  have "\<forall>j \<in> set is. j < length (ht_peers H1) \<and> unused (ht_peers H1 ! j)"
  proof
    fix j
    assume j: "j \<in> set is"
    then have "j \<noteq> i"
      using Cons.prems(1) by auto
    then show "j < length (ht_peers H1) \<and> unused (ht_peers H1 ! j)"
      using Cons.prems(2) j by (simp add: H1_def set_peer_def)
  qed
  from Cons.IH [OF _ this] Cons.prems(1) obtain ps where ps: "reset_all is H1 = Some (H1\<lparr>ht_peers := ps\<rparr>)"
      "length ps = length (ht_peers H1)"
      "\<forall>j < length ps. ps ! j = (if j \<in> set is then reset_peer (ht_mtu H1) (ht_peers H1 ! j) else ht_peers H1 ! j)"
    by auto
  have "H1\<lparr>ht_peers := ps\<rparr> = H\<lparr>ht_peers := ps\<rparr>"
    by (simp add: H1_def set_peer_def)
  moreover have "ps ! j = (if j \<in> set (i # is) then reset_peer (ht_mtu H) (ht_peers H ! j) else ht_peers H ! j)"
    if "j < length ps" for j
    using ps(2,3) Cons.prems that by (cases "j = i") (simp_all add: H1_def set_peer_def)
  moreover have "length ps = length (ht_peers H)"
    using ps(2) by (simp add: H1_def set_peer_def)
  moreover have "reset_all (i # is) H = Some (H1\<lparr>ht_peers := ps\<rparr>)"
    using r ps(1) by simp
  ultimately show ?case
    by (intro exI [of _ ps] conjI allI impI) simp_all
next
  case Nil
  then show ?case
    by (intro exI [of _ "ht_peers H"]) simp
qed

lemma initial_peer_reset:
  assumes "ENET_PROTOCOL_MINIMUM_MTU \<le> m" "m \<le> ENET_PROTOCOL_MAXIMUM_MTU"
  shows "unused (initial_peer i)" "peer_ok (reset_peer m (initial_peer i))"
    "incoming_ok n (reset_peer m (initial_peer i))" "state (reset_peer m (initial_peer i)) = DISCONNECTED"
  using assms by (simp_all add: unused_def initial_peer_def zero_peer_def reset_peer_def emptied_def reset_fields_def
      peer_ok_def enet_consts incoming_ok_def ids_ok_def spare_ok_def empty_channels_def peer_commands_def)

lemma tally_none: "\<forall>p \<in> set ps. \<not> P p \<Longrightarrow> tally P ps = 0"
  by (simp add: tally_def filter_False)

lemma sum_list_empty: "\<forall>p \<in> set ps. peer_refs p = {#} \<Longrightarrow> sum_list (map peer_refs ps) = {#}"
  by (induction ps) simp_all

lemma fresh_peers_ok:
  assumes peers: "\<forall>p \<in> set (ht_peers H). peer_ok p \<and> incoming_ok (ht_ids H) p \<and> state p = DISCONNECTED \<and>
      \<not> needsDispatch p \<and> peer_refs p = {#}"
    and f: "connectedPeers H = 0" "bandwidthLimitedPeers H = 0" "dispatchQueue H = []"
      "ENET_PROTOCOL_MINIMUM_MTU \<le> ht_mtu H" "ht_mtu H \<le> ENET_PROTOCOL_MAXIMUM_MTU" "refs_ok (ht_heap H) M"
  shows "host_ok M H"
proof -
  have "host_refs H = {#}"
    using peers sum_list_empty [of "ht_peers H"] by (simp add: host_refs_def)
  moreover have "tally is_connected (ht_peers H) = 0" "tally is_limited (ht_peers H) = 0"
    using peers by (auto intro!: tally_none simp: is_connected_def is_limited_def)
  moreover have "queue_ok (ht_peers H) []"
    using peers by (simp add: queue_ok_def)
  ultimately show ?thesis
    using peers f by (simp add: host_ok_def)
qed

lemma initial_host_fields:
  "ht_heap (initial_host a n l i out s w) = ht_heap w" "ht_ids (initial_host a n l i out s w) = ht_ids w"
  "ht_mtu (initial_host a n l i out s w) = ENET_HOST_DEFAULT_MTU"
  "ht_peers (initial_host a n l i out s w) = map initial_peer [0..<n]" "connectedPeers (initial_host a n l i out s w) = 0"
  "bandwidthLimitedPeers (initial_host a n l i out s w) = 0" "dispatchQueue (initial_host a n l i out s w) = []"
  "receivedDataLength (initial_host a n l i out s w) = 0"
  "packetData0 (initial_host a n l i out s w) = replicate (unat ENET_PROTOCOL_MAXIMUM_MTU) 0"
  "packetData1 (initial_host a n l i out s w) = replicate (unat ENET_PROTOCOL_MAXIMUM_MTU) 0"
  by (simp_all add: initial_host_def world.defs host.defs)

lemma reset_initial_ok:
  assumes "refs_ok (ht_heap w) M" and H: "H = initial_host a n l i out s w"
  shows "\<exists>ps. reset_all [0..<length (ht_peers H)] H = Some (H\<lparr>ht_peers := ps\<rparr>) \<and> length ps = n \<and>
    host_ok M (H\<lparr>ht_peers := ps\<rparr>) \<and> (\<forall>p \<in> set ps. state p = DISCONNECTED)"
proof -
  have m: "ENET_PROTOCOL_MINIMUM_MTU \<le> ht_mtu H" "ht_mtu H \<le> ENET_PROTOCOL_MAXIMUM_MTU"
    by (simp_all add: H initial_host_fields enet_consts)
  note ip = initial_peer_reset [OF m]
  have "\<forall>i \<in> set [0..<length (ht_peers H)]. i < length (ht_peers H) \<and> unused (ht_peers H ! i)"
    using ip(1) by (simp add: H initial_host_fields)
  from reset_all_unused [OF distinct_upt this] obtain ps where
    ps: "reset_all [0..<length (ht_peers H)] H = Some (H\<lparr>ht_peers := ps\<rparr>)" "length ps = length (ht_peers H)"
      "\<forall>j < length ps. ps ! j = reset_peer (ht_mtu H) (ht_peers H ! j)"
    by auto
  have "\<forall>p \<in> set ps. \<exists>j. p = reset_peer (ht_mtu H) (initial_peer j)"
    using ps(2,3) by (force simp: in_set_conv_nth H initial_host_fields)
  then have all: "\<forall>p \<in> set ps. peer_ok p \<and> incoming_ok (ht_ids H) p \<and> state p = DISCONNECTED \<and>
      \<not> needsDispatch p \<and> peer_refs p = {#}"
    using ip(2-4) by auto
  have "host_ok M (H\<lparr>ht_peers := ps\<rparr>)"
    by (rule fresh_peers_ok) (use all m assms(1) in \<open>simp_all add: H initial_host_fields\<close>)
  then show ?thesis
    using ps(1,2) all by (intro exI [of _ ps]) (simp add: H initial_host_fields)
qed

lemma host_create_ok:
  assumes "refs_ok (ht_heap w) M"
  shows "\<exists>r. enet_host_create pf addr n limit inc out w = Some r \<and>
    (\<forall>H. r = Inr H \<longrightarrow> host_ok M H \<and> length (ht_peers H) = unat n \<and> (\<forall>p \<in> set (ht_peers H). state p = DISCONNECTED))"
proof -
  obtain b1 h1 where m1: "enet_malloc (ht_heap w) = (b1, h1)"
    by (cases "enet_malloc (ht_heap w)")
  obtain b2 h2 where m2: "enet_malloc h1 = (b2, h2)"
    by (cases "enet_malloc h1")
  have refs: "refs_ok h2 M"
    using assms refs_ok_cong [OF conjunct1 [OF enet_malloc_packets [OF m1]] conjunct2 [OF enet_malloc_packets [OF m1]]]
      refs_ok_cong [OF conjunct1 [OF enet_malloc_packets [OF m2]] conjunct2 [OF enet_malloc_packets [OF m2]]] by simp
  have "\<exists>r. map_option Inr (reset_all [0..<length (ht_peers H)] H) = Some (r :: world + host) \<and>
    (\<forall>H. r = Inr H \<longrightarrow> host_ok M H \<and> length (ht_peers H) = unat n \<and> (\<forall>p \<in> set (ht_peers H). state p = DISCONNECTED))"
    if "H = initial_host a (unat n) limit inc out s (w\<lparr>ht_heap := h2\<rparr>)" for H a s
    using reset_initial_ok [OF _ that, of M] refs by auto
  then show ?thesis
    by (auto simp: enet_host_create_def m1 m2 Let_def)
qed

subsection \<open>Destruction\<close>

lemma reset_others:
  assumes "enet_peer_reset i H = Some H'" "j \<noteq> i"
  shows "ht_peers H' ! j = ht_peers H ! j"
  using assms by (auto simp: enet_peer_reset_def on_queue_def set_peer_def on_disconnect_fields bind_eq_Some_conv Let_def)

lemma reset_all_others: "reset_all is H = Some H' \<Longrightarrow> j \<notin> set is \<Longrightarrow> ht_peers H' ! j = ht_peers H ! j"
  by (induction "is" arbitrary: H) (auto simp: bind_eq_Some_conv reset_others)

lemma reset_all_ok:
  "host_ok M H \<Longrightarrow> \<forall>i \<in> set is. i < length (ht_peers H) \<Longrightarrow>
    \<exists>H'. reset_all is H = Some H' \<and> host_ok M H' \<and> peers_only H H' \<and> (\<forall>i \<in> set is. peer_refs (ht_peers H' ! i) = {#})"
proof (induction "is" arbitrary: H)
  case (Cons i "is")
  have "peer_at H i = Some (ht_peers H ! i)"
    using Cons.prems(2) by (simp add: peer_at_Some)
  from peer_reset_ok [OF Cons.prems(1) this] obtain H1 where H1: "enet_peer_reset i H = Some H1" "host_ok M H1"
      "peers_only H H1" "peer_at H1 i = Some (reset_peer (ht_mtu H) (ht_peers H ! i))"
    by blast
  have "\<forall>j \<in> set is. j < length (ht_peers H1)"
    using Cons.prems(2) peers_only_simps(1) [OF H1(3)] by simp
  from Cons.IH [OF H1(2) this] obtain H' where H': "reset_all is H1 = Some H'" "host_ok M H'" "peers_only H1 H'"
      "\<forall>j \<in> set is. peer_refs (ht_peers H' ! j) = {#}"
    by blast
  have "peer_refs (ht_peers H' ! i) = {#}"
  proof (cases "i \<in> set is")
    case False
    then have "ht_peers H' ! i = ht_peers H1 ! i"
      using reset_all_others [OF H'(1)] by simp
    then show ?thesis
      using H1(4) reset_peer_simps(2) by (metis peer_at_Some)
  qed (use H'(4) in simp)
  then show ?case
    using H1(1) H' peers_only_trans [OF H1(3)] by simp
qed simp

lemma host_destroy_ok:
  assumes "host_ok M H"
  shows "\<exists>w. enet_host_destroy H = Some w \<and> refs_ok (ht_heap w) M"
proof -
  obtain H' where H': "reset_all [0..<length (ht_peers H)] H = Some H'" "host_ok M H'" "peers_only H H'"
      "\<forall>i \<in> set [0..<length (ht_peers H)]. peer_refs (ht_peers H' ! i) = {#}"
    using reset_all_ok [OF assms, of "[0..<length (ht_peers H)]"] by auto
  have "\<forall>p \<in> set (ht_peers H'). peer_refs p = {#}"
    using H'(4) peers_only_simps(1) [OF H'(3)] by (auto simp: in_set_conv_nth)
  then have "host_refs H' = {#}"
    by (simp add: host_refs_def sum_list_empty)
  then have "refs_ok (ht_heap H') M"
    using H'(2) by (simp add: host_ok_def)
  then show ?thesis
    using H'(1) by (simp add: enet_host_destroy_def world.defs)
qed

subsection \<open>Connecting\<close>

lemma free_peer_disconnected:
  "free_peer n ps = Some i \<Longrightarrow> n \<le> i \<and> i < n + length ps \<and> state (ps ! (i - n)) = DISCONNECTED"
proof (induction ps arbitrary: n)
  case (Cons p ps)
  then show ?case
    by (cases "state p = DISCONNECTED") (fastforce simp: nth_Cons' split: if_splits)+
qed simp

lemma clamp_channels_le: "(clamp ENET_PROTOCOL_MINIMUM_CHANNEL_COUNT ENET_PROTOCOL_MAXIMUM_CHANNEL_COUNT n :: size_t)
    \<le> ENET_PROTOCOL_MAXIMUM_CHANNEL_COUNT"
  using clamp_bounds [of ENET_PROTOCOL_MINIMUM_CHANNEL_COUNT ENET_PROTOCOL_MAXIMUM_CHANNEL_COUNT n]
  by (simp add: enet_consts)

definition connecting :: "size_t \<Rightarrow> address \<Rightarrow> host \<Rightarrow> peer \<Rightarrow> peer" where
  "connecting chans addr H p = p\<lparr>channels := replicate (unat chans) fresh_channel, channelCount := chans,
     state := CONNECTING, pr_address := addr, connectID := randomSeed H,
     windowSize := connect_window (ht_outgoingBandwidth H)\<rparr>"

lemma connecting_ok:
  assumes p: "peer_ok p" "incoming_ok n p" "state p = DISCONNECTED" and chans: "chans \<le> ENET_PROTOCOL_MAXIMUM_CHANNEL_COUNT"
  shows "peer_ok (connecting chans addr H p)" "incoming_ok n (connecting chans addr H p)"
    "same_status p (connecting chans addr H p)" "peer_refs (connecting chans addr H p) = peer_refs p"
    "needsDispatch (connecting chans addr H p) = needsDispatch p"
proof -
  have none: "channels p = []"
    using p(2,3) by (simp add: incoming_ok_def)
  show "peer_ok (connecting chans addr H p)"
    using p(1) chans clamp_window_bounds by (simp add: peer_ok_def connecting_def connect_window_def)
  have "peer_commands (connecting chans addr H p) = peer_commands p"
    by (simp add: connecting_def peer_commands_def none concat_replicate_trivial)
  then show "incoming_ok n (connecting chans addr H p)"
    using p(2) by (simp add: incoming_ok_def ids_ok_def spare_ok_def connecting_def empty_channels_def)
  show "same_status p (connecting chans addr H p)" "peer_refs (connecting chans addr H p) = peer_refs p"
    "needsDispatch (connecting chans addr H p) = needsDispatch p"
    by (simp_all add: same_status_def is_connected_def is_limited_def p(3) connecting_def peer_refs_def
        outgoing_refs_def incoming_refs_def none)
qed

lemma host_connect_ok:
  assumes H: "host_ok M H"
  shows "\<exists>r H'. enet_host_connect addr chans d H = Some (r, H') \<and> host_ok M H' \<and>
    (\<forall>i. r = Some i \<longrightarrow> i < length (ht_peers H) \<and> state (ht_peers H ! i) = DISCONNECTED)"
proof (cases "free_peer 0 (ht_peers H)")
  case None
  then show ?thesis
    using H by (simp add: enet_host_connect_def Let_def)
next
  case (Some i)
  have i: "i < length (ht_peers H)" "state (ht_peers H ! i) = DISCONNECTED"
    using free_peer_disconnected [OF Some] by simp_all
  obtain b h where m: "enet_malloc (ht_heap H) = (b, h)"
    by (cases "enet_malloc (ht_heap H)")
  define H1 where "H1 = H\<lparr>ht_heap := h\<rparr>"
  have H1: "host_ok M H1"
    unfolding H1_def by (rule malloc_host_ok [OF m H])
  define H2 where "H2 = H1\<lparr>randomSeed := randomSeed H1 + 1\<rparr>"
  have H2: "host_ok M H2" "peer_at H2 i = Some (ht_peers H ! i)"
    using H1 i by (simp_all add: H2_def H1_def host_ok_def host_refs_def peer_at_def)
  define n where "n = clamp ENET_PROTOCOL_MINIMUM_CHANNEL_COUNT ENET_PROTOCOL_MAXIMUM_CHANNEL_COUNT chans"
  define p' where "p' = connecting n addr H2 (ht_peers H ! i)"
  note ok = connecting_ok [OF host_okD(1,2) [OF H2] i(2) clamp_channels_le [of chans, folded n_def], of addr H2, folded p'_def]
  have H3: "host_ok M (set_peer i p' H2)" "peer_at (set_peer i p' H2) i = Some p'"
    using host_ok_peer [OF H2 ok(1-3,5), of "ht_heap H2"] host_okD(3) [OF H2] ok(4) peer_at_set(1) [OF H2(2)] by simp_all
  have "p_channelID (connect_command H2 d p') = 0xFF"
    by (simp add: connect_command_def command_of_def)
  from queue_command_ok [OF H3 this] obtain r H4 where
    H4: "queue_command i (connect_command H2 d p') (set_peer i p' H2) = Some (r, H4)" "host_ok M H4"
    by blast
  have "enet_host_connect addr chans d H = (if \<not> b then Some (None, H1) else Some (Some i, H4))"
    using Some H2(2) H4(1)
    by (simp add: enet_host_connect_def Let_def m H1_def [symmetric] H2_def [symmetric] n_def [symmetric]
        connecting_def [symmetric] p'_def [symmetric])
  then show ?thesis
    using H1 H4(2) i by auto
qed

end

