(* ===== verification/Host_Safety.thy ===== *)
theory Host_Safety
  imports Receive_Inv Dispatch_Inv Host_Ops_Inv
begin

text \<open>
  The properties of a host as a whole, and a small host on which they are exercised.
\<close>

subsection \<open>A sample host\<close>

definition sample_world :: world where
  "sample_world = \<lparr>ht_heap = empty_heap, ht_ids = 0, ht_now = 0, ht_clock = [], ht_receives = [], ht_sends = [],
     ht_waits = [], ht_sent = []\<rparr>"

text \<open>One peer; the receive buffers are left empty.\<close>

definition sample_host :: "peer \<Rightarrow> host" where
  "sample_host p = world.extend sample_world (host.fields
     \<lparr>ad_host = 0, ad_port = 0\<rparr> 0 0 0 ENET_HOST_DEFAULT_MTU 0 False [p] 1 0 (if needsDispatch p then [0] else [])
     False 0 0 0 [] None None \<lparr>ad_host = 0, ad_port = 0\<rparr> [] [] False 0 0 0 0 0 None
     (if is_connected p then 1 else 0) 0 (ucast ENET_PROTOCOL_MAXIMUM_PEER_ID)
     ENET_HOST_DEFAULT_MAXIMUM_PACKET_SIZE ENET_HOST_DEFAULT_MAXIMUM_WAITING_DATA)"

lemma sample_host_fields:
  "ht_heap (sample_host p) = empty_heap" "ht_ids (sample_host p) = 0" "ht_mtu (sample_host p) = ENET_HOST_DEFAULT_MTU"
  "ht_peers (sample_host p) = [p]" "bandwidthLimitedPeers (sample_host p) = 0"
  "connectedPeers (sample_host p) = (if is_connected p then 1 else 0)"
  "dispatchQueue (sample_host p) = (if needsDispatch p then [0] else [])"
  "receivedSlot (sample_host p) = False" "receivedDataLength (sample_host p) = 0"
  "checksum (sample_host p) = None" "ht_compressor (sample_host p) = None" "serviceTime (sample_host p) = 0"
  "maximumPacketSize (sample_host p) = ENET_HOST_DEFAULT_MAXIMUM_PACKET_SIZE"
  by (simp_all add: sample_host_def sample_world_def world.defs host.defs)

lemma sample_host_ok:
  assumes "peer_ok p" "incoming_ok 0 p" "peer_refs p = {#}" "incomingBandwidth p = 0"
  shows "host_ok {#} (sample_host p)"
proof -
  have "refs_ok empty_heap {#}"
    by (simp add: refs_ok_def empty_heap_def)
  then show ?thesis
    using assms by (auto simp: host_ok_def sample_host_fields tally_def is_limited_def queue_ok_def host_refs_def enet_consts)
qed

lemma sample_peer_incoming: "incoming_ok 0 (sample_peer\<lparr>state := st, needsDispatch := b\<rparr>) \<longleftrightarrow> st \<noteq> DISCONNECTED"
  by (auto simp: incoming_ok_def spare_ok_def ids_ok_def peer_commands_def sample_peer_def zero_peer_def
      fresh_channel_def empty_channels_def channel_refs_def)

lemma sample_state_ok: "st \<noteq> DISCONNECTED \<Longrightarrow> host_ok {#} (sample_host (sample_peer\<lparr>state := st, needsDispatch := b\<rparr>))"
  by (rule sample_host_ok) (use sample_peer_ok sample_peer_refs sample_peer_incoming in
      \<open>simp_all add: sample_peer_def zero_peer_def peer_ok_def fresh_channel_def channel_ok_def enet_consts peer_refs_def
        outgoing_refs_def incoming_refs_def channel_refs_def\<close>)

subsection \<open>Receiving\<close>


text \<open>A datagram for peer 0 of session 0 with one reliable command of two bytes on channel 0.\<close>

definition sample_bytes :: "u8 list" where
  "sample_bytes = [0x80, 0, 0, 0, 0x86, 0, 0, 1, 0, 2, 7, 8]"

definition sample_received :: "peer \<Rightarrow> host" where
  "sample_received p = (sample_host p)\<lparr>packetData0 := sample_bytes @ replicate 4084 0,
     packetData1 := replicate 4096 0, receivedDataLength := 12\<rparr>"

lemma sample_received_ok:
  "host_ok M (sample_host p) \<Longrightarrow> host_ok M (sample_received p)" "buffers_ok (sample_received p)"
  by (simp_all add: sample_received_def host_ok_def host_refs_def buffers_ok_def sample_host_fields enet_consts
      sample_bytes_def)

lemma sample_received_commands:
  "decompresses (sample_received sample_peer)"
  "map command_number (received_commands (sample_received sample_peer)) = [ENET_PROTOCOL_COMMAND_SEND_RELIABLE]"
  by code_simp+


subsection \<open>Dispatching\<close>

text \<open>
  C2.  A dispatch call returns after at most one round per queued peer.  It reports the first
  queued peer that has anything to report: a connection that came up, a connection that ended,
  or a packet, which is live when it is handed out; if it reports nothing, no queued peer had
  anything to report and the queue is empty.  The host's invariant is kept.
\<close>

theorem dispatch_reports_first_event:
  assumes "host_ok M H"
  shows "\<exists>r e' H'. enet_protocol_dispatch_incoming_commands e H = Some (r, e', H') \<and> host_ok M H' \<and>
    (case List.find (\<lambda>i. has_event (ht_peers H ! i)) (dispatchQueue H) of
       None \<Rightarrow> r = 0 \<and> e' = e \<and> dispatchQueue H' = []
     | Some i \<Rightarrow> r = 1 \<and> reported e' i (ht_peers H ! i) H')"
  unfolding enet_protocol_dispatch_incoming_commands_def
  using dispatch_loop_ok [OF assms order_refl, of e] by blast

theorem dispatch_reports_first_event_witness:
  "\<exists>e' H'. enet_protocol_dispatch_incoming_commands no_event
      (sample_host (sample_peer\<lparr>state := ZOMBIE, needsDispatch := True\<rparr>)) = Some (1, e', H') \<and>
    ev_type e' = EVENT_DISCONNECT \<and> connectedPeers H' = 0"
proof -
  have H: "host_ok {#} (sample_host (sample_peer\<lparr>state := ZOMBIE, needsDispatch := True\<rparr>))"
    by (rule sample_state_ok) simp
  obtain e' H' where
    "enet_protocol_dispatch_incoming_commands no_event (sample_host (sample_peer\<lparr>state := ZOMBIE, needsDispatch := True\<rparr>)) =
      Some (1, e', H')" "ev_type e' = EVENT_DISCONNECT"
    using dispatch_reports_first_event [OF H, of no_event]
    by (auto simp: sample_host_fields has_event_def reported_def event_of_def)
  moreover have "map_option (\<lambda>(r, e, H). connectedPeers H) (enet_protocol_dispatch_incoming_commands no_event
      (sample_host (sample_peer\<lparr>state := ZOMBIE, needsDispatch := True\<rparr>))) = Some 0"
    by code_simp
  ultimately show ?thesis
    by auto
qed

subsection \<open>Creation and destruction\<close>

text \<open>
  C5.  Creating a host never fails in an undefined way, and a host that is created satisfies the
  invariant: all its peers are free, no counter is set, and no packet is held.
\<close>

theorem host_create_establishes_invariant:
  assumes "refs_ok (ht_heap w) M"
  shows "\<exists>r. enet_host_create pf addr n limit inc out w = Some r \<and>
    (\<forall>H. r = Inr H \<longrightarrow> host_ok M H \<and> length (ht_peers H) = unat n \<and> (\<forall>p \<in> set (ht_peers H). state p = DISCONNECTED))"
  by (rule host_create_ok [OF assms])

definition sample_platform :: platform where
  "sample_platform = \<lparr>pf_socket = True, pf_bound = True, pf_address = None, pf_seed = 1, pf_pointer = 2\<rparr>"

lemma sample_world_refs: "refs_ok (ht_heap sample_world) {#}"
  by (simp add: refs_ok_def sample_world_def empty_heap_def)

theorem host_create_establishes_invariant_witness:
  "\<exists>H. enet_host_create sample_platform None 2 1 0 0 sample_world = Some (Inr H) \<and> host_ok {#} H \<and>
    length (ht_peers H) = 2"
proof -
  have "map_option (\<lambda>r. case r of Inl _ \<Rightarrow> False | Inr _ \<Rightarrow> True) (enet_host_create sample_platform None 2 1 0 0 sample_world) = Some True"
    by code_simp
  then obtain r where r: "enet_host_create sample_platform None 2 1 0 0 sample_world = Some r"
      "case r of Inl _ \<Rightarrow> False | Inr _ \<Rightarrow> True"
    by auto
  then obtain H where "enet_host_create sample_platform None 2 1 0 0 sample_world = Some (Inr H)"
    by (cases r) auto
  then show ?thesis
    using host_create_establishes_invariant [OF sample_world_refs, of sample_platform None 2 1 0 0] by auto
qed

text \<open>
  C6.  Destroying a host gives back every reference that its queues held: afterwards the only
  references to packets are those of the application.
\<close>

theorem host_destroy_releases_packets:
  assumes "host_ok M H"
  shows "\<exists>w. enet_host_destroy H = Some w \<and> refs_ok (ht_heap w) M"
  by (rule host_destroy_ok [OF assms])

theorem host_destroy_releases_packets_witness:
  "\<exists>w. enet_host_destroy (sample_host (sample_peer\<lparr>state := CONNECTED, needsDispatch := True\<rparr>)) = Some w \<and>
    refs_ok (ht_heap w) {#}"
  by (rule host_destroy_releases_packets [OF sample_state_ok]) simp

text \<open>
  C7.  Resetting a peer, in any state, frees it: the counters no longer count it, it leaves the
  dispatch queue, and the references its queues held are given back.
\<close>

theorem peer_reset_frees_peer:
  assumes "host_ok M H" "i < length (ht_peers H)"
  shows "\<exists>H'. enet_peer_reset i H = Some H' \<and> host_ok M H' \<and> state (ht_peers H' ! i) = DISCONNECTED \<and>
    channels (ht_peers H' ! i) = [] \<and> peer_refs (ht_peers H' ! i) = {#} \<and> i \<notin> set (dispatchQueue H') \<and>
    connectedPeers H' = connectedPeers H - (if is_connected (ht_peers H ! i) then 1 else 0)"
proof -
  have p: "peer_at H i = Some (ht_peers H ! i)"
    using assms(2) by (simp add: peer_at_Some)
  obtain H' where H': "enet_peer_reset i H = Some H'" "host_ok M H'"
      "peer_at H' i = Some (reset_peer (ht_mtu H) (ht_peers H ! i))"
    using peer_reset_ok [OF assms(1) p] by blast
  have "connectedPeers H' = connectedPeers H - (if is_connected (ht_peers H ! i) then 1 else 0)"
    using H'(1) p by (auto simp: enet_peer_reset_def on_queue_def bind_eq_Some_conv set_peer_def on_disconnect_fields Let_def)
  moreover have "ht_peers H' ! i = reset_peer (ht_mtu H) (ht_peers H ! i)"
    using H'(3) by (simp add: peer_at_Some)
  moreover have "i \<notin> set (dispatchQueue H')"
    using host_okD(4) [OF H'(2,3)] by simp
  ultimately show ?thesis
    using H'(1,2) by simp
qed

theorem peer_reset_frees_peer_witness:
  "\<exists>H'. enet_peer_reset 0 (sample_host (sample_peer\<lparr>state := CONNECTED, needsDispatch := True\<rparr>)) = Some H' \<and>
    connectedPeers H' = 0 \<and> 0 \<notin> set (dispatchQueue H')"
proof -
  have "host_ok {#} (sample_host (sample_peer\<lparr>state := CONNECTED, needsDispatch := True\<rparr>))"
    by (rule sample_state_ok) simp
  from peer_reset_frees_peer [OF this, of 0] show ?thesis
    by (auto simp: sample_host_fields is_connected_def)
qed

end
