(* ===== verification/Peer_Order.thy ===== *)
theory Peer_Order
  imports Peer_In
begin

text \<open>
  What the sequence windows and the sorted queue of a channel achieve: reliable commands
  that arrive in any order and any number of times are handed over once each, in sequence
  order, also where the 16-bit sequence number wraps around.
\<close>

subsection \<open>Distances between sequence numbers\<close>

definition distance :: "u16 \<Rightarrow> u16 \<Rightarrow> nat" where
  "distance current sn = unat (sn - current)"

lemma distance_cases:
  "distance current sn = (if current \<le> sn then unat sn - unat current else unat sn + 65536 - unat current)"
  using unat_sub_if_size [of sn current] by (auto simp: distance_def word_size word_le_nat_alt)

lemma distance_0 [simp]: "distance current sn = 0 \<longleftrightarrow> sn = current"
  by (simp add: distance_def unat_eq_zero)

lemma distance_inj: "distance current a = distance current b \<Longrightarrow> a = b"
  by (simp add: distance_def flip: word_unat_eq_iff)

lemma distance_less: "distance current sn < 65536"
  by (simp add: distance_def)

lemma distance_add: "z < 65536 \<Longrightarrow> distance current (current + of_nat z) = z"
  by (simp add: distance_def unat_of_nat_less)

text \<open>The windows of the code, computed without wrap-around.\<close>

lemma relative_window_nat:
  "unat (relative_window sn c) =
    (unat (ch_incomingReliableSequenceNumber c) + distance (ch_incomingReliableSequenceNumber c) sn) div 4096"
proof (cases "sn < ch_incomingReliableSequenceNumber c")
  case True
  have "unat (sn div 4096) = unat sn div 4096"
    by (simp add: unat_div_distrib)
  moreover from this have "unat (sn div 4096 + 16) = unat sn div 4096 + 16"
    using div_le_mono [of "unat sn" 65535 4096] unat_u16_lt [of sn] by (subst unat_add_no_wrap) simp_all
  moreover have "unat (ch_incomingReliableSequenceNumber c) + distance (ch_incomingReliableSequenceNumber c) sn =
      unat sn + 16 * 4096"
    using True by (simp add: distance_cases word_less_nat_alt word_le_nat_alt)
      (insert unat_u16_lt [of "ch_incomingReliableSequenceNumber c"], linarith)
  ultimately show ?thesis
    using True by (simp add: relative_window_def enet_consts)
next
  case False
  then show ?thesis
    by (simp add: relative_window_def enet_consts distance_cases word_le_nat_alt word_less_nat_alt
        unat_div_distrib)
qed

lemma current_window_nat: "unat (current_window c) = unat (ch_incomingReliableSequenceNumber c) div 4096"
  by (simp add: current_window_def enet_consts unat_div_distrib)

text \<open>
  The test of \<^verbatim>\<open>enet_peer_queue_incoming_command\<close>: a number passes if it lies in the
  current window or one of the six that follow it.
\<close>

lemma window_test:
  "relative_window sn c < current_window c \<or>
    relative_window sn c \<ge> current_window c + ENET_PEER_FREE_RELIABLE_WINDOWS - 1 \<longleftrightarrow>
   unat (ch_incomingReliableSequenceNumber c) div 4096 + 7 \<le>
     (unat (ch_incomingReliableSequenceNumber c) + distance (ch_incomingReliableSequenceNumber c) sn) div 4096"
proof -
  let ?b = "unat (ch_incomingReliableSequenceNumber c)"
  have "unat (current_window c + 7) = ?b div 4096 + 7"
    using div_le_mono [of ?b 65535 4096] unat_u16_lt [of "ch_incomingReliableSequenceNumber c"]
    by (subst unat_add_no_wrap) (simp_all add: current_window_nat)
  moreover have win: "current_window c + ENET_PEER_FREE_RELIABLE_WINDOWS - 1 = current_window c + 7"
    by (simp add: enet_consts)
  moreover have "?b div 4096 \<le> (?b + distance (ch_incomingReliableSequenceNumber c) sn) div 4096"
    by (rule div_le_mono) simp
  ultimately show ?thesis
    unfolding win word_le_nat_alt word_less_nat_alt relative_window_nat by (simp add: current_window_nat)
qed

lemma window_near: "d \<le> 6 * 4096 \<Longrightarrow> \<not> b div 4096 + 7 \<le> (b + d) div (4096 :: nat)"
  using div_mult_mod_eq [of b 4096] mod_less_divisor [of 4096 b] by (simp add: less_eq_div_iff_mult_less_eq)

lemma window_far: "7 * 4096 \<le> d \<Longrightarrow> b div 4096 + 7 \<le> (b + d) div (4096 :: nat)"
  using div_mult_mod_eq [of b 4096] by (simp add: less_eq_div_iff_mult_less_eq)

lemma near_accepted:
  "distance (ch_incomingReliableSequenceNumber c) sn \<le> 6 * 4096 \<Longrightarrow>
    \<not> (relative_window sn c < current_window c \<or>
       relative_window sn c \<ge> current_window c + ENET_PEER_FREE_RELIABLE_WINDOWS - 1)"
  unfolding window_test by (rule window_near)

lemma far_refused:
  "7 * 4096 \<le> distance (ch_incomingReliableSequenceNumber c) sn \<Longrightarrow>
    relative_window sn c < current_window c \<or>
    relative_window sn c \<ge> current_window c + ENET_PEER_FREE_RELIABLE_WINDOWS - 1"
  unfolding window_test by (rule window_far)

subsection \<open>The sorted queue\<close>

lemma find_reliable_step:
  "find_reliable current sn (c # cs) =
    (if distance current (ic_reliableSequenceNumber c) < distance current sn then Some (length (c # cs))
     else if ic_reliableSequenceNumber c = sn then None
     else find_reliable current sn cs)"
proof -
  have lt: "distance current a < distance current b \<longleftrightarrow>
      (if current \<le> b then current \<le> a \<and> a < b else current \<le> a \<or> a < b)" for a b
    by (auto simp: distance_cases word_le_nat_alt word_less_nat_alt)
      (insert unat_u16_lt [of a] unat_u16_lt [of b] unat_u16_lt [of current], linarith+)
  show ?thesis
    by (auto simp: lt)
qed

lemma find_reliable_sorted:
  "sorted_wrt (\<lambda>a b. distance current (ic_reliableSequenceNumber a) < distance current (ic_reliableSequenceNumber b)) cs \<Longrightarrow>
    find_reliable current sn (rev cs) =
      (if sn \<in> ic_reliableSequenceNumber ` set cs then None
       else Some (length (filter (\<lambda>c. distance current (ic_reliableSequenceNumber c) < distance current sn) cs)))"
proof (induction cs rule: rev_induct)
  case (snoc x xs)
  have lt: "\<forall>a \<in> set xs. distance current (ic_reliableSequenceNumber a) < distance current (ic_reliableSequenceNumber x)"
    using snoc.prems by (simp add: sorted_wrt_append)
  have IH: "find_reliable current sn (rev xs) =
      (if sn \<in> ic_reliableSequenceNumber ` set xs then None
       else Some (length (filter (\<lambda>c. distance current (ic_reliableSequenceNumber c) < distance current sn) xs)))"
    using snoc by (simp add: sorted_wrt_append)
  consider "distance current (ic_reliableSequenceNumber x) < distance current sn"
    | "ic_reliableSequenceNumber x = sn"
    | "distance current sn < distance current (ic_reliableSequenceNumber x)"
    using distance_inj by (metis linorder_neqE_nat)
  then show ?case
  proof cases
    case 1
    then have "filter (\<lambda>c. distance current (ic_reliableSequenceNumber c) < distance current sn) xs = xs"
      using lt by (auto simp: filter_id_conv)
    moreover have "sn \<notin> ic_reliableSequenceNumber ` set (xs @ [x])"
      using 1 lt by auto
    ultimately show ?thesis
      using 1 by (simp add: find_reliable_step del: find_reliable.simps)
  qed (use lt IH in \<open>auto simp: find_reliable_step simp del: find_reliable.simps\<close>)
qed simp

text \<open>
  On a queue of offsets: a strictly increasing list of numbers, all beyond the current one.
\<close>

definition plain_at :: "u16 \<Rightarrow> nat \<Rightarrow> incoming_command \<Rightarrow> bool" where
  "plain_at base z c \<longleftrightarrow> ic_reliableSequenceNumber c = base + of_nat z \<and>
     ic_fragmentsRemaining c = 0 \<and> ic_fragmentCount c = 0"

definition at_offsets :: "u16 \<Rightarrow> nat list \<Rightarrow> incoming_command list \<Rightarrow> bool" where
  "at_offsets base os cs \<longleftrightarrow> list_all2 (plain_at base) os cs \<and> sorted_wrt (<) os"

lemma reliable_prefix_offsets:
  assumes "at_offsets base os cs" "\<forall>z \<in> set os. k < z \<and> z < 65536"
  shows "\<exists>k'. k \<le> k' \<and> k' - k \<le> length os \<and>
    reliable_prefix (base + of_nat k) cs = (base + of_nat k', take (k' - k) cs, drop (k' - k) cs) \<and>
    take (k' - k) os = [Suc k ..< Suc k'] \<and> Suc k' \<notin> set os"
  using assms
proof (induction os arbitrary: cs k)
  case Nil
  then show ?case
    by (intro exI [of _ k]) (simp add: at_offsets_def)
next
  case (Cons z os)
  then obtain c cs' where cs: "cs = c # cs'" "ic_reliableSequenceNumber c = base + of_nat z"
      "at_offsets base os cs'" "ic_fragmentsRemaining c = 0" "ic_fragmentCount c = 0"
      "\<forall>z' \<in> set os. z < z'"
    by (auto simp: at_offsets_def plain_at_def list_all2_Cons1)
  have eq: "base + of_nat z = base + of_nat k + 1 \<longleftrightarrow> z = Suc k"
  proof
    assume "base + of_nat z = base + of_nat k + 1"
    then have "base + of_nat z = base + of_nat (Suc k)"
      by simp
    then have "distance base (base + of_nat z) = distance base (base + of_nat (Suc k))"
      by simp
    then show "z = Suc k"
      using Cons.prems(2) by (simp add: distance_add del: of_nat_Suc)
  qed simp
  show ?case
  proof (cases "z = Suc k")
    case False
    then have "reliable_prefix (base + of_nat k) cs = (base + of_nat k, [], cs)"
      using cs eq by simp
    moreover have "Suc k \<notin> set (z # os)"
      using False Cons.prems(2) cs(6) by fastforce
    ultimately show ?thesis
      by (intro exI [of _ k]) simp
  next
    case True
    have "\<forall>z' \<in> set os. Suc k < z' \<and> z' < 65536"
      using Cons.prems(2) cs(6) True by simp
    from Cons.IH [OF cs(3) this] obtain k' where k': "Suc k \<le> k'" "k' - Suc k \<le> length os"
        "reliable_prefix (base + of_nat (Suc k)) cs' =
          (base + of_nat k', take (k' - Suc k) cs', drop (k' - Suc k) cs')"
        "take (k' - Suc k) os = [Suc (Suc k) ..< Suc k']" "Suc k' \<notin> set os"
      by blast
    have "k' - k = Suc (k' - Suc k)"
      using k'(1) by simp
    moreover have "base + of_nat k + 1 = base + of_nat (Suc k)"
      by simp
    moreover have "Suc k' \<notin> set (z # os)"
      using k'(1,5) True by simp
    moreover have "[Suc k ..< Suc k'] = Suc k # [Suc (Suc k) ..< Suc k']"
      using k'(1) by (simp add: upt_conv_Cons del: upt_Suc)
    ultimately show ?thesis
      using k' cs True by (intro exI [of _ k']) (simp del: upt_Suc of_nat_Suc)
  qed
qed

lemma distance_offset:
  assumes "k \<le> z" "z < 65536"
  shows "distance (base + of_nat k) (base + of_nat z) = z - k"
proof -
  have "base + of_nat z - (base + of_nat k) = of_nat (z - k)"
    using assms(1) by (simp add: of_nat_diff)
  then show ?thesis
    using assms(2) by (simp add: distance_def unat_of_nat_less)
qed

lemma list_all2_filter_length:
  "list_all2 R xs ys \<Longrightarrow> (\<And>x y. x \<in> set xs \<Longrightarrow> R x y \<Longrightarrow> P x \<longleftrightarrow> Q y) \<Longrightarrow>
    length (filter P xs) = length (filter Q ys)"
  proof (induction rule: list_all2_induct)
  case (Cons x xs y ys)
  then show ?case by (cases "P x") simp_all
qed simp

lemma sorted_take_filter:
  "sorted_wrt (<) os \<Longrightarrow> take (length (filter (\<lambda>x. x < z) os)) os = filter (\<lambda>x. x < (z :: nat)) os \<and>
    drop (length (filter (\<lambda>x. x < z) os)) os = filter (\<lambda>x. \<not> x < z) os"
proof (induction os)
  case (Cons a os)
  show ?case
  proof (cases "a < z")
    case False
    then have "filter (\<lambda>x. x < z) os = []" "filter (\<lambda>x. \<not> x < z) os = os"
      using Cons.prems by (auto simp: filter_empty_conv filter_id_conv)
    with False show ?thesis by simp
  qed (use Cons in simp)
qed simp

definition insert_offset :: "nat \<Rightarrow> nat list \<Rightarrow> nat list" where
  "insert_offset z os = filter (\<lambda>x. x < z) os @ z # filter (\<lambda>x. \<not> x < z) os"

lemma insert_offset_sorted:
  "sorted_wrt (<) os \<Longrightarrow> z \<notin> set os \<Longrightarrow> sorted_wrt (<) (insert_offset z os) \<and> set (insert_offset z os) = insert z (set os)"
  by (auto simp: insert_offset_def sorted_wrt_append sorted_wrt_filter) (metis linorder_neqE_nat order.strict_trans)

lemma at_offsets_insert:
  assumes q: "at_offsets base os cs" and os: "\<forall>x \<in> set os. k < x \<and> x < 65536" and z: "k < z" "z < 65536"
  shows "find_reliable (base + of_nat k) (base + of_nat z) (rev cs) =
      (if z \<in> set os then None else Some (length (filter (\<lambda>x. x < z) os)))"
    and "z \<notin> set os \<Longrightarrow> plain_at base z c \<Longrightarrow>
      at_offsets base (insert_offset z os) (insert_at (length (filter (\<lambda>x. x < z) os)) c cs)"
proof -
  have all: "list_all2 (plain_at base) os cs" and sorted: "sorted_wrt (<) os"
    using q by (simp_all add: at_offsets_def)
  have dist: "distance (base + of_nat k) (base + of_nat x) = x - k" if "x \<in> insert z (set os)" for x
    using that os z distance_offset [of k x base] by auto
  have nth: "ic_reliableSequenceNumber (cs ! i) = base + of_nat (os ! i)" if "i < length os" for i
    using list_all2_nthD [OF all that] by (simp add: plain_at_def)
  have len: "length cs = length os"
    using list_all2_lengthD [OF all] by simp
  have "sorted_wrt (\<lambda>a b. distance (base + of_nat k) (ic_reliableSequenceNumber a) <
      distance (base + of_nat k) (ic_reliableSequenceNumber b)) cs"
    unfolding sorted_wrt_iff_nth_less
  proof (intro allI impI)
    fix i j
    assume ij: "i < j" "j < length cs"
    then have "os ! i < os ! j"
      using sorted len by (simp add: sorted_wrt_iff_nth_less)
    moreover have "k < os ! i"
      using os ij len by simp
    ultimately show "distance (base + of_nat k) (ic_reliableSequenceNumber (cs ! i)) <
        distance (base + of_nat k) (ic_reliableSequenceNumber (cs ! j))"
      using ij len by (simp add: nth dist)
  qed
  from find_reliable_sorted [OF this, of "base + of_nat z"]
  have find: "find_reliable (base + of_nat k) (base + of_nat z) (rev cs) =
      (if base + of_nat z \<in> ic_reliableSequenceNumber ` set cs then None
       else Some (length (filter (\<lambda>c. distance (base + of_nat k) (ic_reliableSequenceNumber c) < z - k) cs)))"
    by (simp add: dist)
  have eq: "base + of_nat x = base + of_nat z \<longleftrightarrow> x = z" if "x \<in> set os" for x
  proof
    assume "base + of_nat x = base + of_nat z"
    then have "x - k = z - k"
      using dist [of x] dist [of z] that by simp
    then show "x = z"
      using os z that by fastforce
  qed simp
  have "base + of_nat z \<in> ic_reliableSequenceNumber ` set cs \<longleftrightarrow> z \<in> set os"
  proof
    assume "z \<in> set os"
    then obtain i where "i < length os" "os ! i = z"
      by (auto simp: in_set_conv_nth)
    then show "base + of_nat z \<in> ic_reliableSequenceNumber ` set cs"
      using nth [of i] len by (intro image_eqI [of _ _ "cs ! i"]) simp_all
  next
    assume "base + of_nat z \<in> ic_reliableSequenceNumber ` set cs"
    then obtain i where "i < length os" "base + of_nat (os ! i) = base + of_nat z"
      using nth len by (auto simp: in_set_conv_nth)
    then show "z \<in> set os"
      using eq [of "os ! i"] by force
  qed
  moreover have "length (filter (\<lambda>x. x < z) os) =
      length (filter (\<lambda>c. distance (base + of_nat k) (ic_reliableSequenceNumber c) < z - k) cs)"
    by (rule list_all2_filter_length [OF all]) (use os z dist in \<open>force simp: plain_at_def\<close>)
  ultimately show "find_reliable (base + of_nat k) (base + of_nat z) (rev cs) =
      (if z \<in> set os then None else Some (length (filter (\<lambda>x. x < z) os)))"
    using find by simp
  assume new: "z \<notin> set os" "plain_at base z c"
  show "at_offsets base (insert_offset z os) (insert_at (length (filter (\<lambda>x. x < z) os)) c cs)"
    unfolding at_offsets_def
  proof
    show "list_all2 (plain_at base) (insert_offset z os) (insert_at (length (filter (\<lambda>x. x < z) os)) c cs)"
      using sorted_take_filter [OF sorted, of z] all new(2)
      unfolding insert_offset_def insert_at_def
      by (metis list_all2_appendI list_all2_Cons list_all2_takeI list_all2_dropI)
    show "sorted_wrt (<) (insert_offset z os)"
      using insert_offset_sorted [OF sorted new(1)] by simp
  qed
qed

subsection \<open>One reliable command\<close>

definition packet_bytes :: "packet \<Rightarrow> u8 option list" where
  "packet_bytes pk = take (unat (dataLength pk)) (case pk_data pk of None \<Rightarrow> [] | Some bs \<Rightarrow> bs)"

definition carries :: "(nat \<Rightarrow> u8 list) \<Rightarrow> heap \<Rightarrow> nat \<Rightarrow> incoming_command \<Rightarrow> bool" where
  "carries payload h z c \<longleftrightarrow> (\<exists>pid pk. ic_packet c = Some pid \<and> hp_packets h pid = Some pk \<and>
     packet_bytes pk = map Some (payload z))"

definition fresh_above :: "heap \<Rightarrow> bool" where
  "fresh_above h \<longleftrightarrow> hp_mallocs h = [] \<and> (\<forall>pid \<ge> hp_next h. hp_packets h pid = None)"

lemma alloc_incoming_plain:
  assumes "hp_mallocs h = []" "length bs < 2 ^ 32"
  shows "\<exists>pk. alloc_incoming (Some (map Some bs)) (of_nat (length bs)) ENET_PACKET_FLAG_RELIABLE 0 h =
      Some (Some (hp_next h), h\<lparr>hp_packets := (hp_packets h)(hp_next h \<mapsto> pk), hp_next := Suc (hp_next h)\<rparr>) \<and>
    packet_bytes pk = map Some bs"
proof -
  have len: "unat (of_nat (length bs) :: size_t) = length bs"
    using assms(2) by (intro unat_of_nat_less) simp
  show ?thesis
  proof (cases "bs = []")
    case True
    then show ?thesis
      using assms(1) by (intro exI [of _ "\<lparr>referenceCount = 0, pk_flags = 1, pk_data = None,
          dataLength = 0, freeCallback = None, userData = None\<rparr>"]) (simp add: alloc_incoming_def enet_packet_create_def enet_malloc_def Let_def
          init_packet_def alloc_packet_def enet_consts packet_bytes_def)
  next
    case False
    then have "\<not> (of_nat (length bs) :: size_t) \<le> 0"
      using len by (simp add: word_le_nat_alt)
    then show ?thesis
      using assms(1) len by (intro exI [of _ "\<lparr>referenceCount = 0, pk_flags = 1, pk_data = Some (map Some bs),
          dataLength = of_nat (length bs), freeCallback = None, userData = None\<rparr>"]) (simp add: alloc_incoming_def enet_packet_create_def enet_malloc_def Let_def
          init_packet_def alloc_packet_def enet_consts packet_bytes_def)
  qed
qed

text \<open>An accepted reliable command, and the dispatch when no unreliable command waits.\<close>

lemma queue_plain:
  fixes ident :: nat
  assumes "channel_at p (p_channelID cmd) = Some c" "state p \<noteq> DISCONNECT_LATER"
    and "totalWaitingData p < mx" "hp_mallocs h = []" "length bs < 2 ^ 32"
    and "place_command c cmd = Place_Reliable m" "ch_incomingUnreliableCommands c = []"
  defines "cs \<equiv> insert_at m (new_incoming ident cmd 0 0 (hp_next h)) (ch_incomingReliableCommands c)"
  assumes pre: "reliable_prefix (ch_incomingReliableSequenceNumber c) cs = (sn, moved, rest)"
  shows "\<exists>pk c' p' q' h'. enet_peer_queue_incoming_command mx ident i p cmd (Some (map Some bs)) (of_nat (length bs))
        ENET_PACKET_FLAG_RELIABLE 0 q h = Some (Q_Command ident, p', q', h') \<and>
      channel_at p' (p_channelID cmd) = Some c' \<and> ch_incomingReliableSequenceNumber c' = sn \<and>
      ch_incomingReliableCommands c' = rest \<and> ch_incomingUnreliableCommands c' = [] \<and>
      dispatchedCommands p' = dispatchedCommands p @ moved \<and> state p' = state p \<and>
      totalWaitingData p' = totalWaitingData p + of_nat (length bs) \<and>
      hp_packets h' = (hp_packets h)(hp_next h \<mapsto> pk) \<and> packet_bytes pk = map Some bs \<and>
      hp_next h' = Suc (hp_next h) \<and> hp_mallocs h' = []"
proof -
  let ?ch = "p_channelID cmd"
  obtain pk where al: "alloc_incoming (Some (map Some bs)) (of_nat (length bs)) ENET_PACKET_FLAG_RELIABLE 0 h =
      Some (Some (hp_next h), h\<lparr>hp_packets := (hp_packets h)(hp_next h \<mapsto> pk), hp_next := Suc (hp_next h)\<rparr>)"
    "packet_bytes pk = map Some bs"
    using alloc_incoming_plain [OF assms(4,5)] by blast
  define pk' where "pk' = pk\<lparr>referenceCount := referenceCount pk + 1\<rparr>"
  define h' where "h' = h\<lparr>hp_packets := (hp_packets h)(hp_next h \<mapsto> pk'), hp_next := Suc (hp_next h)\<rparr>"
  have ret: "retain_packet (hp_next h) 1
      (h\<lparr>hp_packets := (hp_packets h)(hp_next h \<mapsto> pk), hp_next := Suc (hp_next h)\<rparr>) = Some h'"
    by (simp add: retain_packet_def update_packet_def h'_def pk'_def)
  define p1 where "p1 = queued ident (Place_Reliable m) cmd 0 (hp_next h) (of_nat (length bs)) c p"
  define c1 where "c1 = c\<lparr>ch_incomingReliableCommands := cs\<rparr>"
  have c1: "channel_at p1 ?ch = Some c1"
    using queued_channel_at [OF assms(1)] by (simp add: p1_def c1_def cs_def insert_incoming_def)
  have p1: "dispatchedCommands p1 = dispatchedCommands p" "state p1 = state p"
      "totalWaitingData p1 = totalWaitingData p + of_nat (length bs)"
    by (simp_all add: p1_def queued_def set_channel_def)
  define c2 where "c2 = c1\<lparr>ch_incomingReliableSequenceNumber := sn,
    ch_incomingUnreliableSequenceNumber := 0, ch_incomingReliableCommands := rest\<rparr>"
  define r where "r = (if moved = [] then (p1, q) else dispatch_moved i moved (set_channel p1 ?ch c2) q)"
  have pre1: "reliable_prefix (ch_incomingReliableSequenceNumber c1) (ch_incomingReliableCommands c1) = (sn, moved, rest)"
    using pre by (simp add: c1_def)
  have call: "enet_peer_queue_incoming_command mx ident i p cmd (Some (map Some bs)) (of_nat (length bs))
        ENET_PACKET_FLAG_RELIABLE 0 q h =
      Option.bind (enet_peer_dispatch_incoming_reliable_commands i ?ch p1 q h')
        (\<lambda>(p, q, h). Some (Q_Command ident, p, q, h))"
    using assms(2) unfolding enet_peer_queue_incoming_command_def
    by (auto simp add: assms(1,6) al(1) ret p1_def queued_def Let_def not_le [THEN iffD2, OF assms(3)])
  have "enet_peer_dispatch_incoming_reliable_commands i ?ch p1 q h' = Some (fst r, snd r, h')"
    unfolding enet_peer_dispatch_incoming_reliable_commands_def c1 Option.bind.bind_lunit pre1 Let_def prod.case
      c2_def [symmetric]
    using assms(7) by (auto simp: r_def c2_def c1_def split: prod.split)
  moreover have "channel_at (fst r) ?ch = Some (if moved = [] then c1 else c2)"
    using c1 by (simp add: r_def) (simp add: channel_at_def set_channel_def split: if_splits)
  moreover have "moved = [] \<Longrightarrow> sn = ch_incomingReliableSequenceNumber c \<and> rest = cs"
    using pre by (cases cs) (auto simp: Let_def split: if_splits prod.splits)
  moreover have "dispatchedCommands (fst r) = dispatchedCommands p @ moved"
    by (simp add: r_def p1 set_channel_def)
  moreover have "state (fst r) = state p" "totalWaitingData (fst r) = totalWaitingData p + of_nat (length bs)"
    by (simp_all add: r_def p1 dispatch_moved_def need_dispatch_def set_channel_def)
  moreover have "packet_bytes pk' = map Some bs"
    using al(2) by (simp add: packet_bytes_def pk'_def)
  ultimately show ?thesis
    using assms(4,7) unfolding call
    by (intro exI [of _ pk'] exI [of _ "if moved = [] then c1 else c2"] exI [of _ "fst r"] exI [of _ "snd r"] exI [of _ h'])
      (auto simp: c1_def c2_def h'_def)
qed

subsection \<open>The state of a delivery\<close>

text \<open>
  With \<open>k\<close> commands handed over and the commands at the offsets \<open>os\<close> waiting in the queue.
\<close>

definition delivering ::
  "u16 \<Rightarrow> (nat \<Rightarrow> u8 list) \<Rightarrow> nat \<Rightarrow> u8 \<Rightarrow> incoming_command list \<Rightarrow> nat \<Rightarrow> nat list \<Rightarrow> peer \<Rightarrow> heap \<Rightarrow> bool" where
  "delivering base payload n chan old k os p h \<longleftrightarrow>
     (\<exists>c new. channel_at p chan = Some c \<and> ch_incomingReliableSequenceNumber c = base + of_nat k \<and>
        ch_incomingUnreliableCommands c = [] \<and> dispatchedCommands p = old @ new \<and>
        at_offsets base os (ch_incomingReliableCommands c) \<and> at_offsets base [1 ..< Suc k] new \<and>
        list_all2 (carries payload h) os (ch_incomingReliableCommands c) \<and>
        list_all2 (carries payload h) [1 ..< Suc k] new) \<and>
     (\<forall>z \<in> set os. Suc k < z \<and> z \<le> n) \<and> k \<le> n \<and> state p \<noteq> DISCONNECT_LATER \<and> fresh_above h"

lemma carries_alloc:
  assumes "fresh_above h" "hp_packets h' = (hp_packets h)(hp_next h \<mapsto> pk)" "carries payload h z c"
  shows "carries payload h' z c"
proof -
  obtain pid pk0 where "ic_packet c = Some pid" "hp_packets h pid = Some pk0" "packet_bytes pk0 = map Some (payload z)"
    using assms(3) by (auto simp: carries_def)
  moreover from this have "pid \<noteq> hp_next h"
    using assms(1) by (auto simp: fresh_above_def)
  ultimately show ?thesis
    by (simp add: carries_def assms(2))
qed

lemma list_all2_insert_at:
  "list_all2 R xs ys \<Longrightarrow> R z y \<Longrightarrow> sorted_wrt (<) xs \<Longrightarrow>
    list_all2 R (insert_offset z xs) (insert_at (length (filter (\<lambda>x. x < z) xs)) y ys)"
  using sorted_take_filter [of xs z] unfolding insert_offset_def insert_at_def
  by (metis list_all2_appendI list_all2_Cons list_all2_takeI list_all2_dropI)

definition plain_call :: "u16 \<Rightarrow> u8 \<Rightarrow> nat \<Rightarrow> protocol \<Rightarrow> bool" where
  "plain_call base chan z cmd \<longleftrightarrow> p_channelID cmd = chan \<and>
     command_number cmd = ENET_PROTOCOL_COMMAND_SEND_RELIABLE \<and> p_reliableSequenceNumber cmd = base + of_nat z"

lemma place_plain:
  assumes c: "ch_incomingReliableSequenceNumber c = base + of_nat k" "at_offsets base os (ch_incomingReliableCommands c)"
    and os: "\<forall>z \<in> set os. Suc k < z \<and> z \<le> n" and n: "n \<le> 24576" "k \<le> n" "1 \<le> z" "z \<le> n"
    and cmd: "plain_call base chan z cmd"
  shows "place_command c cmd =
    (if z \<le> k \<or> z \<in> set os then Discard else Place_Reliable (length (filter (\<lambda>x. x < z) os)))"
proof (cases "z \<le> k")
  case True
  have "distance (base + of_nat k) (base + of_nat z) = (if z = k then 0 else 65536 - (k - z))"
  proof (cases "z = k")
    case False
    then have "base + of_nat z - (base + of_nat k) = - of_nat (k - z)"
      using True by (simp add: of_nat_diff)
    moreover have "unat (- of_nat (k - z) :: u16) = 65536 - (k - z)"
      using True False n unat_sub_if_size [of "0 :: u16" "of_nat (k - z)"]
      by (simp add: word_size unat_of_nat_less del: of_nat_diff)
    ultimately show ?thesis
      using False by (simp add: distance_def)
  qed simp
  then have "z = k \<or> 7 * 4096 \<le> distance (base + of_nat k) (base + of_nat z)"
    using True n by auto
  then have "base + of_nat z = base + of_nat k \<or> relative_window (base + of_nat z) c < current_window c \<or>
      relative_window (base + of_nat z) c \<ge> current_window c + ENET_PEER_FREE_RELIABLE_WINDOWS - 1"
    using far_refused [of c "base + of_nat z"] c(1) by auto
  then show ?thesis
    using True cmd c(1) by (auto simp: place_command_def plain_call_def enet_consts Let_def)
next
  case False
  have d: "distance (base + of_nat k) (base + of_nat z) = z - k"
    using False n by (intro distance_offset) simp_all
  then have "\<not> (relative_window (base + of_nat z) c < current_window c \<or>
      relative_window (base + of_nat z) c \<ge> current_window c + ENET_PEER_FREE_RELIABLE_WINDOWS - 1)"
    using n c(1) by (intro near_accepted) simp
  moreover have "base + of_nat z \<noteq> base + of_nat k"
    using d False by (metis diff_is_0_eq distance_0)
  moreover have "find_reliable (base + of_nat k) (base + of_nat z) (rev (ch_incomingReliableCommands c)) =
      (if z \<in> set os then None else Some (length (filter (\<lambda>x. x < z) os)))"
    using os n False by (intro at_offsets_insert(1) [OF c(2)]) auto
  ultimately show ?thesis
    using False cmd c(1) by (simp add: place_command_def plain_call_def enet_consts Let_def)
qed

lemma deliver_one:
  assumes D: "delivering base payload n chan old k os p h" and n: "n \<le> 24576" "1 \<le> z" "z \<le> n"
    and cmd: "plain_call base chan z cmd" and wait: "totalWaitingData p < mx"
    and len: "length (payload z) < 2 ^ 32"
  shows "\<exists>r k' os' p' q' h'. enet_peer_queue_incoming_command mx ident i p cmd
        (Some (map Some (payload z))) (of_nat (length (payload z))) ENET_PACKET_FLAG_RELIABLE 0 q h = Some (r, p', q', h') \<and>
      delivering base payload n chan old k' os' p' h' \<and>
      {1..k'} \<union> set os' = insert z ({1..k} \<union> set os) \<and>
      (totalWaitingData p' = totalWaitingData p \<or> totalWaitingData p' = totalWaitingData p + of_nat (length (payload z)))"
proof -
  obtain c new where c: "channel_at p chan = Some c" "ch_incomingReliableSequenceNumber c = base + of_nat k"
      "ch_incomingUnreliableCommands c = []" "dispatchedCommands p = old @ new"
      "at_offsets base os (ch_incomingReliableCommands c)" "at_offsets base [1 ..< Suc k] new"
      "list_all2 (carries payload h) os (ch_incomingReliableCommands c)"
      "list_all2 (carries payload h) [1 ..< Suc k] new"
    and os: "\<forall>z \<in> set os. Suc k < z \<and> z \<le> n" and k: "k \<le> n" and st: "state p \<noteq> DISCONNECT_LATER"
    and h: "fresh_above h"
    using D unfolding delivering_def by blast
  have chan: "p_channelID cmd = chan"
    using cmd by (simp add: plain_call_def)
  have place: "place_command c cmd =
      (if z \<le> k \<or> z \<in> set os then Discard else Place_Reliable (length (filter (\<lambda>x. x < z) os)))"
    by (rule place_plain [OF c(2,5) os n(1) k n(2,3) cmd])
  show ?thesis
  proof (cases "z \<le> k \<or> z \<in> set os")
    case True
    then have "enet_peer_queue_incoming_command mx ident i p cmd (Some (map Some (payload z)))
        (of_nat (length (payload z))) ENET_PACKET_FLAG_RELIABLE 0 q h = Some (Q_Dummy, p, q, h)"
      using place st by (simp add: enet_peer_queue_incoming_command_def chan c(1))
    moreover have "{1..k} \<union> set os = insert z ({1..k} \<union> set os)"
      using True n(2) by auto
    ultimately show ?thesis
      using D by blast
  next
    case False
    define ic where "ic = new_incoming ident cmd 0 0 (hp_next h)"
    define cs where "cs = insert_at (length (filter (\<lambda>x. x < z) os)) ic (ch_incomingReliableCommands c)"
    define os1 where "os1 = insert_offset z os"
    have sorted: "sorted_wrt (<) os"
      using c(5) by (simp add: at_offsets_def)
    have os1: "sorted_wrt (<) os1" "set os1 = insert z (set os)"
      using insert_offset_sorted [OF sorted, of z] False by (simp_all add: os1_def)
    have "plain_at base z ic"
      using cmd by (simp add: plain_at_def ic_def new_incoming_def plain_call_def)
    then have cs: "at_offsets base os1 cs"
      using at_offsets_insert(2) [OF c(5), of k z ic] os n False unfolding os1_def cs_def by force
    have "\<forall>z \<in> set os1. k < z \<and> z < 65536"
      using os n k False os1(2) by force
    from reliable_prefix_offsets [OF cs this] obtain k' where k': "k \<le> k'" "k' - k \<le> length os1"
      "reliable_prefix (base + of_nat k) cs = (base + of_nat k', take (k' - k) cs, drop (k' - k) cs)"
      "take (k' - k) os1 = [Suc k ..< Suc k']" "Suc k' \<notin> set os1"
      by blast
    obtain pk c' p' q' h' where res: "enet_peer_queue_incoming_command mx ident i p cmd (Some (map Some (payload z)))
        (of_nat (length (payload z))) ENET_PACKET_FLAG_RELIABLE 0 q h = Some (Q_Command ident, p', q', h')"
      "channel_at p' chan = Some c'" "ch_incomingReliableSequenceNumber c' = base + of_nat k'"
      "ch_incomingReliableCommands c' = drop (k' - k) cs" "ch_incomingUnreliableCommands c' = []"
      "dispatchedCommands p' = dispatchedCommands p @ take (k' - k) cs" "state p' = state p"
      "totalWaitingData p' = totalWaitingData p + of_nat (length (payload z))"
      "hp_packets h' = (hp_packets h)(hp_next h \<mapsto> pk)" "packet_bytes pk = map Some (payload z)"
      "hp_next h' = Suc (hp_next h)" "hp_mallocs h' = []"
      using queue_plain [where p = p and cmd = cmd and c = c and mx = mx and h = h and bs = "payload z"
          and m = "length (filter (\<lambda>x. x < z) os)" and ident = ident and i = i and q = q
          and sn = "base + of_nat k'" and moved = "take (k' - k) cs" and rest = "drop (k' - k) cs"]
        c(1-3) chan st wait h len place False k'(3) unfolding cs_def ic_def fresh_above_def
      by auto
    have "carries payload h' z ic"
      using res(9,10) by (simp add: carries_def ic_def new_incoming_def)
    then have car: "list_all2 (carries payload h') os1 cs"
      unfolding os1_def cs_def using list_all2_mono [OF c(7) carries_alloc [OF h res(9)]]
      by (intro list_all2_insert_at sorted) simp_all
    define os' where "os' = drop (k' - k) os1"
    have join: "[1 ..< Suc k] @ take (k' - k) os1 = [1 ..< Suc k']"
      unfolding k'(4) using k'(1) upt_add_eq_append [of 1 "Suc k" "k' - k"] by simp
    have split: "os1 = [Suc k ..< Suc k'] @ os'"
      unfolding os'_def k'(4) [symmetric] by simp
    have beyond: "\<forall>z \<in> set os'. Suc k' < z \<and> z \<le> n"
    proof
      fix x
      assume x: "x \<in> set os'"
      then have "x \<in> set os1"
        unfolding split by simp
      then have "x \<in> insert z (set os)" "x \<noteq> Suc k'"
        using k'(5) os1(2) by auto
      then have "x \<noteq> Suc k'" "x \<le> n" "k < x"
        using os n(3) False by auto
      moreover have "k' < x" if "k < k'"
        using os1(1) x that unfolding split by (simp add: sorted_wrt_append)
      ultimately show "Suc k' < x \<and> x \<le> n"
        using k'(1) by (cases "k < k'") auto
    qed
    have "k' \<le> n"
      using os1(2) os n k k'(1) unfolding split by (cases "k < k'") auto
    moreover have "at_offsets base os' (drop (k' - k) cs)" "at_offsets base [1 ..< Suc k'] (new @ take (k' - k) cs)"
    proof -
      have "list_all2 (plain_at base) ([1 ..< Suc k] @ take (k' - k) os1) (new @ take (k' - k) cs)"
        using cs c(6) unfolding at_offsets_def by (intro list_all2_appendI list_all2_takeI) simp_all
      then show "at_offsets base [1 ..< Suc k'] (new @ take (k' - k) cs)"
        unfolding at_offsets_def join by (simp only: sorted_wrt_upt simp_thms)
      show "at_offsets base os' (drop (k' - k) cs)"
        using cs unfolding at_offsets_def os'_def by (simp add: list_all2_dropI sorted_wrt_drop)
    qed
    moreover have "list_all2 (carries payload h') os' (drop (k' - k) cs)"
        "list_all2 (carries payload h') [1 ..< Suc k'] (new @ take (k' - k) cs)"
      using car list_all2_mono [OF c(8) carries_alloc [OF h res(9)]] unfolding os'_def join [symmetric]
      by (auto intro!: list_all2_appendI list_all2_takeI list_all2_dropI simp del: upt_Suc)
    moreover have "fresh_above h'"
      using h res(9,11,12) by (simp add: fresh_above_def)
    ultimately have "delivering base payload n chan old k' os' p' h'"
      using res c(4) st beyond unfolding delivering_def by auto
    moreover have "{1..k'} \<union> set os' = insert z ({1..k} \<union> set os)"
    proof -
      have "{1..k'} \<union> set os' = {1..k} \<union> (set [Suc k ..< Suc k'] \<union> set os')"
        using k'(1) by auto
      then show ?thesis
        using os1(2) unfolding split by auto
    qed
    ultimately show ?thesis
      using res(1,8) by blast
  qed
qed

subsection \<open>Properties\<close>

text \<open>A sequence of received reliable commands, each with the number of its payload.\<close>

primrec queue_all ::
  "size_t \<Rightarrow> nat \<Rightarrow> (nat \<Rightarrow> u8 list) \<Rightarrow> (nat \<times> protocol) list \<Rightarrow> nat \<Rightarrow> peer \<Rightarrow> nat list \<Rightarrow> heap \<Rightarrow>
    (peer \<times> nat list \<times> heap) option" where
  "queue_all mx i payload [] ident p q h = Some (p, q, h)"
| "queue_all mx i payload (zc # zcs) ident p q h = do {
     (r, p, q, h) \<leftarrow> enet_peer_queue_incoming_command mx ident i p (snd zc) (Some (map Some (payload (fst zc))))
        (of_nat (length (payload (fst zc)))) ENET_PACKET_FLAG_RELIABLE 0 q h;
     queue_all mx i payload zcs (Suc ident) p q h }"

lemma deliver_all:
  assumes n: "n \<le> 24576" and len: "\<forall>z. length (payload z) < 2 ^ 32"
    and "delivering base payload n chan old k os p h"
    and "\<forall>(z, cmd) \<in> set zcs. 1 \<le> z \<and> z \<le> n \<and> plain_call base chan z cmd"
    and "unat (totalWaitingData p) + sum_list (map (\<lambda>zc. length (payload (fst zc))) zcs) < unat mx"
  shows "\<exists>k' os' p' q' h'. queue_all mx i payload zcs ident p q h = Some (p', q', h') \<and>
    delivering base payload n chan old k' os' p' h' \<and>
    {1..k'} \<union> set os' = fst ` set zcs \<union> ({1..k} \<union> set os)"
  using assms(3-5)
proof (induction zcs arbitrary: ident k os p q h)
  case (Cons zc zcs)
  obtain z cmd where zc: "zc = (z, cmd)"
    by (cases zc)
  have room: "unat (totalWaitingData p) + length (payload z) + sum_list (map (\<lambda>zc. length (payload (fst zc))) zcs) < unat mx"
    using Cons.prems(3) by (simp add: zc add.assoc)
  then have "totalWaitingData p < mx"
    by (simp add: word_less_nat_alt)
  then obtain r k1 os1 p1 q1 h1 where one: "enet_peer_queue_incoming_command mx ident i p cmd
        (Some (map Some (payload z))) (of_nat (length (payload z))) ENET_PACKET_FLAG_RELIABLE 0 q h = Some (r, p1, q1, h1)"
      "delivering base payload n chan old k1 os1 p1 h1" "{1..k1} \<union> set os1 = insert z ({1..k} \<union> set os)"
      "totalWaitingData p1 = totalWaitingData p \<or> totalWaitingData p1 = totalWaitingData p + of_nat (length (payload z))"
    using deliver_one [OF Cons.prems(1) n, of z cmd mx ident i q] Cons.prems(2) len zc by auto
  have l: "unat (of_nat (length (payload z)) :: size_t) = length (payload z)"
  proof (rule unat_of_nat_less)
    have "length (payload z) < 2 ^ 32"
      by (rule len [rule_format])
    then show "length (payload z) < 2 ^ LENGTH(64)"
      by simp
  qed
  have "unat mx < 2 ^ 64"
    using unsigned_less [of mx, where ?'a = nat] by simp
  then have "unat (totalWaitingData p) + unat (of_nat (length (payload z)) :: size_t) < 2 ^ LENGTH(64)"
    unfolding l using room by simp
  note sum = unat_add_no_wrap [OF this, unfolded l]
  have room1: "unat (totalWaitingData p1) + sum_list (map (\<lambda>zc. length (payload (fst zc))) zcs) < unat mx"
    using one(4)
  proof
    assume eq: "totalWaitingData p1 = totalWaitingData p"
    show ?thesis
      unfolding eq using room by linarith
  next
    assume eq: "totalWaitingData p1 = totalWaitingData p + of_nat (length (payload z))"
    show ?thesis
      unfolding eq sum by (rule room)
  qed
  have rest: "\<forall>(z, cmd) \<in> set zcs. 1 \<le> z \<and> z \<le> n \<and> plain_call base chan z cmd"
    using Cons.prems(2) by simp
  obtain k' os' p' q' h' where tail: "queue_all mx i payload zcs (Suc ident) p1 q1 h1 = Some (p', q', h')"
      "delivering base payload n chan old k' os' p' h'"
      "{1..k'} \<union> set os' = fst ` set zcs \<union> ({1..k1} \<union> set os1)"
    using Cons.IH [OF one(2) rest room1, of "Suc ident" q1] by blast
  show ?case
  proof (intro exI conjI)
    show "queue_all mx i payload (zc # zcs) ident p q h = Some (p', q', h')"
      by (simp add: zc one(1) tail(1))
    show "delivering base payload n chan old k' os' p' h'"
      by (rule tail(2))
    show "{1..k'} \<union> set os' = fst ` set (zc # zcs) \<union> ({1..k} \<union> set os)"
      unfolding tail(3) one(3) zc by simp
  qed
next
  case Nil
  then show ?case
    by (intro exI [of _ k] exI [of _ os] exI [of _ p] exI [of _ q] exI [of _ h]) simp
qed

text \<open>
  C3.  Reliable delivery: if the reliable commands numbered \<open>1\<close> to \<open>n\<close> after the channel's
  current number arrive in any order and any number of times (also across the wrap of the
  16-bit numbers), exactly these are handed to the application, once each, in sequence order,
  each with its own data, and none is left in the queue.
\<close>

theorem reliable_delivery:
  assumes n: "n \<le> 24576" and len: "\<forall>z. length (payload z) < 2 ^ 32"
    and c: "channel_at p chan = Some c" "ch_incomingReliableCommands c = []" "ch_incomingUnreliableCommands c = []"
    and p: "state p \<noteq> DISCONNECT_LATER" and h: "fresh_above h"
    and calls: "\<forall>(z, cmd) \<in> set zcs. plain_call (ch_incomingReliableSequenceNumber c) chan z cmd"
      "fst ` set zcs = {1..n}"
    and room: "unat (totalWaitingData p) + sum_list (map (\<lambda>zc. length (payload (fst zc))) zcs) < unat mx"
  shows "\<exists>p' q' h' new. queue_all mx i payload zcs ident p q h = Some (p', q', h') \<and>
    dispatchedCommands p' = dispatchedCommands p @ new \<and>
    map ic_reliableSequenceNumber new =
      map (\<lambda>z. ch_incomingReliableSequenceNumber c + of_nat z) [1 ..< Suc n] \<and>
    list_all2 (carries payload h') [1 ..< Suc n] new \<and>
    (\<exists>c'. channel_at p' chan = Some c' \<and> ch_incomingReliableCommands c' = [] \<and>
       ch_incomingReliableSequenceNumber c' = ch_incomingReliableSequenceNumber c + of_nat n)"
proof -
  let ?base = "ch_incomingReliableSequenceNumber c"
  have start: "delivering ?base payload n chan (dispatchedCommands p) 0 [] p h"
    using c p h by (simp add: delivering_def at_offsets_def)
  have "\<forall>(z, cmd) \<in> set zcs. 1 \<le> z \<and> z \<le> n \<and> plain_call ?base chan z cmd"
    using calls by (force simp: set_eq_iff)
  from deliver_all [OF n len start this room, of i ident q] calls(2)
  obtain k os p' q' h' where all: "queue_all mx i payload zcs ident p q h = Some (p', q', h')"
      "delivering ?base payload n chan (dispatchedCommands p) k os p' h'" "{1..k} \<union> set os = {1..n}"
    by auto
  have "k = n" "os = []"
  proof -
    have os: "\<forall>z \<in> set os. Suc k < z" and k: "k \<le> n"
      using all(2) by (auto simp: delivering_def)
    then have "Suc k \<notin> {1..k} \<union> set os"
      by auto
    then show "k = n"
      using all(3) k by (metis Suc_leI atLeastAtMost_iff le_add1 nat_less_le plus_1_eq_Suc)
    then show "os = []"
      using all(3) os by (metis Un_iff atLeastAtMost_iff last_in_set not_less_eq_eq le_Suc_eq nat_less_le)
  qed
  then obtain c' new where new: "channel_at p' chan = Some c'" "ch_incomingReliableSequenceNumber c' = ?base + of_nat n"
      "dispatchedCommands p' = dispatchedCommands p @ new" "at_offsets ?base [] (ch_incomingReliableCommands c')"
      "at_offsets ?base [1 ..< Suc n] new" "list_all2 (carries payload h') [1 ..< Suc n] new"
    using all(2) unfolding delivering_def by blast
  have "map ic_reliableSequenceNumber new = map (\<lambda>z. ?base + of_nat z) [1 ..< Suc n]"
    using new(5) unfolding at_offsets_def
    by (intro nth_equalityI) (auto simp: plain_at_def list_all2_conv_all_nth simp del: upt_Suc)
  then show ?thesis
    using all(1) new by (auto simp: at_offsets_def simp del: upt_Suc)
qed

definition sample_payload :: "nat \<Rightarrow> u8 list" where
  "sample_payload z = [of_nat z, 7]"

theorem reliable_delivery_witness:
  "\<exists>p' q' h' new. queue_all 1000 0 sample_payload
      [(3, sample_reliable 3), (1, sample_reliable 1), (3, sample_reliable 3), (2, sample_reliable 2)]
      0 sample_peer [] empty_heap = Some (p', q', h') \<and>
    dispatchedCommands p' = new \<and> map ic_reliableSequenceNumber new = [1, 2, 3]"
proof -
  have zs: "{3 :: nat, 1, 2} = {1..3}"
    by auto
  have "\<exists>p' q' h' new. queue_all 1000 0 sample_payload
      [(3, sample_reliable 3), (1, sample_reliable 1), (3, sample_reliable 3), (2, sample_reliable 2)]
      0 sample_peer [] empty_heap = Some (p', q', h') \<and>
    dispatchedCommands p' = dispatchedCommands sample_peer @ new \<and>
    map ic_reliableSequenceNumber new =
      map (\<lambda>z. ch_incomingReliableSequenceNumber fresh_channel + of_nat z) [1 ..< Suc 3] \<and>
    list_all2 (carries sample_payload h') [1 ..< Suc 3] new \<and>
    (\<exists>c'. channel_at p' 0 = Some c' \<and> ch_incomingReliableCommands c' = [] \<and>
       ch_incomingReliableSequenceNumber c' = ch_incomingReliableSequenceNumber fresh_channel + of_nat 3)"
    by (rule reliable_delivery)
      (auto simp: sample_payload_def channel_at_def sample_peer_def zero_peer_def fresh_channel_def
        fresh_above_def empty_heap_def plain_call_def sample_reliable_def command_number_def enet_consts zs)
  then show ?thesis
    by (auto simp: sample_peer_def zero_peer_def fresh_channel_def upt_rec)
qed

text \<open>Whether a queue of the peer still holds the command with an address.\<close>

definition holds_command :: "nat \<Rightarrow> peer \<Rightarrow> bool" where
  "holds_command ident p \<longleftrightarrow>
     ident \<in> ic_id ` set (dispatchedCommands p) \<or>
     (\<exists>c \<in> set (channels p). ident \<in> ic_id ` set (ch_incomingReliableCommands c) \<or>
        ident \<in> ic_id ` set (ch_incomingUnreliableCommands c))"

definition first_fragment :: "u16 \<Rightarrow> protocol" where
  "first_fragment start = \<lparr>p_command = ENET_PROTOCOL_COMMAND_SEND_UNRELIABLE_FRAGMENT, p_channelID = 0,
     p_reliableSequenceNumber = 0, p_body = SendFragment \<lparr>fr_startSequenceNumber = start,
       fr_dataLength = 5, fr_fragmentCount = 2, fr_fragmentNumber = 0, fr_totalLength = 10,
       fr_fragmentOffset = 0\<rparr>\<rparr>"


end
