(* ===== verification/Protocol_Send.thy ===== *)
theory Protocol_Send
  imports Protocol_Acks
begin

text \<open>
  \<^verbatim>\<open>protocol.c\<close>, sending: acknowledgements, timeouts, reliable and unreliable commands are
  gathered into one datagram per peer and round.  \<^verbatim>\<open>bufferCount\<close> is one more than the length
  of \<open>ht_buffers\<close>, which leaves out the header's buffer.
\<close>

subsection \<open>Room in the datagram\<close>

text \<open>\<^verbatim>\<open>peer->mtu - host->packetSize\<close>, in \<^verbatim>\<open>size_t\<close>.\<close>

definition mtu_left :: "peer \<Rightarrow> host \<Rightarrow> size_t" where
  "mtu_left peer H = ucast (mtu peer) - packetSize H"

definition commands_full :: "host \<Rightarrow> bool" where
  "commands_full H \<longleftrightarrow> commandCount H \<ge> ENET_PROTOCOL_MAXIMUM_PACKET_COMMANDS"

definition buffers_full :: "nat \<Rightarrow> host \<Rightarrow> bool" where
  "buffers_full extra H \<longleftrightarrow> Suc (length (ht_buffers H)) + extra \<ge> ENET_BUFFER_MAXIMUM"

definition oc_size :: "outgoing_command \<Rightarrow> size_t" where
  "oc_size c = commandSizes ! unat (command_number (oc_command c))"

definition add_command :: "protocol \<Rightarrow> size_t \<Rightarrow> host \<Rightarrow> host" where
  "add_command command len H = H\<lparr>ht_buffers := ht_buffers H @ [Buf_Command command],
     commandCount := Suc (commandCount H), packetSize := packetSize H + len\<rparr>"

text \<open>The second buffer of a command with a packet: the packet is dereferenced here.\<close>

definition add_data :: "outgoing_command \<Rightarrow> host \<Rightarrow> host option" where
  "add_data c H =
     (case oc_packet c of
        None \<Rightarrow> Some H
      | Some pid \<Rightarrow> do {
          _ \<leftarrow> hp_packets (ht_heap H) pid;
          Some (H\<lparr>ht_buffers := ht_buffers H @ [Buf_Data pid (oc_fragmentOffset c) (oc_fragmentLength c)],
            packetSize := packetSize H + ucast (oc_fragmentLength c)\<rparr>) })"

subsection \<open>Acknowledgements\<close>

definition ack_reply :: "acknowledgement \<Rightarrow> protocol" where
  "ack_reply a =
     (let sn = p_reliableSequenceNumber (ack_command a) in
      \<lparr>p_command = ENET_PROTOCOL_COMMAND_ACKNOWLEDGE, p_channelID = p_channelID (ack_command a),
       p_reliableSequenceNumber = sn, p_body = Acknowledge sn (ucast (ack_sentTime a))\<rparr>)"

primrec send_acks_loop :: "nat \<Rightarrow> acknowledgement list \<Rightarrow> host \<Rightarrow> host option" where
  "send_acks_loop i [] H = Some H"
| "send_acks_loop i (a # as) H = do {
     peer \<leftarrow> peer_at H i;
     if commands_full H \<or> buffers_full 0 H \<or> mtu_left peer H < sizeof_ENetProtocolAcknowledge
     then Some (H\<lparr>continueSending := True\<rparr>)
     else do {
       let H = add_command (ack_reply a) sizeof_ENetProtocolAcknowledge H;
       H \<leftarrow> (if command_number (ack_command a) = ENET_PROTOCOL_COMMAND_DISCONNECT
            then enet_protocol_dispatch_state i ZOMBIE H else Some H);
       H \<leftarrow> update_peer i (\<lambda>p. p\<lparr>acknowledgements := as\<rparr>) H;
       send_acks_loop i as H } }"

definition enet_protocol_send_acknowledgements :: "nat \<Rightarrow> host \<Rightarrow> host option" where
  "enet_protocol_send_acknowledgements i H = do {
     peer \<leftarrow> peer_at H i;
     send_acks_loop i (acknowledgements peer) H }"

subsection \<open>Unreliable commands\<close>

definition same_numbers :: "outgoing_command \<Rightarrow> outgoing_command \<Rightarrow> bool" where
  "same_numbers c d \<longleftrightarrow> oc_reliableSequenceNumber d = oc_reliableSequenceNumber c \<and>
     oc_unreliableSequenceNumber d = oc_unreliableSequenceNumber c"

text \<open>The inner loop that drops a command and all that follow with its numbers.\<close>

primrec drop_run :: "outgoing_command list \<Rightarrow> heap \<Rightarrow> heap option" where
  "drop_run [] h = Some h"
| "drop_run (c # cs) h = do { pid \<leftarrow> oc_packet c; h \<leftarrow> release_packet pid h; drop_run cs h }"

definition unreliable_room :: "outgoing_command \<Rightarrow> peer \<Rightarrow> host \<Rightarrow> bool" where
  "unreliable_room c peer H \<longleftrightarrow>
     \<not> (commands_full H \<or> buffers_full 1 H \<or> mtu_left peer H < oc_size c \<or>
        (oc_packet c \<noteq> None \<and> mtu_left peer H < oc_size c + ucast (oc_fragmentLength c)))"

text \<open>The throttle counts packets, that is commands with the first fragment of one.\<close>

definition throttle_step :: "outgoing_command \<Rightarrow> peer \<Rightarrow> bool \<times> peer" where
  "throttle_step c peer =
     (if oc_packet c \<noteq> None \<and> oc_fragmentOffset c = 0
      then let n = (packetThrottleCounter peer + ENET_PEER_PACKET_THROTTLE_COUNTER) mod ENET_PEER_PACKET_THROTTLE_SCALE
        in (n > packetThrottle peer, peer\<lparr>packetThrottleCounter := n\<rparr>)
      else (False, peer))"

definition sent_unreliable :: "outgoing_command \<Rightarrow> peer \<Rightarrow> peer" where
  "sent_unreliable c peer =
     (if oc_packet c \<noteq> None
      then peer\<lparr>sentUnreliableCommands := sentUnreliableCommands peer @ [c]\<rparr> else peer)"

function send_unreliable_loop :: "peer \<Rightarrow> outgoing_command list \<Rightarrow> host \<Rightarrow> (peer \<times> host) option" where
  "send_unreliable_loop peer [] H = Some (peer\<lparr>outgoingUnreliableCommands := []\<rparr>, H)"
| "send_unreliable_loop peer (c # cs) H =
     (if \<not> unreliable_room c peer H
      then Some (peer\<lparr>outgoingUnreliableCommands := c # cs\<rparr>, H\<lparr>continueSending := True\<rparr>)
      else
        let (dropped, peer) = throttle_step c peer in
        if dropped
        then do {
          h \<leftarrow> drop_run (c # takeWhile (same_numbers c) cs) (ht_heap H);
          send_unreliable_loop peer (dropWhile (same_numbers c) cs) (H\<lparr>ht_heap := h\<rparr>) }
        else do {
          H \<leftarrow> add_data c (add_command (oc_command c) (oc_size c) H);
          send_unreliable_loop (sent_unreliable c peer) cs H })"
  by pat_completeness auto
termination
  by (relation "measure (\<lambda>(_, cs, _). length cs)") (auto simp: less_Suc_eq_le length_dropWhile_le)

declare send_unreliable_loop.simps(2) [simp del]

definition enet_protocol_send_unreliable_outgoing_commands :: "nat \<Rightarrow> host \<Rightarrow> host option" where
  "enet_protocol_send_unreliable_outgoing_commands i H = do {
     peer \<leftarrow> peer_at H i;
     (peer, H) \<leftarrow> send_unreliable_loop peer (outgoingUnreliableCommands peer) H;
     let H = set_peer i peer H;
     if state peer = DISCONNECT_LATER \<and> outgoingReliableCommands peer = [] \<and>
        outgoingUnreliableCommands peer = [] \<and> sentReliableCommands peer = []
     then disconnect_connected i (eventData peer) H
     else Some H }"

subsection \<open>Timeouts\<close>

text \<open>Whether a command that was not acknowledged in time ends the connection.\<close>

definition note_timeout :: "outgoing_command \<Rightarrow> peer \<Rightarrow> peer" where
  "note_timeout c peer =
     (if earliestTimeout peer = 0 \<or> enet_time_less (oc_sentTime c) (earliestTimeout peer)
      then peer\<lparr>earliestTimeout := oc_sentTime c\<rparr> else peer)"

definition gives_up :: "u32 \<Rightarrow> outgoing_command \<Rightarrow> peer \<Rightarrow> bool" where
  "gives_up now c peer \<longleftrightarrow>
     earliestTimeout peer \<noteq> 0 \<and>
     (enet_time_difference now (earliestTimeout peer) \<ge> timeoutMaximum peer \<or>
      (oc_roundTripTimeout c \<ge> oc_roundTripTimeoutLimit c \<and>
       enet_time_difference now (earliestTimeout peer) \<ge> timeoutMinimum peer))"

text \<open>
  \<open>kept\<close> are the commands already passed, \<open>moved\<close> those already put in front of the outgoing
  ones.  The result is whether the peer timed out.
\<close>

fun timeouts_loop ::
  "u32 \<Rightarrow> outgoing_command list \<Rightarrow> outgoing_command list \<Rightarrow> outgoing_command list \<Rightarrow> peer \<Rightarrow> bool \<times> peer" where
  "timeouts_loop now kept moved [] peer =
     (False, peer\<lparr>sentReliableCommands := kept, outgoingReliableCommands := moved @ outgoingReliableCommands peer\<rparr>)"
| "timeouts_loop now kept moved (c # cs) peer =
     (if enet_time_difference now (oc_sentTime c) < oc_roundTripTimeout c
      then timeouts_loop now (kept @ [c]) moved cs peer
      else
        let peer = note_timeout c peer in
        if gives_up now c peer
        then (True, peer\<lparr>sentReliableCommands := kept @ c # cs,
                outgoingReliableCommands := moved @ outgoingReliableCommands peer\<rparr>)
        else
          let peer = (if oc_packet c \<noteq> None
                then peer\<lparr>reliableDataInTransit := reliableDataInTransit peer - ucast (oc_fragmentLength c)\<rparr>
                else peer);
              peer = peer\<lparr>packetsLost := packetsLost peer + 1\<rparr>;
              peer = (case (kept, cs) of
                  ([], first # _) \<Rightarrow> peer\<lparr>nextTimeout := oc_sentTime first + oc_roundTripTimeout first\<rparr>
                | _ \<Rightarrow> peer)
          in timeouts_loop now kept (moved @ [c\<lparr>oc_roundTripTimeout := oc_roundTripTimeout c * 2\<rparr>]) cs peer)"

definition enet_protocol_check_timeouts ::
  "nat \<Rightarrow> event option \<Rightarrow> host \<Rightarrow> (int \<times> event option \<times> host) option" where
  "enet_protocol_check_timeouts i event H = do {
     peer \<leftarrow> peer_at H i;
     let (lost, peer) = timeouts_loop (serviceTime H) [] [] (sentReliableCommands peer) peer;
     let H = set_peer i peer H;
     if lost then do {
       (event, H) \<leftarrow> enet_protocol_notify_disconnect i event H;
       Some (1, event, H) }
     else Some (0, event, H) }"

subsection \<open>Reliable commands\<close>

text \<open>
  Whether a command that opens a new window must wait: the window before it is full, or one of
  the windows to come is still in use.
\<close>

definition window_blocked :: "outgoing_command \<Rightarrow> channel \<Rightarrow> bool" where
  "window_blocked c ch \<longleftrightarrow>
     (let w = oc_reliableSequenceNumber c div ENET_PEER_RELIABLE_WINDOW_SIZE;
          free = (push_bit (unat ENET_PEER_FREE_RELIABLE_WINDOWS) 1 - 1 :: u32)
      in oc_sendAttempts c < 1 \<and> oc_reliableSequenceNumber c mod ENET_PEER_RELIABLE_WINDOW_SIZE = 0 \<and>
         (ch_reliableWindows ch ! unat ((w + ENET_PEER_RELIABLE_WINDOWS - 1) mod ENET_PEER_RELIABLE_WINDOWS)
            \<ge> ENET_PEER_RELIABLE_WINDOW_SIZE \<or>
          ucast (ch_usedReliableWindows ch) AND
            (push_bit (unat w) free OR drop_bit (unat (ENET_PEER_RELIABLE_WINDOWS - w)) free) \<noteq> 0))"

definition transit_exceeded :: "outgoing_command \<Rightarrow> peer \<Rightarrow> bool" where
  "transit_exceeded c peer \<longleftrightarrow>
     reliableDataInTransit peer + ucast (oc_fragmentLength c) >
       enet_max (packetThrottle peer * windowSize peer div ENET_PEER_PACKET_THROTTLE_SCALE) (mtu peer)"

text \<open>The last comparison of the code is made in \<^verbatim>\<open>enet_uint16\<close>.\<close>

definition reliable_room :: "outgoing_command \<Rightarrow> peer \<Rightarrow> host \<Rightarrow> bool" where
  "reliable_room c peer H \<longleftrightarrow>
     \<not> (commands_full H \<or> buffers_full 1 H \<or> mtu_left peer H < oc_size c \<or>
        (oc_packet c \<noteq> None \<and>
         (ucast (mtu_left peer H) :: u16) < ucast (oc_size c + ucast (oc_fragmentLength c))))"

definition enter_window :: "outgoing_command \<Rightarrow> channel \<Rightarrow> channel" where
  "enter_window c ch =
     (let w = unat (oc_reliableSequenceNumber c div ENET_PEER_RELIABLE_WINDOW_SIZE) in
      ch\<lparr>ch_usedReliableWindows := ch_usedReliableWindows ch OR push_bit w 1,
         ch_reliableWindows := (ch_reliableWindows ch)[w := ch_reliableWindows ch ! w + 1]\<rparr>)"

definition start_timer :: "u32 \<Rightarrow> peer \<Rightarrow> outgoing_command \<Rightarrow> outgoing_command" where
  "start_timer now peer c =
     (let c = c\<lparr>oc_sendAttempts := oc_sendAttempts c + 1, oc_sentTime := now\<rparr>;
          t = roundTripTime peer + 4 * roundTripTimeVariance peer
      in if oc_roundTripTimeout c = 0
         then c\<lparr>oc_roundTripTimeout := t, oc_roundTripTimeoutLimit := timeoutLimit peer * t\<rparr> else c)"

definition sent_reliable :: "u32 \<Rightarrow> outgoing_command \<Rightarrow> peer \<Rightarrow> peer" where
  "sent_reliable now c peer =
     (let peer = (if sentReliableCommands peer = []
            then peer\<lparr>nextTimeout := now + oc_roundTripTimeout c\<rparr> else peer);
          peer = peer\<lparr>sentReliableCommands := sentReliableCommands peer @ [c], packetsSent := packetsSent peer + 1\<rparr>
      in if oc_packet c \<noteq> None
         then peer\<lparr>reliableDataInTransit := reliableDataInTransit peer + ucast (oc_fragmentLength c)\<rparr> else peer)"

text \<open>\<open>kept\<close> are the commands that were passed over; the result starts with \<^verbatim>\<open>canPing\<close>.\<close>

fun send_reliable_loop ::
  "bool \<Rightarrow> bool \<Rightarrow> bool \<Rightarrow> outgoing_command list \<Rightarrow> peer \<Rightarrow> outgoing_command list \<Rightarrow> host \<Rightarrow>
    (bool \<times> peer \<times> host) option" where
  "send_reliable_loop windowWrap windowExceeded canPing kept peer [] H =
     Some (canPing, peer\<lparr>outgoingReliableCommands := kept\<rparr>, H)"
| "send_reliable_loop windowWrap windowExceeded canPing kept peer (c # cs) H = do {
     let chan = p_channelID (oc_command c);
     channel \<leftarrow> (if ucast chan < channelCount peer then map_option Some (channel_at peer chan) else Some None);
     let windowWrap = (windowWrap \<or> (case channel of None \<Rightarrow> False | Some ch \<Rightarrow> window_blocked c ch));
     if channel \<noteq> None \<and> windowWrap
     then send_reliable_loop windowWrap windowExceeded canPing (kept @ [c]) peer cs H
     else do {
       let windowExceeded = (windowExceeded \<or> (oc_packet c \<noteq> None \<and> transit_exceeded c peer));
       if oc_packet c \<noteq> None \<and> windowExceeded
       then send_reliable_loop windowWrap windowExceeded canPing (kept @ [c]) peer cs H
       else if \<not> reliable_room c peer H
       then Some (False, peer\<lparr>outgoingReliableCommands := kept @ c # cs\<rparr>, H\<lparr>continueSending := True\<rparr>)
       else do {
         let peer = (case channel of
               Some ch \<Rightarrow> if oc_sendAttempts c < 1 then set_channel peer chan (enter_window c ch) else peer
             | None \<Rightarrow> peer);
         let c = start_timer (serviceTime H) peer c;
         let H = add_command (oc_command c) (oc_size c) H;
         let H = H\<lparr>headerFlags := headerFlags H OR ENET_PROTOCOL_HEADER_FLAG_SENT_TIME\<rparr>;
         H \<leftarrow> add_data c H;
         send_reliable_loop windowWrap windowExceeded False kept (sent_reliable (serviceTime H) c peer) cs H } } }"

declare send_reliable_loop.simps(2) [simp del]

definition enet_protocol_send_reliable_outgoing_commands :: "nat \<Rightarrow> host \<Rightarrow> (bool \<times> host) option" where
  "enet_protocol_send_reliable_outgoing_commands i H = do {
     peer \<leftarrow> peer_at H i;
     (canPing, peer, H) \<leftarrow> send_reliable_loop False False True [] peer (outgoingReliableCommands peer) H;
     Some (canPing, set_peer i peer H) }"

end
