(* ===== verification/Host_Throttle.thy ===== *)
theory Host_Throttle
  imports Host
begin

text \<open>
  \<^verbatim>\<open>enet_host_bandwidth_throttle\<close>: the division of the host's bandwidth.  A pass over the
  peers marks those it adjusts with the current time; the loops repeat the pass until it
  adjusts no peer.
\<close>

record budget =
  bg_remaining :: u32 \<comment> \<open>\<^verbatim>\<open>peersRemaining\<close>\<close>
  bg_total :: u32 \<comment> \<open>\<^verbatim>\<open>dataTotal\<close>\<close>
  bg_bandwidth :: u32 \<comment> \<open>\<^verbatim>\<open>bandwidth\<close>\<close>

definition throttle_for :: "budget \<Rightarrow> u32" where
  "throttle_for b =
     (if bg_total b \<le> bg_bandwidth b then ENET_PEER_PACKET_THROTTLE_SCALE
      else bg_bandwidth b * ENET_PEER_PACKET_THROTTLE_SCALE div bg_total b)"

definition lower_throttle :: "peer \<Rightarrow> peer" where
  "lower_throttle p =
     (if packetThrottle p > packetThrottleLimit p then p\<lparr>packetThrottle := packetThrottleLimit p\<rparr> else p)"

subsection \<open>The outgoing limits\<close>

definition throttled_peer :: "u32 \<Rightarrow> u32 \<Rightarrow> peer \<Rightarrow> peer" where
  "throttled_peer now bandwidth p =
     (let limit = bandwidth * ENET_PEER_PACKET_THROTTLE_SCALE div outgoingDataTotal p;
          p = lower_throttle (p\<lparr>packetThrottleLimit := (if limit = 0 then 1 else limit)\<rparr>)
      in p\<lparr>outgoingBandwidthThrottleEpoch := now, incomingDataTotal := 0, outgoingDataTotal := 0\<rparr>)"

definition peer_bandwidth :: "u32 \<Rightarrow> peer \<Rightarrow> u32" where
  "peer_bandwidth elapsed p = incomingBandwidth p * elapsed div 1000"

text \<open>Whether the pass leaves a peer alone.\<close>

definition throttle_skips :: "u32 \<Rightarrow> u32 \<Rightarrow> u32 \<Rightarrow> peer \<Rightarrow> bool" where
  "throttle_skips now elapsed throttle p \<longleftrightarrow>
     (state p \<noteq> CONNECTED \<and> state p \<noteq> DISCONNECT_LATER) \<or> incomingBandwidth p = 0 \<or>
     outgoingBandwidthThrottleEpoch p = now \<or>
     throttle * outgoingDataTotal p div ENET_PEER_PACKET_THROTTLE_SCALE \<le> peer_bandwidth elapsed p"

fun throttle_pass :: "u32 \<Rightarrow> u32 \<Rightarrow> u32 \<Rightarrow> bool \<Rightarrow> budget \<Rightarrow> peer list \<Rightarrow> bool \<times> budget \<times> peer list" where
  "throttle_pass now elapsed throttle adjusted b [] = (adjusted, b, [])"
| "throttle_pass now elapsed throttle adjusted b (p # ps) =
     (if throttle_skips now elapsed throttle p
      then let (adjusted, b, ps) = throttle_pass now elapsed throttle adjusted b ps in (adjusted, b, p # ps)
      else
        let bw = peer_bandwidth elapsed p;
            b = b\<lparr>bg_remaining := bg_remaining b - 1, bg_bandwidth := bg_bandwidth b - bw, bg_total := bg_total b - bw\<rparr>;
            (adjusted, b, ps) = throttle_pass now elapsed throttle True b ps
        in (adjusted, b, throttled_peer now bw p # ps))"

definition unmarked :: "u32 \<Rightarrow> peer list \<Rightarrow> nat" where
  "unmarked now ps = length (filter (\<lambda>p. outgoingBandwidthThrottleEpoch p \<noteq> now) ps)"

lemma throttled_peer_epoch [simp]: "outgoingBandwidthThrottleEpoch (throttled_peer now bw p) = now"
  by (simp add: throttled_peer_def Let_def)

lemma throttle_pass_unmarked:
  "throttle_pass now elapsed t adjusted b ps = (adjusted', b', ps') \<Longrightarrow>
    unmarked now ps' \<le> unmarked now ps \<and>
    (adjusted' \<noteq> adjusted \<longrightarrow> unmarked now ps' < unmarked now ps)"
proof (induction ps arbitrary: adjusted b adjusted' b' ps')
  case (Cons p ps)
  show ?case
  proof (cases "throttle_skips now elapsed t p")
    case True
    obtain b1 a qs where r: "throttle_pass now elapsed t adjusted b ps = (a, b1, qs)"
      by (rule prod_cases3)
    then show ?thesis
      using Cons.prems True Cons.IH [OF r] by (auto simp: unmarked_def)
  next
    case False
    define b0 where "b0 = b\<lparr>bg_remaining := bg_remaining b - 1, bg_bandwidth := bg_bandwidth b - peer_bandwidth elapsed p,
      bg_total := bg_total b - peer_bandwidth elapsed p\<rparr>"
    obtain b1 a qs where r: "throttle_pass now elapsed t True b0 ps = (a, b1, qs)"
      by (rule prod_cases3)
    have "ps' = throttled_peer now (peer_bandwidth elapsed p) p # qs"
      using Cons.prems False r by (simp add: Let_def b0_def)
    moreover have "outgoingBandwidthThrottleEpoch p \<noteq> now"
      using False by (simp add: throttle_skips_def)
    ultimately show ?thesis
      using Cons.IH [OF r] by (auto simp: unmarked_def)
  qed
qed (simp add: unmarked_def)

function throttle_rounds :: "u32 \<Rightarrow> u32 \<Rightarrow> bool \<Rightarrow> budget \<Rightarrow> peer list \<Rightarrow> budget \<times> peer list" where
  "throttle_rounds now elapsed needsAdjustment b ps =
     (if bg_remaining b > 0 \<and> needsAdjustment
      then let (adjusted, b, ps') = throttle_pass now elapsed (throttle_for b) False b ps
        in if adjusted then throttle_rounds now elapsed True b ps' else (b, ps')
      else (b, ps))"
  by pat_completeness auto
termination
proof (relation "measure (\<lambda>(now, _, _, _, ps). unmarked now ps)")
  fix now elapsed needsAdjustment b ps x adjusted y b' ps'
  assume "x = throttle_pass now elapsed (throttle_for b) False b ps" "(adjusted, y) = x" "(b', ps') = y" adjusted
  then have "throttle_pass now elapsed (throttle_for b) False b ps = (True, b', ps')"
    by simp
  from throttle_pass_unmarked [OF this]
  show "((now, elapsed, True, b', ps'), now, elapsed, needsAdjustment, b, ps) \<in> measure (\<lambda>(now, _, _, _, ps). unmarked now ps)"
    by simp
qed simp

declare throttle_rounds.simps [simp del]

text \<open>The peers the loop did not adjust share what is left.\<close>

definition shared_peer :: "u32 \<Rightarrow> u32 \<Rightarrow> peer \<Rightarrow> peer" where
  "shared_peer now throttle p =
     (if \<not> is_connected p \<or> outgoingBandwidthThrottleEpoch p = now then p
      else (lower_throttle (p\<lparr>packetThrottleLimit := throttle\<rparr>))\<lparr>incomingDataTotal := 0, outgoingDataTotal := 0\<rparr>)"

definition outgoing_budget :: "u32 \<Rightarrow> host \<Rightarrow> budget" where
  "outgoing_budget elapsed H =
     (if ht_outgoingBandwidth H \<noteq> 0
      then \<lparr>bg_remaining = ucast (connectedPeers H),
        bg_total = sum_list (map outgoingDataTotal (filter is_connected (ht_peers H))),
        bg_bandwidth = ht_outgoingBandwidth H * elapsed div 1000\<rparr>
      else \<lparr>bg_remaining = ucast (connectedPeers H), bg_total = NOT 0, bg_bandwidth = NOT 0\<rparr>)"

definition throttle_outgoing :: "u32 \<Rightarrow> u32 \<Rightarrow> host \<Rightarrow> host" where
  "throttle_outgoing now elapsed H =
     (let (b, ps) = throttle_rounds now elapsed (bandwidthLimitedPeers H > 0) (outgoing_budget elapsed H) (ht_peers H);
          ps = (if bg_remaining b > 0 then map (shared_peer now (throttle_for b)) ps else ps)
      in H\<lparr>ht_peers := ps\<rparr>)"

subsection \<open>The incoming limits\<close>

definition limit_skips :: "u32 \<Rightarrow> u32 \<Rightarrow> peer \<Rightarrow> bool" where
  "limit_skips now limit p \<longleftrightarrow> \<not> is_connected p \<or> incomingBandwidthThrottleEpoch p = now \<or>
     (outgoingBandwidth p > 0 \<and> outgoingBandwidth p \<ge> limit)"

fun limit_pass :: "u32 \<Rightarrow> u32 \<Rightarrow> bool \<Rightarrow> u32 \<Rightarrow> u32 \<Rightarrow> peer list \<Rightarrow> bool \<times> u32 \<times> u32 \<times> peer list" where
  "limit_pass now limit adjusted remaining bandwidth [] = (adjusted, remaining, bandwidth, [])"
| "limit_pass now limit adjusted remaining bandwidth (p # ps) =
     (if limit_skips now limit p
      then let (adjusted, remaining, bandwidth, ps) = limit_pass now limit adjusted remaining bandwidth ps
        in (adjusted, remaining, bandwidth, p # ps)
      else let (adjusted, remaining, bandwidth, ps) =
            limit_pass now limit True (remaining - 1) (bandwidth - outgoingBandwidth p) ps
        in (adjusted, remaining, bandwidth, p\<lparr>incomingBandwidthThrottleEpoch := now\<rparr> # ps))"

definition unmarked_in :: "u32 \<Rightarrow> peer list \<Rightarrow> nat" where
  "unmarked_in now ps = length (filter (\<lambda>p. incomingBandwidthThrottleEpoch p \<noteq> now) ps)"

lemma limit_pass_unmarked:
  "limit_pass now limit adjusted r bw ps = (adjusted', r', bw', ps') \<Longrightarrow>
    unmarked_in now ps' \<le> unmarked_in now ps \<and>
    (adjusted' \<noteq> adjusted \<longrightarrow> unmarked_in now ps' < unmarked_in now ps)"
proof (induction ps arbitrary: adjusted r bw adjusted' r' bw' ps')
  case (Cons p ps)
  show ?case
  proof (cases "limit_skips now limit p")
    case True
    obtain a r1 bw1 qs where r: "limit_pass now limit adjusted r bw ps = (a, r1, bw1, qs)"
      by (rule prod_cases4)
    then show ?thesis
      using Cons.prems True Cons.IH [OF r] by (auto simp: unmarked_in_def)
  next
    case False
    obtain a r1 bw1 qs where r: "limit_pass now limit True (r - 1) (bw - outgoingBandwidth p) ps = (a, r1, bw1, qs)"
      by (rule prod_cases4)
    have "ps' = p\<lparr>incomingBandwidthThrottleEpoch := now\<rparr> # qs"
      using Cons.prems False r by (simp add: Let_def)
    moreover have "incomingBandwidthThrottleEpoch p \<noteq> now"
      using False by (simp add: limit_skips_def)
    ultimately show ?thesis
      using Cons.IH [OF r] by (auto simp: unmarked_in_def)
  qed
qed (simp add: unmarked_in_def)

text \<open>The result is \<^verbatim>\<open>bandwidthLimit\<close> with the marked peers.\<close>

function limit_rounds :: "u32 \<Rightarrow> bool \<Rightarrow> u32 \<Rightarrow> u32 \<Rightarrow> u32 \<Rightarrow> peer list \<Rightarrow> u32 \<times> peer list" where
  "limit_rounds now needsAdjustment limit remaining bandwidth ps =
     (if remaining > 0 \<and> needsAdjustment
      then let limit = bandwidth div remaining;
            (adjusted, remaining, bandwidth, ps') = limit_pass now limit False remaining bandwidth ps
        in if adjusted then limit_rounds now True limit remaining bandwidth ps' else (limit, ps')
      else (limit, ps))"
  by pat_completeness auto
termination
proof (relation "measure (\<lambda>(now, _, _, _, _, ps). unmarked_in now ps)")
  fix now needsAdjustment limit0 remaining bandwidth ps limit x adjusted y remaining' z bandwidth' ps'
  assume "x = limit_pass now limit False remaining bandwidth ps" "(adjusted, y) = x" "(remaining', z) = y"
    "(bandwidth', ps') = z" adjusted
  then have "limit_pass now limit False remaining bandwidth ps = (True, remaining', bandwidth', ps')"
    by simp
  from limit_pass_unmarked [OF this]
  show "((now, True, limit, remaining', bandwidth', ps'), now, needsAdjustment, limit0, remaining, bandwidth, ps)
      \<in> measure (\<lambda>(now, _, _, _, _, ps). unmarked_in now ps)"
    by simp
qed simp

declare limit_rounds.simps [simp del]

definition limit_command :: "host \<Rightarrow> u32 \<Rightarrow> u32 \<Rightarrow> peer \<Rightarrow> protocol" where
  "limit_command H now limit p =
     command_of (ENET_PROTOCOL_COMMAND_BANDWIDTH_LIMIT OR ENET_PROTOCOL_COMMAND_FLAG_ACKNOWLEDGE) 0xFF
       (BandwidthLimit (if incomingBandwidthThrottleEpoch p = now then outgoingBandwidth p else limit)
          (ht_outgoingBandwidth H))"

primrec announce_limits :: "nat list \<Rightarrow> u32 \<Rightarrow> u32 \<Rightarrow> host \<Rightarrow> host option" where
  "announce_limits [] now limit H = Some H"
| "announce_limits (i # is) now limit H = do {
     peer \<leftarrow> peer_at H i;
     H \<leftarrow> (if is_connected peer
          then map_option snd (queue_command i (limit_command H now limit peer) H) else Some H);
     announce_limits is now limit H }"

definition recalculate_limits :: "u32 \<Rightarrow> host \<Rightarrow> host option" where
  "recalculate_limits now H =
     (let H = H\<lparr>recalculateBandwidthLimits := False\<rparr>;
          (limit, ps) = (if ht_incomingBandwidth H = 0 then (0, ht_peers H)
            else limit_rounds now True 0 (ucast (connectedPeers H)) (ht_incomingBandwidth H) (ht_peers H))
      in announce_limits [0..<length ps] now limit (H\<lparr>ht_peers := ps\<rparr>))"

definition enet_host_bandwidth_throttle :: "host \<Rightarrow> host option" where
  "enet_host_bandwidth_throttle H =
     (let (now, H) = enet_time_get H; elapsed = now - bandwidthThrottleEpoch H in
      if elapsed < ENET_HOST_BANDWIDTH_THROTTLE_INTERVAL then Some H
      else
        let H = H\<lparr>bandwidthThrottleEpoch := now\<rparr> in
        if (ucast (connectedPeers H) :: u32) = 0 then Some H
        else
          let H = throttle_outgoing now elapsed H in
          if recalculateBandwidthLimits H then recalculate_limits now H else Some H)"

end
