(* ===== verification/Protocol_Service.thy ===== *)
theory Protocol_Service
  imports Protocol_Receive Protocol_Send Host_Throttle
begin

text \<open>
  \<^verbatim>\<open>protocol.c\<close>, from the gathered commands to the socket, and the service loop of a host.
  The rounds of the sender and of the service loop are partial functions: not to return is
  \<open>None\<close>.
\<close>

subsection \<open>One datagram\<close>

text \<open>The bytes a buffer points to at this moment; a packet that is gone has none.\<close>

definition buffer_bytes :: "heap \<Rightarrow> buffer \<Rightarrow> bytes option" where
  "buffer_bytes h b =
     (case b of
        Buf_Command c \<Rightarrow> Some (map Some (put_command c))
      | Buf_Data pid off len \<Rightarrow> do {
          packet \<leftarrow> hp_packets h pid;
          let data = (case pk_data packet of None \<Rightarrow> [] | Some bs \<Rightarrow> bs);
          if unat off + unat len \<le> length data then Some (take (unat len) (drop (unat off) data)) else None })"

primrec gather :: "heap \<Rightarrow> buffer list \<Rightarrow> bytes list option" where
  "gather h [] = Some []"
| "gather h (b # bs) = do { x \<leftarrow> buffer_bytes h b; xs \<leftarrow> gather h bs; Some (x # xs) }"

definition update_loss :: "u32 \<Rightarrow> peer \<Rightarrow> peer" where
  "update_loss now peer =
     (if packetLossEpoch peer = 0 then peer\<lparr>packetLossEpoch := now\<rparr>
      else if enet_time_difference now (packetLossEpoch peer) \<ge> ENET_PEER_PACKET_LOSS_INTERVAL \<and> packetsSent peer > 0
      then
        let loss = packetsLost peer * ENET_PEER_PACKET_LOSS_SCALE div packetsSent peer;
            peer = peer\<lparr>packetLossVariance := packetLossVariance peer - packetLossVariance peer div 4\<rparr>;
            peer = (if loss \<ge> packetLoss peer
              then let peer = peer\<lparr>packetLoss := packetLoss peer + (loss - packetLoss peer) div 8\<rparr>
                in peer\<lparr>packetLossVariance := packetLossVariance peer + (loss - packetLoss peer) div 4\<rparr>
              else let peer = peer\<lparr>packetLoss := packetLoss peer - (packetLoss peer - loss) div 8\<rparr>
                in peer\<lparr>packetLossVariance := packetLossVariance peer + (packetLoss peer - loss) div 4\<rparr>)
        in peer\<lparr>packetLossEpoch := now, packetsSent := 0, packetsLost := 0\<rparr>
      else peer)"

text \<open>
  Compression of the gathered buffers: the buffers to send, where it made them smaller.
  The compressor writes to \<^verbatim>\<open>packetData [1]\<close>.
\<close>

definition compress_buffers :: "bytes list \<Rightarrow> host \<Rightarrow> (bytes list \<times> host) option" where
  "compress_buffers bufs H =
     (case ht_compressor H of
        None \<Rightarrow> Some (bufs, H)
      | Some co \<Rightarrow> do {
          let original = packetSize H - sizeof_ENetProtocolHeader;
          out \<leftarrow> co_compress co bufs original original;
          Some (if length out > 0 \<and> length out < unat original
             then ([map Some out], H\<lparr>headerFlags := headerFlags H OR ENET_PROTOCOL_HEADER_FLAG_COMPRESSED,
                packetData1 := patch 0 out (packetData1 H)\<rparr>)
             else (bufs, H)) })"

definition has_session :: "peer \<Rightarrow> bool" where
  "has_session peer \<longleftrightarrow> outgoingPeerID peer < ENET_PROTOCOL_MAXIMUM_PEER_ID"

definition session_flags :: "peer \<Rightarrow> u16 \<Rightarrow> u16" where
  "session_flags peer flags =
     (if has_session peer
      then flags OR push_bit ENET_PROTOCOL_HEADER_SESSION_SHIFT (ucast (outgoingSessionID peer)) else flags)"

text \<open>Whether the header holds a time is decided before the session's bits join the flags.\<close>

definition header_bytes :: "u32 \<Rightarrow> bool \<Rightarrow> u16 \<Rightarrow> peer \<Rightarrow> u8 list" where
  "header_bytes now timed flags peer =
     put16 (outgoingPeerID peer OR flags) @ (if timed then put16 (ucast (now AND 0xFFFF)) else [])"

text \<open>
  The checksum covers the header, with the connection's number in the place of the checksum,
  and the buffers before compression.
\<close>

definition checksum_bytes :: "host \<Rightarrow> peer \<Rightarrow> u8 list \<Rightarrow> bytes list \<Rightarrow> u8 list" where
  "checksum_bytes H peer hdr bufs =
     (case checksum H of
        None \<Rightarrow> []
      | Some callback \<Rightarrow>
          let cid = (if has_session peer then connectID peer else 0)
          in put32_native (callback (map Some (hdr @ put32_native cid) # bufs)))"

definition socket_send :: "address \<Rightarrow> bytes list \<Rightarrow> host \<Rightarrow> int \<times> host" where
  "socket_send addr bufs H =
     (let H = H\<lparr>ht_sent := ht_sent H @ [(addr, bufs)]\<rparr> in
      case ht_sends H of
        [] \<Rightarrow> (int (sum_list (map length bufs)), H)
      | n # ns \<Rightarrow> (n, H\<lparr>ht_sends := ns\<rparr>))"

text \<open>\<open>True\<close> if the socket took the datagram.\<close>

definition send_datagram :: "nat \<Rightarrow> host \<Rightarrow> (bool \<times> host) option" where
  "send_datagram i H = do {
     H \<leftarrow> update_peer i (update_loss (serviceTime H)) H;
     peer \<leftarrow> peer_at H i;
     bufs \<leftarrow> gather (ht_heap H) (ht_buffers H);
     let timed = (headerFlags H AND ENET_PROTOCOL_HEADER_FLAG_SENT_TIME \<noteq> 0);
     (out, H) \<leftarrow> compress_buffers bufs H;
     let H = H\<lparr>headerFlags := session_flags peer (headerFlags H)\<rparr>;
     let hdr = header_bytes (serviceTime H) timed (headerFlags H) peer;
     let packet = map Some (hdr @ checksum_bytes H peer hdr bufs) # out;
     H \<leftarrow> update_peer i (\<lambda>p. p\<lparr>lastSendTime := serviceTime H\<rparr>) H;
     let (n, H) = socket_send (pr_address peer) packet H;
     (_, H) \<leftarrow> on_peer i (\<lambda>p h. map_option (\<lambda>r. ((), r)) (enet_protocol_remove_sent_unreliable_commands p h)) H;
     if n < 0 then Some (False, H)
     else Some (True, H\<lparr>totalSentData := totalSentData H + of_int n, totalSentPackets := totalSentPackets H + 1\<rparr>) }"

subsection \<open>All peers\<close>

text \<open>The ping, if nothing reliable is on its way and the peer has been silent.\<close>

definition ping_due :: "peer \<Rightarrow> host \<Rightarrow> bool" where
  "ping_due peer H \<longleftrightarrow> sentReliableCommands peer = [] \<and>
     enet_time_difference (serviceTime H) (lastReceiveTime peer) \<ge> pingInterval peer \<and>
     mtu_left peer H \<ge> sizeof_ENetProtocolPing"

definition send_reliable_part :: "nat \<Rightarrow> host \<Rightarrow> host option" where
  "send_reliable_part i H = do {
     peer \<leftarrow> peer_at H i;
     (canPing, H) \<leftarrow> (if outgoingReliableCommands peer = [] then Some (True, H)
                     else enet_protocol_send_reliable_outgoing_commands i H);
     peer \<leftarrow> peer_at H i;
     if canPing \<and> ping_due peer H
     then do {
       (_, H) \<leftarrow> on_peer i (\<lambda>p h. map_option (\<lambda>r. ((), r)) (enet_peer_ping p h)) H;
       (_, H) \<leftarrow> enet_protocol_send_reliable_outgoing_commands i H;
       Some H }
     else Some H }"

text \<open>The body of the loop over the peers: \<open>None\<close> goes on to the next peer, otherwise the code returns.\<close>

definition start_datagram :: "host \<Rightarrow> host" where
  "start_datagram H = H\<lparr>headerFlags := 0, commandCount := 0, ht_buffers := [], packetSize := sizeof_ENetProtocolHeader\<rparr>"

definition timeouts_due :: "bool \<Rightarrow> peer \<Rightarrow> host \<Rightarrow> bool" where
  "timeouts_due checkForTimeouts peer H \<longleftrightarrow> checkForTimeouts \<and> sentReliableCommands peer \<noteq> [] \<and>
     enet_time_greater_equal (serviceTime H) (nextTimeout peer)"

definition send_commands :: "nat \<Rightarrow> host \<Rightarrow> (int option \<times> host) option" where
  "send_commands i H = do {
     H \<leftarrow> send_reliable_part i H;
     peer \<leftarrow> peer_at H i;
     H \<leftarrow> (if outgoingUnreliableCommands peer \<noteq> []
          then enet_protocol_send_unreliable_outgoing_commands i H else Some H);
     if commandCount H = 0 then Some (None, H)
     else do {
       (ok, H) \<leftarrow> send_datagram i H;
       Some (if ok then None else Some (-1), H) } }"

definition send_to_peer :: "bool \<Rightarrow> nat \<Rightarrow> event option \<Rightarrow> host \<Rightarrow> (int option \<times> event option \<times> host) option" where
  "send_to_peer checkForTimeouts i event H = do {
     peer \<leftarrow> peer_at H i;
     if state peer = DISCONNECTED \<or> state peer = ZOMBIE then Some (None, event, H)
     else do {
       let H = start_datagram H;
       H \<leftarrow> (if acknowledgements peer \<noteq> [] then enet_protocol_send_acknowledgements i H else Some H);
       peer \<leftarrow> peer_at H i;
       (lost, event, H) \<leftarrow> (if timeouts_due checkForTimeouts peer H
                           then enet_protocol_check_timeouts i event H else Some (0, event, H));
       if lost = 1 then Some (if event_ready event then Some 1 else None, event, H)
       else do { (r, H) \<leftarrow> send_commands i H; Some (r, event, H) } } }"

primrec send_round :: "bool \<Rightarrow> nat list \<Rightarrow> event option \<Rightarrow> host \<Rightarrow> (int option \<times> event option \<times> host) option" where
  "send_round checkForTimeouts [] event H = Some (None, event, H)"
| "send_round checkForTimeouts (i # is) event H = do {
     (r, event, H) \<leftarrow> send_to_peer checkForTimeouts i event H;
     (case r of
        Some n \<Rightarrow> Some (Some n, event, H)
      | None \<Rightarrow> send_round checkForTimeouts is event H) }"

partial_function (option) send_rounds :: "bool \<Rightarrow> event option \<Rightarrow> host \<Rightarrow> (int \<times> event option \<times> host) option" where
  "send_rounds checkForTimeouts event H =
     (if \<not> continueSending H then Some (0, event, H)
      else Option.bind (send_round checkForTimeouts [0..<length (ht_peers H)] event (H\<lparr>continueSending := False\<rparr>))
        (\<lambda>(r, event, H).
          case r of
            Some n \<Rightarrow> Some (n, event, H)
          | None \<Rightarrow> send_rounds checkForTimeouts event H))"

declare send_rounds.simps [code]

definition enet_protocol_send_outgoing_commands ::
  "event option \<Rightarrow> bool \<Rightarrow> host \<Rightarrow> (int \<times> event option \<times> host) option" where
  "enet_protocol_send_outgoing_commands event checkForTimeouts H =
     send_rounds checkForTimeouts event (H\<lparr>continueSending := True\<rparr>)"

definition enet_host_flush :: "host \<Rightarrow> host option" where
  "enet_host_flush H = do {
     let (now, H) = enet_time_get H;
     (_, _, H) \<leftarrow> enet_protocol_send_outgoing_commands None False (H\<lparr>serviceTime := now\<rparr>);
     Some H }"

text \<open>The ways to disconnect, as the application calls them.\<close>

definition enet_peer_disconnect :: "nat \<Rightarrow> u32 \<Rightarrow> host \<Rightarrow> host option" where
  "enet_peer_disconnect = enet_peer_disconnect_with enet_host_flush"

definition enet_peer_disconnect_now :: "nat \<Rightarrow> u32 \<Rightarrow> host \<Rightarrow> host option" where
  "enet_peer_disconnect_now = enet_peer_disconnect_now_with enet_host_flush"

definition enet_peer_disconnect_later :: "nat \<Rightarrow> u32 \<Rightarrow> host \<Rightarrow> host option" where
  "enet_peer_disconnect_later = enet_peer_disconnect_later_with enet_host_flush"

subsection \<open>The service loop\<close>

definition enet_host_check_events :: "event option \<Rightarrow> host \<Rightarrow> (int \<times> event option \<times> host) option" where
  "enet_host_check_events event H =
     (case event of
        None \<Rightarrow> Some (-1, None, H)
      | Some ev \<Rightarrow> do {
          (r, ev, H) \<leftarrow> enet_protocol_dispatch_incoming_commands
            (ev\<lparr>ev_type := EVENT_NONE, ev_peer := None, ev_packet := None\<rparr>) H;
          Some (r, Some ev, H) })"

definition dispatch_event :: "event option \<Rightarrow> host \<Rightarrow> (int \<times> event option \<times> host) option" where
  "dispatch_event event H =
     (case event of
        None \<Rightarrow> Some (0, None, H)
      | Some ev \<Rightarrow> do { (r, ev, H) \<leftarrow> enet_protocol_dispatch_incoming_commands ev H; Some (r, Some ev, H) })"

text \<open>A step of the loop body: the next one is taken only if the code does not return.\<close>

definition and_then ::
  "(int \<times> event option \<times> host) option \<Rightarrow> (event option \<Rightarrow> host \<Rightarrow> (int \<times> event option \<times> host) option) \<Rightarrow>
    (int \<times> event option \<times> host) option" where
  "and_then x f = do { (r, event, H) \<leftarrow> x; if r = 1 \<or> r = -1 then Some (r, event, H) else f event H }"

definition service_body :: "event option \<Rightarrow> host \<Rightarrow> (int \<times> event option \<times> host) option" where
  "service_body event H = do {
     H \<leftarrow> (if enet_time_difference (serviceTime H) (bandwidthThrottleEpoch H) \<ge> ENET_HOST_BANDWIDTH_THROTTLE_INTERVAL
          then enet_host_bandwidth_throttle H else Some H);
     and_then (and_then (and_then (enet_protocol_send_outgoing_commands event True H)
       enet_protocol_receive_incoming_commands)
       (\<lambda>event H. enet_protocol_send_outgoing_commands event True H))
       dispatch_event }"

definition socket_wait :: "host \<Rightarrow> waited \<times> host" where
  "socket_wait H = (case ht_waits H of [] \<Rightarrow> (Wait_Nothing, H) | w # ws \<Rightarrow> (w, H\<lparr>ht_waits := ws\<rparr>))"

text \<open>The inner loop: \<open>Inl\<close> returns from the service call, \<open>Inr\<close> is the wait condition.\<close>

partial_function (option) wait_loop :: "u32 \<Rightarrow> host \<Rightarrow> ((int + waited) \<times> host) option" where
  "wait_loop timeout H =
     (let (now, H) = enet_time_get H; H = H\<lparr>serviceTime := now\<rparr> in
      if enet_time_greater_equal (serviceTime H) timeout then Some (Inl 0, H)
      else
        let (w, H) = socket_wait H in
        if w = Wait_Error then Some (Inl (-1), H)
        else if w = Wait_Interrupt then wait_loop timeout H
        else Some (Inr w, H))"

declare wait_loop.simps [code]

partial_function (option) service_loop :: "u32 \<Rightarrow> event option \<Rightarrow> host \<Rightarrow> (int \<times> event option \<times> host) option" where
  "service_loop timeout event H =
     Option.bind (service_body event H) (\<lambda>(r, event, H).
       if r = 1 \<or> r = -1 then Some (r, event, H)
       else if enet_time_greater_equal (serviceTime H) timeout then Some (0, event, H)
       else Option.bind (wait_loop timeout H) (\<lambda>(w, H).
         case w of
           Inl n \<Rightarrow> Some (n, event, H)
         | Inr c \<Rightarrow>
             let (now, H) = enet_time_get H; H = H\<lparr>serviceTime := now\<rparr> in
             if c = Wait_Receive then service_loop timeout event H else Some (0, event, H)))"

declare service_loop.simps [code]

definition enet_host_service :: "event option \<Rightarrow> u32 \<Rightarrow> host \<Rightarrow> (int \<times> event option \<times> host) option" where
  "enet_host_service event timeout H =
     and_then (dispatch_event (map_option (\<lambda>ev. ev\<lparr>ev_type := EVENT_NONE, ev_peer := None, ev_packet := None\<rparr>) event) H)
       (\<lambda>event H.
          let (now, H) = enet_time_get H; H = H\<lparr>serviceTime := now\<rparr>
          in service_loop (timeout + now) event H)"

end
