(* ===== verification/Range_Coder.thy ===== *)
theory Range_Coder
  imports Wire
begin

text \<open>
  \<^verbatim>\<open>compress.c\<close>: the adaptive order-2 PPM range coder.  The array \<^verbatim>\<open>rangeCoder->symbols\<close> is
  the list of the symbols created since the last reset, so that \<^verbatim>\<open>nextSymbol\<close> is its length;
  a symbol is known by its index, and \<^verbatim>\<open>left\<close>, \<^verbatim>\<open>right\<close> and \<^verbatim>\<open>symbols\<close> are offsets from the
  symbol's own index, as in the code.  Creating a symbol beyond the array, reading one that
  was not created, and reading input that is not there are undefined (\<open>None\<close>).  A result
  \<open>Some None\<close> is the code's \<^verbatim>\<open>return 0\<close>.
\<close>

subsection \<open>Symbols\<close>

definition ENET_RANGE_CODER_TOP :: u32 where [enet_consts]: "ENET_RANGE_CODER_TOP = 0x1000000"
definition ENET_RANGE_CODER_BOTTOM :: u32 where [enet_consts]: "ENET_RANGE_CODER_BOTTOM = 0x10000"
definition ENET_CONTEXT_SYMBOL_DELTA :: u16 where [enet_consts]: "ENET_CONTEXT_SYMBOL_DELTA = 3"
definition ENET_CONTEXT_SYMBOL_MINIMUM :: u16 where [enet_consts]: "ENET_CONTEXT_SYMBOL_MINIMUM = 1"
definition ENET_CONTEXT_ESCAPE_MINIMUM :: u16 where [enet_consts]: "ENET_CONTEXT_ESCAPE_MINIMUM = 1"
definition ENET_SUBCONTEXT_ORDER :: nat where [enet_consts]: "ENET_SUBCONTEXT_ORDER = 2"
definition ENET_SUBCONTEXT_SYMBOL_DELTA :: u16 where [enet_consts]: "ENET_SUBCONTEXT_SYMBOL_DELTA = 2"
definition ENET_SUBCONTEXT_ESCAPE_DELTA :: u16 where [enet_consts]: "ENET_SUBCONTEXT_ESCAPE_DELTA = 5"

record symbol =
  sy_value :: u8
  sy_count :: u8
  sy_under :: u16
  sy_left :: u16
  sy_right :: u16
  sy_symbols :: u16
  sy_escapes :: u16
  sy_total :: u16
  sy_parent :: u16

definition symbols_size :: nat where "symbols_size = 4096"

definition symbol_at :: "symbol list \<Rightarrow> nat \<Rightarrow> symbol option" where
  "symbol_at ss i = (if i < length ss then Some (ss ! i) else None)"

definition symbol_create :: "u8 \<Rightarrow> u16 \<Rightarrow> symbol list \<Rightarrow> (nat \<times> symbol list) option" where
  "symbol_create v n ss =
     (if length ss < symbols_size
      then Some (length ss, ss @ [\<lparr>sy_value = v, sy_count = ucast n, sy_under = n, sy_left = 0, sy_right = 0,
        sy_symbols = 0, sy_escapes = 0, sy_total = 0, sy_parent = 0\<rparr>])
      else None)"

text \<open>\<^verbatim>\<open>ENET_CONTEXT_CREATE\<close> of the root, with \<^verbatim>\<open>nextSymbol\<close> at 0.\<close>

definition root_create :: "symbol list" where
  "root_create = [\<lparr>sy_value = 0, sy_count = 0, sy_under = 0, sy_left = 0, sy_right = 0, sy_symbols = 0,
     sy_escapes = ENET_CONTEXT_ESCAPE_MINIMUM,
     sy_total = ENET_CONTEXT_ESCAPE_MINIMUM + 256 * ENET_CONTEXT_SYMBOL_MINIMUM, sy_parent = 0\<rparr>]"

text \<open>
  \<^verbatim>\<open>enet_symbol_rescale\<close>: the loop along the right spine is a recursion like the one to the
  left.  Offsets are positive, so the number of symbols is enough fuel.
\<close>

fun enet_symbol_rescale :: "nat \<Rightarrow> symbol list \<Rightarrow> nat \<Rightarrow> (u16 \<times> symbol list) option" where
  "enet_symbol_rescale 0 ss i = None"
| "enet_symbol_rescale (Suc fuel) ss i = do {
     s \<leftarrow> symbol_at ss i;
     let n = sy_count s - drop_bit 1 (sy_count s);
     let s = s\<lparr>sy_count := n, sy_under := ucast n\<rparr>;
     (s, ss) \<leftarrow> (if sy_left s \<noteq> 0
       then do {
         (t, ss) \<leftarrow> enet_symbol_rescale fuel (ss[i := s]) (i + unat (sy_left s));
         Some (s\<lparr>sy_under := sy_under s + t\<rparr>, ss) }
       else Some (s, ss));
     let ss = ss[i := s];
     if sy_right s = 0 then Some (sy_under s, ss)
     else do {
       (t, ss) \<leftarrow> enet_symbol_rescale fuel ss (i + unat (sy_right s));
       Some (sy_under s + t, ss) } }"

declare enet_symbol_rescale.simps [simp del]

definition context_rescale :: "u16 \<Rightarrow> nat \<Rightarrow> symbol list \<Rightarrow> symbol list option" where
  "context_rescale minimum ctx ss = do {
     c \<leftarrow> symbol_at ss ctx;
     (t, ss) \<leftarrow> (if sy_symbols c \<noteq> 0
       then enet_symbol_rescale (Suc (length ss)) ss (ctx + unat (sy_symbols c)) else Some (0, ss));
     c \<leftarrow> symbol_at ss ctx;
     let e = sy_escapes c - drop_bit 1 (sy_escapes c);
     Some (ss[ctx := c\<lparr>sy_escapes := e, sy_total := t + (e + 256 * minimum)\<rparr>]) }"

text \<open>Whether a context must be rescaled after a symbol of count \<open>n\<close>.\<close>

definition rescale_due :: "u16 \<Rightarrow> u16 \<Rightarrow> symbol \<Rightarrow> bool" where
  "rescale_due limit n c \<longleftrightarrow> n > limit \<or> ucast (sy_total c) > ENET_RANGE_CODER_BOTTOM - 0x100"

definition subcontext_limit :: u16 where "subcontext_limit = 0xFF - 2 * ENET_SUBCONTEXT_SYMBOL_DELTA"
definition root_limit :: u16 where
  "root_limit = 0xFF - 2 * ENET_CONTEXT_SYMBOL_DELTA + ENET_CONTEXT_SYMBOL_MINIMUM"

definition rescale_if_due :: "u16 \<Rightarrow> u16 \<Rightarrow> u16 \<Rightarrow> nat \<Rightarrow> symbol list \<Rightarrow> symbol list option" where
  "rescale_if_due limit minimum n ctx ss = do {
     c \<leftarrow> symbol_at ss ctx;
     if rescale_due limit n c then context_rescale minimum ctx ss else Some ss }"

subsection \<open>Encoding a value in a context\<close>

text \<open>
  The walk down the tree of a context: the symbol found or created, with the sum of the counts
  under it and its own count before the update.
\<close>

fun encode_node ::
  "nat \<Rightarrow> u16 \<Rightarrow> u8 \<Rightarrow> nat \<Rightarrow> u16 \<Rightarrow> u16 \<Rightarrow> symbol list \<Rightarrow> (nat \<times> u16 \<times> u16 \<times> symbol list) option" where
  "encode_node 0 update v i below n ss = None"
| "encode_node (Suc fuel) update v i below n ss = do {
     s \<leftarrow> symbol_at ss i;
     if v < sy_value s
     then do {
       let s = s\<lparr>sy_under := sy_under s + update\<rparr>;
       let ss = ss[i := s];
       if sy_left s \<noteq> 0 then encode_node fuel update v (i + unat (sy_left s)) below n ss
       else do {
         (j, ss) \<leftarrow> symbol_create v update ss;
         Some (j, below, n, ss[i := s\<lparr>sy_left := of_nat (j - i)\<rparr>]) } }
     else if v > sy_value s
     then do {
       let below = below + sy_under s;
       if sy_right s \<noteq> 0 then encode_node fuel update v (i + unat (sy_right s)) below n ss
       else do {
         (j, ss) \<leftarrow> symbol_create v update ss;
         Some (j, below, n, ss[i := s\<lparr>sy_right := of_nat (j - i)\<rparr>]) } }
     else
       Some (i, below + (sy_under s - ucast (sy_count s)), n + ucast (sy_count s),
         ss[i := s\<lparr>sy_under := sy_under s + update, sy_count := sy_count s + ucast update\<rparr>]) }"

declare encode_node.simps [simp del]

definition context_encode ::
  "u16 \<Rightarrow> u16 \<Rightarrow> nat \<Rightarrow> u8 \<Rightarrow> symbol list \<Rightarrow> (nat \<times> u16 \<times> u16 \<times> symbol list) option" where
  "context_encode update minimum ctx v ss = do {
     c \<leftarrow> symbol_at ss ctx;
     if sy_symbols c = 0
     then do {
       (j, ss) \<leftarrow> symbol_create v update ss;
       Some (j, ucast v * minimum, minimum, ss[ctx := c\<lparr>sy_symbols := of_nat (j - ctx)\<rparr>]) }
     else encode_node (Suc (length ss)) update v (ctx + unat (sy_symbols c)) (ucast v * minimum) minimum ss }"

text \<open>The place that the pointer \<^verbatim>\<open>parent\<close> refers to: \<open>None\<close> is \<^verbatim>\<open>predicted\<close>.\<close>

definition set_parent :: "nat option \<Rightarrow> nat \<Rightarrow> u16 \<Rightarrow> symbol list \<Rightarrow> u16 \<times> symbol list" where
  "set_parent place j predicted ss =
     (case place of
        None \<Rightarrow> (of_nat j, ss)
      | Some k \<Rightarrow> (predicted, ss[k := (ss ! k)\<lparr>sy_parent := of_nat j\<rparr>]))"

definition add_total :: "nat \<Rightarrow> u16 \<Rightarrow> symbol list \<Rightarrow> symbol list" where
  "add_total ctx n ss = ss[ctx := (ss ! ctx)\<lparr>sy_total := sy_total (ss ! ctx) + n\<rparr>]"

definition add_escapes :: "nat \<Rightarrow> symbol list \<Rightarrow> symbol list" where
  "add_escapes ctx ss = (let c = ss ! ctx in
     ss[ctx := c\<lparr>sy_escapes := sy_escapes c + ENET_SUBCONTEXT_ESCAPE_DELTA,
       sy_total := sy_total c + ENET_SUBCONTEXT_ESCAPE_DELTA\<rparr>])"

text \<open>
  The end of an input symbol: the context of the next one, and the reset when the array is
  nearly full.
\<close>

record model_state =
  ms_symbols :: "symbol list"
  ms_predicted :: u16
  ms_order :: nat

definition initial_model :: model_state where
  "initial_model = \<lparr>ms_symbols = root_create, ms_predicted = 0, ms_order = 0\<rparr>"

definition next_input :: "model_state \<Rightarrow> model_state option" where
  "next_input m = do {
     m \<leftarrow> (if ms_order m \<ge> ENET_SUBCONTEXT_ORDER
          then do { s \<leftarrow> symbol_at (ms_symbols m) (unat (ms_predicted m)); Some (m\<lparr>ms_predicted := sy_parent s\<rparr>) }
          else Some (m\<lparr>ms_order := ms_order m + 1\<rparr>));
     Some (if length (ms_symbols m) \<ge> symbols_size - ENET_SUBCONTEXT_ORDER then initial_model else m) }"

end
