(* ===== verification/Range_Encoder.thy ===== *)
theory Range_Encoder
  imports Range_Coder
begin

text \<open>
  \<^verbatim>\<open>enet_range_coder_compress\<close>.  The bytes written so far stand for \<^verbatim>\<open>outData\<close>, and \<open>lim\<close> is
  their limit.
\<close>

record encoder =
  en_low :: u32
  en_range :: u32
  en_out :: "u8 list"

text \<open>
  The loop of \<^verbatim>\<open>ENET_RANGE_CODER_ENCODE\<close>.  \<open>straddles\<close> holds if the ends of the range differ
  in their first byte.
\<close>

definition straddles :: "u32 \<Rightarrow> u32 \<Rightarrow> bool" where
  "straddles low rng \<longleftrightarrow> low XOR (low + rng) \<ge> ENET_RANGE_CODER_TOP"

definition settled :: "u32 \<Rightarrow> u32 \<Rightarrow> bool" where
  "settled low rng \<longleftrightarrow> straddles low rng \<and> rng \<ge> ENET_RANGE_CODER_BOTTOM"

definition cut_range :: "u32 \<Rightarrow> u32 \<Rightarrow> u32" where
  "cut_range low rng = (if straddles low rng then (- low) AND (ENET_RANGE_CODER_BOTTOM - 1) else rng)"

definition shift_out :: "encoder \<Rightarrow> encoder" where
  "shift_out e = e\<lparr>en_out := en_out e @ [ucast (drop_bit 24 (en_low e))],
     en_range := push_bit 8 (cut_range (en_low e) (en_range e)), en_low := push_bit 8 (en_low e)\<rparr>"

function encode_normalize :: "nat \<Rightarrow> encoder \<Rightarrow> encoder option" where
  "encode_normalize lim e =
     (if settled (en_low e) (en_range e) then Some e
      else if length (en_out e) \<ge> lim then None
      else encode_normalize lim (shift_out e))"
  by pat_completeness auto
termination
  by (relation "measure (\<lambda>(lim, e). lim - length (en_out e))") (auto simp: shift_out_def)

declare encode_normalize.simps [simp del]

definition narrow :: "u32 \<Rightarrow> u32 \<Rightarrow> u32 \<Rightarrow> encoder \<Rightarrow> encoder" where
  "narrow below n tot e =
     (let r = en_range e div tot in e\<lparr>en_low := en_low e + below * r, en_range := r * n\<rparr>)"

definition range_encode :: "nat \<Rightarrow> u32 \<Rightarrow> u32 \<Rightarrow> u32 \<Rightarrow> encoder \<Rightarrow> encoder option option" where
  "range_encode lim below n tot e =
     (if tot = 0 then None else Some (encode_normalize lim (narrow below n tot e)))"

function encode_flush :: "nat \<Rightarrow> u32 \<Rightarrow> u8 list \<Rightarrow> u8 list option" where
  "encode_flush lim low out =
     (if low = 0 then Some out
      else if length out \<ge> lim then None
      else encode_flush lim (push_bit 8 low) (out @ [ucast (drop_bit 24 low)]))"
  by pat_completeness auto
termination
  by (relation "measure (\<lambda>(lim, _, out). lim - length out)") auto

declare encode_flush.simps [simp del]

subsection \<open>One value\<close>

text \<open>What is written for a value in a subcontext: the value's range, an escape, or nothing.\<close>

definition encode_subcontext :: "nat \<Rightarrow> symbol \<Rightarrow> u16 \<Rightarrow> u16 \<Rightarrow> encoder \<Rightarrow> encoder option option" where
  "encode_subcontext lim c below n e =
     (if n > 0 then range_encode lim (ucast (sy_escapes c) + ucast below) (ucast n) (ucast (sy_total c)) e
      else if sy_escapes c > 0 \<and> sy_escapes c < sy_total c
      then range_encode lim 0 (ucast (sy_escapes c)) (ucast (sy_total c)) e
      else Some (Some e))"

text \<open>
  The loop over the contexts, from the longest to the root; the first result tells whether
  the value was found (\<^verbatim>\<open>goto nextInput\<close>).  Contexts of order 2 have chains of at most two, so
  the number of symbols is enough fuel.
\<close>

fun encode_contexts ::
  "nat \<Rightarrow> nat \<Rightarrow> u8 \<Rightarrow> nat \<Rightarrow> nat option \<Rightarrow> u16 \<Rightarrow> symbol list \<Rightarrow> encoder \<Rightarrow>
    (bool \<times> nat option \<times> u16 \<times> symbol list \<times> encoder) option option" where
  "encode_contexts 0 lim v ctx place predicted ss e = None"
| "encode_contexts (Suc fuel) lim v ctx place predicted ss e =
     (if ctx = 0 then Some (Some (False, place, predicted, ss, e))
      else do {
        (j, below, n, ss) \<leftarrow> context_encode ENET_SUBCONTEXT_SYMBOL_DELTA 0 ctx v ss;
        let (predicted, ss) = set_parent place j predicted ss;
        c \<leftarrow> symbol_at ss ctx;
        r \<leftarrow> encode_subcontext lim c below n e;
        (case r of
           None \<Rightarrow> Some None
         | Some e \<Rightarrow> do {
             let ss = add_total ctx ENET_SUBCONTEXT_SYMBOL_DELTA (if n > 0 then ss else add_escapes ctx ss);
             ss \<leftarrow> rescale_if_due subcontext_limit 0 n ctx ss;
             if n > 0 then Some (Some (True, Some j, predicted, ss, e))
             else do {
               c \<leftarrow> symbol_at ss ctx;
               encode_contexts fuel lim v (unat (sy_parent c)) (Some j) predicted ss e } }) })"

declare encode_contexts.simps [simp del]

definition encode_root ::
  "nat \<Rightarrow> u8 \<Rightarrow> nat option \<Rightarrow> u16 \<Rightarrow> symbol list \<Rightarrow> encoder \<Rightarrow> (u16 \<times> symbol list \<times> encoder) option option" where
  "encode_root lim v place predicted ss e = do {
     (j, below, n, ss) \<leftarrow> context_encode ENET_CONTEXT_SYMBOL_DELTA ENET_CONTEXT_SYMBOL_MINIMUM 0 v ss;
     let (predicted, ss) = set_parent place j predicted ss;
     c \<leftarrow> symbol_at ss 0;
     r \<leftarrow> range_encode lim (ucast (sy_escapes c) + ucast below) (ucast n) (ucast (sy_total c)) e;
     (case r of
        None \<Rightarrow> Some None
      | Some e \<Rightarrow> do {
          ss \<leftarrow> rescale_if_due root_limit ENET_CONTEXT_SYMBOL_MINIMUM n 0 (add_total 0 ENET_CONTEXT_SYMBOL_DELTA ss);
          Some (Some (predicted, ss, e)) }) }"

definition encode_value :: "nat \<Rightarrow> u8 \<Rightarrow> model_state \<Rightarrow> encoder \<Rightarrow> (model_state \<times> encoder) option option" where
  "encode_value lim v m e = do {
     r \<leftarrow> encode_contexts (Suc symbols_size) lim v (unat (ms_predicted m)) None (ms_predicted m) (ms_symbols m) e;
     (case r of
        None \<Rightarrow> Some None
      | Some (found, place, predicted, ss, e) \<Rightarrow> do {
          r \<leftarrow> (if found then Some (Some (predicted, ss, e)) else encode_root lim v place predicted ss e);
          (case r of
             None \<Rightarrow> Some None
           | Some (predicted, ss, e) \<Rightarrow> do {
               m \<leftarrow> next_input (m\<lparr>ms_predicted := predicted, ms_symbols := ss\<rparr>);
               Some (Some (m, e)) }) }) }"

subsection \<open>The input\<close>

text \<open>
  The bytes the loop reads.  It looks for the end of a buffer before it reads, but not again
  after it has gone on to the next one: an empty buffer behind the first yields a byte that is
  not there.
\<close>

definition input_stream :: "u8 option list list \<Rightarrow> u8 option list" where
  "input_stream bufs =
     (case bufs of
        [] \<Rightarrow> []
      | b # bs \<Rightarrow> b @ concat (map (\<lambda>b. if b = [] then [None] else b) bs))"

primrec compress_loop :: "nat \<Rightarrow> u8 option list \<Rightarrow> model_state \<Rightarrow> encoder \<Rightarrow> encoder option option" where
  "compress_loop lim [] m e = Some (Some e)"
| "compress_loop lim (x # xs) m e = do {
     v \<leftarrow> x;
     r \<leftarrow> encode_value lim v m e;
     (case r of None \<Rightarrow> Some None | Some (m, e) \<Rightarrow> compress_loop lim xs m e) }"

definition initial_encoder :: encoder where
  "initial_encoder = \<lparr>en_low = 0, en_range = NOT 0, en_out = []\<rparr>"

text \<open>The bytes written; none if the code returns 0.\<close>

definition enet_range_coder_compress ::
  "u8 option list list \<Rightarrow> size_t \<Rightarrow> size_t \<Rightarrow> u8 list option" where
  "enet_range_coder_compress bufs inLimit outLimit =
     (if bufs = [] \<or> inLimit = 0 then Some []
      else do {
        r \<leftarrow> compress_loop (unat outLimit) (input_stream bufs) initial_model initial_encoder;
        (case r of
           None \<Rightarrow> Some []
         | Some e \<Rightarrow> (case encode_flush (unat outLimit) (en_low e) (en_out e) of None \<Rightarrow> Some [] | Some bs \<Rightarrow> Some bs)) })"

end
