(* ===== verification/Range_Decoder.thy ===== *)
theory Range_Decoder
  imports Range_Encoder
begin

text \<open>
  \<^verbatim>\<open>enet_range_coder_decompress\<close>.  The input is the memory from \<^verbatim>\<open>inData\<close> on, and the number
  of bytes up to \<^verbatim>\<open>inEnd\<close>: behind the end the code reads zeroes, behind the memory it is
  undefined.  The loop that shifts the range is a partial function, since it does not end for
  an empty range.
\<close>

record decoder =
  de_low :: u32
  de_range :: u32
  de_code :: u32
  de_data :: "u8 list"
  de_left :: nat

definition read_byte :: "decoder \<Rightarrow> (u8 \<times> decoder) option" where
  "read_byte d =
     (if de_left d = 0 then Some (0, d)
      else (case de_data d of
          [] \<Rightarrow> None
        | b # bs \<Rightarrow> Some (b, d\<lparr>de_data := bs, de_left := de_left d - 1\<rparr>)))"

text \<open>\<^verbatim>\<open>ENET_RANGE_CODER_SEED\<close>; a byte that is missing leaves its bits 0.\<close>

definition seed_byte :: "nat \<Rightarrow> decoder \<Rightarrow> decoder option" where
  "seed_byte k d = do { (b, d) \<leftarrow> read_byte d; Some (d\<lparr>de_code := de_code d OR push_bit k (ucast b)\<rparr>) }"

definition decode_seed :: "decoder \<Rightarrow> decoder option" where
  "decode_seed d = do { d \<leftarrow> seed_byte 24 d; d \<leftarrow> seed_byte 16 d; d \<leftarrow> seed_byte 8 d; seed_byte 0 d }"

text \<open>\<^verbatim>\<open>ENET_RANGE_CODER_READ\<close> divides the range for the update that follows.\<close>

definition range_read :: "u32 \<Rightarrow> decoder \<Rightarrow> (u16 \<times> decoder) option" where
  "range_read tot d =
     (let r = de_range d div tot in
      if tot = 0 \<or> r = 0 then None
      else Some (ucast ((de_code d - de_low d) div r), d\<lparr>de_range := r\<rparr>))"

definition shift_in :: "decoder \<Rightarrow> decoder option" where
  "shift_in d = do {
     (b, d') \<leftarrow> read_byte d;
     Some (d'\<lparr>de_code := push_bit 8 (de_code d) OR ucast b,
       de_range := push_bit 8 (cut_range (de_low d) (de_range d)), de_low := push_bit 8 (de_low d)\<rparr>) }"

partial_function (option) decode_normalize :: "decoder \<Rightarrow> decoder option" where
  "decode_normalize d =
     (if settled (de_low d) (de_range d) then Some d
      else Option.bind (shift_in d) decode_normalize)"

declare decode_normalize.simps [code]

definition range_decode :: "u32 \<Rightarrow> u32 \<Rightarrow> decoder \<Rightarrow> decoder option" where
  "range_decode below n d =
     decode_normalize (d\<lparr>de_low := de_low d + below * de_range d, de_range := de_range d * n\<rparr>)"

subsection \<open>Finding the value of a code\<close>

text \<open>
  What the walk down a tree ends with: a symbol with its value, the counts under it and its own
  count, or (in a subcontext) \<^verbatim>\<open>return 0\<close>.
\<close>

record found =
  fd_symbol :: nat
  fd_value :: u8
  fd_under :: u16
  fd_count :: u16

definition hit :: "u16 \<Rightarrow> nat \<Rightarrow> symbol \<Rightarrow> u16 \<Rightarrow> u16 \<Rightarrow> u16 \<Rightarrow> symbol list \<Rightarrow> found \<times> symbol list" where
  "hit update i s after prior n ss =
     (\<lparr>fd_symbol = i, fd_value = sy_value s, fd_under = after - prior, fd_count = n + ucast (sy_count s)\<rparr>,
      ss[i := s\<lparr>sy_under := sy_under s + update, sy_count := sy_count s + ucast update\<rparr>])"

fun try_node ::
  "nat \<Rightarrow> u16 \<Rightarrow> nat \<Rightarrow> u16 \<Rightarrow> u16 \<Rightarrow> symbol list \<Rightarrow> (found \<times> symbol list) option option" where
  "try_node 0 update i code below ss = None"
| "try_node (Suc fuel) update i code below ss = do {
     s \<leftarrow> symbol_at ss i;
     let after = below + sy_under s;
     let prior = ucast (sy_count s);
     if code \<ge> after
     then if sy_right s \<noteq> 0
       then try_node fuel update (i + unat (sy_right s)) code (below + sy_under s) ss
       else Some None
     else if unat code + unat prior < unat after
     then let s = s\<lparr>sy_under := sy_under s + update\<rparr> in
       if sy_left s \<noteq> 0 then try_node fuel update (i + unat (sy_left s)) code below (ss[i := s])
       else Some None
     else Some (Some (hit update i s after prior 0 ss)) }"

declare try_node.simps [simp del]

definition context_try_decode :: "nat \<Rightarrow> u16 \<Rightarrow> symbol list \<Rightarrow> (found \<times> symbol list) option option" where
  "context_try_decode ctx code ss = do {
     c \<leftarrow> symbol_at ss ctx;
     if sy_symbols c = 0 then Some None
     else try_node (Suc (length ss)) ENET_SUBCONTEXT_SYMBOL_DELTA (ctx + unat (sy_symbols c)) code 0 ss }"

text \<open>In the root every value has a count: a code that meets no symbol creates one.\<close>

definition root_create_symbol ::
  "u8 \<Rightarrow> u16 \<Rightarrow> (nat \<Rightarrow> symbol list \<Rightarrow> symbol list) \<Rightarrow> symbol list \<Rightarrow> (found \<times> symbol list) option" where
  "root_create_symbol v below link ss = do {
     (j, ss) \<leftarrow> symbol_create v ENET_CONTEXT_SYMBOL_DELTA ss;
     Some (\<lparr>fd_symbol = j, fd_value = v, fd_under = below, fd_count = ENET_CONTEXT_SYMBOL_MINIMUM\<rparr>, link j ss) }"

fun root_node :: "nat \<Rightarrow> nat \<Rightarrow> u16 \<Rightarrow> u16 \<Rightarrow> symbol list \<Rightarrow> (found \<times> symbol list) option" where
  "root_node 0 i code below ss = None"
| "root_node (Suc fuel) i code below ss = do {
     s \<leftarrow> symbol_at ss i;
     let minimum = ENET_CONTEXT_SYMBOL_MINIMUM;
     let after = below + sy_under s + (ucast (sy_value s) + 1) * minimum;
     let prior = ucast (sy_count s) + minimum;
     if code \<ge> after
     then if sy_right s \<noteq> 0
       then root_node fuel (i + unat (sy_right s)) code (below + sy_under s) ss
       else root_create_symbol (sy_value s + 1 + ucast ((code - after) div minimum))
         (code - (code - after) mod minimum) (\<lambda>j ss. ss[i := s\<lparr>sy_right := of_nat (j - i)\<rparr>]) ss
     else if unat code + unat prior < unat after
     then let s = s\<lparr>sy_under := sy_under s + ENET_CONTEXT_SYMBOL_DELTA\<rparr>; rest = after - prior - code - 1 in
       if sy_left s \<noteq> 0 then root_node fuel (i + unat (sy_left s)) code below (ss[i := s])
       else root_create_symbol (sy_value s - 1 - ucast (rest div minimum))
         (code - rest mod minimum) (\<lambda>j ss. ss[i := s\<lparr>sy_left := of_nat (j - i)\<rparr>]) ss
     else Some (hit ENET_CONTEXT_SYMBOL_DELTA i s after prior minimum ss) }"

declare root_node.simps [simp del]

definition context_root_decode :: "u16 \<Rightarrow> symbol list \<Rightarrow> (found \<times> symbol list) option" where
  "context_root_decode code ss = do {
     c \<leftarrow> symbol_at ss 0;
     if sy_symbols c = 0
     then root_create_symbol (ucast (code div ENET_CONTEXT_SYMBOL_MINIMUM))
       (code - code mod ENET_CONTEXT_SYMBOL_MINIMUM) (\<lambda>j ss. ss[0 := c\<lparr>sy_symbols := of_nat j\<rparr>]) ss
     else root_node (Suc (length ss)) (unat (sy_symbols c)) code 0 ss }"

subsection \<open>One value\<close>

text \<open>
  The loop over the contexts: a subcontext that holds the value (with its index), or the root
  is reached.
\<close>

fun decode_contexts ::
  "nat \<Rightarrow> nat \<Rightarrow> symbol list \<Rightarrow> decoder \<Rightarrow> ((found \<times> nat) option \<times> symbol list \<times> decoder) option option" where
  "decode_contexts 0 ctx ss d = None"
| "decode_contexts (Suc fuel) ctx ss d =
     (if ctx = 0 then Some (Some (None, ss, d))
      else do {
        c \<leftarrow> symbol_at ss ctx;
        let parent = unat (sy_parent c);
        if sy_escapes c = 0 \<or> sy_escapes c \<ge> sy_total c then decode_contexts fuel parent ss d
        else do {
          (code, d) \<leftarrow> range_read (ucast (sy_total c)) d;
          if code < sy_escapes c
          then do {
            d \<leftarrow> range_decode 0 (ucast (sy_escapes c)) d;
            decode_contexts fuel parent ss d }
          else do {
            r \<leftarrow> context_try_decode ctx (code - sy_escapes c) ss;
            (case r of
               None \<Rightarrow> Some None
             | Some (f, ss) \<Rightarrow> do {
                 d \<leftarrow> range_decode (ucast (sy_escapes c) + ucast (fd_under f)) (ucast (fd_count f)) d;
                 ss \<leftarrow> rescale_if_due subcontext_limit 0 (fd_count f) ctx
                   (add_total ctx ENET_SUBCONTEXT_SYMBOL_DELTA ss);
                 Some (Some (Some (f, ctx), ss, d)) }) } } })"

declare decode_contexts.simps [simp del]

text \<open>The value in the root; the inner \<open>None\<close> is the end of the data.\<close>

definition decode_root :: "symbol list \<Rightarrow> decoder \<Rightarrow> (found \<times> symbol list \<times> decoder) option option" where
  "decode_root ss d = do {
     c \<leftarrow> symbol_at ss 0;
     (code, d) \<leftarrow> range_read (ucast (sy_total c)) d;
     if code < sy_escapes c
     then do { _ \<leftarrow> range_decode 0 (ucast (sy_escapes c)) d; Some None }
     else do {
       (f, ss) \<leftarrow> context_root_decode (code - sy_escapes c) ss;
       d \<leftarrow> range_decode (ucast (sy_escapes c) + ucast (fd_under f)) (ucast (fd_count f)) d;
       ss \<leftarrow> rescale_if_due root_limit ENET_CONTEXT_SYMBOL_MINIMUM (fd_count f) 0
         (add_total 0 ENET_CONTEXT_SYMBOL_DELTA ss);
       Some (Some (f, ss, d)) } }"

text \<open>\<^verbatim>\<open>patchContexts\<close>: the value joins the contexts from the predicted one up to where it was found.\<close>

fun patch_contexts ::
  "nat \<Rightarrow> u8 \<Rightarrow> nat \<Rightarrow> nat \<Rightarrow> nat option \<Rightarrow> u16 \<Rightarrow> symbol list \<Rightarrow> (nat option \<times> u16 \<times> symbol list) option" where
  "patch_contexts 0 v ctx stop place predicted ss = None"
| "patch_contexts (Suc fuel) v ctx stop place predicted ss =
     (if ctx = stop then Some (place, predicted, ss)
      else do {
        (j, below, n, ss) \<leftarrow> context_encode ENET_SUBCONTEXT_SYMBOL_DELTA 0 ctx v ss;
        let (predicted, ss) = set_parent place j predicted ss;
        let ss = add_total ctx ENET_SUBCONTEXT_SYMBOL_DELTA (if n > 0 then ss else add_escapes ctx ss);
        ss \<leftarrow> rescale_if_due subcontext_limit 0 n ctx ss;
        c \<leftarrow> symbol_at ss ctx;
        patch_contexts fuel v (unat (sy_parent c)) stop (Some j) predicted ss })"

declare patch_contexts.simps [simp del]

datatype decoded = End_Of_Data | Return_0 | Decoded u8 model_state decoder

definition decode_value :: "model_state \<Rightarrow> decoder \<Rightarrow> decoded option" where
  "decode_value m d = do {
     r \<leftarrow> decode_contexts (Suc symbols_size) (unat (ms_predicted m)) (ms_symbols m) d;
     (case r of
        None \<Rightarrow> Some Return_0
      | Some (sub, ss, d) \<Rightarrow> do {
          r \<leftarrow> (case sub of
                 Some (f, ctx) \<Rightarrow> Some (Some (f, ctx, ss, d))
               | None \<Rightarrow> map_option (map_option (\<lambda>(f, ss, d). (f, 0, ss, d))) (decode_root ss d));
          (case r of
             None \<Rightarrow> Some End_Of_Data
           | Some (f, ctx, ss, d) \<Rightarrow> do {
               (place, predicted, ss) \<leftarrow> patch_contexts (Suc symbols_size) (fd_value f) (unat (ms_predicted m)) ctx
                 None (ms_predicted m) ss;
               let (predicted, ss) = set_parent place (fd_symbol f) predicted ss;
               Some (Decoded (fd_value f) (m\<lparr>ms_predicted := predicted, ms_symbols := ss\<rparr>) d) }) }) }"

text \<open>\<open>room\<close> is what is left of \<^verbatim>\<open>outLimit\<close>.\<close>

fun decode_loop :: "nat \<Rightarrow> u8 list \<Rightarrow> model_state \<Rightarrow> decoder \<Rightarrow> u8 list option" where
  "decode_loop room out m d = do {
     r \<leftarrow> decode_value m d;
     (case r of
        End_Of_Data \<Rightarrow> Some out
      | Return_0 \<Rightarrow> Some []
      | Decoded v m d \<Rightarrow>
          (case room of
             0 \<Rightarrow> Some []
           | Suc room \<Rightarrow> do { m \<leftarrow> next_input m; decode_loop room (out @ [v]) m d })) }"

declare decode_loop.simps [simp del]

definition initial_decoder :: "u8 list \<Rightarrow> nat \<Rightarrow> decoder" where
  "initial_decoder data n = \<lparr>de_low = 0, de_range = NOT 0, de_code = 0, de_data = data, de_left = n\<rparr>"

definition enet_range_coder_decompress :: "u8 list \<Rightarrow> size_t \<Rightarrow> size_t \<Rightarrow> u8 list option" where
  "enet_range_coder_decompress data inLimit outLimit =
     (if inLimit = 0 then Some []
      else do {
        d \<leftarrow> decode_seed (initial_decoder data (unat inLimit));
        decode_loop (unat outLimit) [] initial_model d })"

end
