(* ===== verification/Host_Compress.thy ===== *)
theory Host_Compress
  imports Host Range_Decoder
begin

text \<open>\<^verbatim>\<open>enet_host_compress_with_range_coder\<close>: the range coder as the host's compressor.\<close>

definition range_coder :: compressor where
  "range_coder = \<lparr>co_compress = enet_range_coder_compress, co_decompress = enet_range_coder_decompress\<rparr>"

definition enet_host_compress_with_range_coder :: "host \<Rightarrow> int \<times> host" where
  "enet_host_compress_with_range_coder H =
     (let (ok, h) = enet_malloc (ht_heap H); H = H\<lparr>ht_heap := h\<rparr> in
      if \<not> ok then (-1, H) else (0, enet_host_compress (Some range_coder) H))"

end
