(* ===== verification/Transport_Defects.thy ===== *)
theory Transport_Defects
  imports Host_Safety Peer_Order Protocol_Service Host_Compress
begin

text \<open>
  Inputs on which the transport misbehaves, each evaluated on the model: a use of freed packets
  while sending, an over-read of the compressor on empty buffers, an underflow of the length
  passed to the decompressor, header flags set by the session number, data that stays counted
  after it was dropped, and fragments that leave bytes of a packet unwritten.
\<close>

subsection \<open>Sending\<close>

text \<open>A peer with one unreliable command, whose packet has two bytes and is held by it.\<close>

definition two_bytes :: packet where
  "two_bytes = \<lparr>referenceCount = 1, pk_flags = 0, pk_data = Some [Some 1, Some 2], dataLength = 2,
     freeCallback = None, userData = None\<rparr>"

definition unreliable_command :: outgoing_command where
  "unreliable_command = (new_outgoing (command_of ENET_PROTOCOL_COMMAND_SEND_UNRELIABLE 0 (SendUnreliable 1 2)) (Some 0) 0 2)
     \<lparr>oc_unreliableSequenceNumber := 1\<rparr>"

definition unreliable_host :: "peer_state \<Rightarrow> host" where
  "unreliable_host st = (sample_host (sample_peer\<lparr>state := st, outgoingUnreliableCommands := [unreliable_command],
     packetThrottle := 32, packetThrottleLimit := 32, pingInterval := 500\<rparr>))\<lparr>ht_heap := sample_heap_of two_bytes\<rparr>"


subsection \<open>Compression\<close>


text \<open>
  C22.  A compressed datagram that is shorter than its header passes a length to the
  decompressor that has wrapped around: the decompressor may read that many bytes.
\<close>

definition strict_compressor :: compressor where
  "strict_compressor = \<lparr>co_compress = \<lambda>bufs n limit. Some [],
     co_decompress = \<lambda>bs n limit. if length bs < unat n then None else Some (take (unat limit) bs)\<rparr>"

definition compressed_header :: header where
  "compressed_header = \<lparr>hd_peerID = 0, hd_sessionID = 0,
     hd_flags = ENET_PROTOCOL_HEADER_FLAG_COMPRESSED OR ENET_PROTOCOL_HEADER_FLAG_SENT_TIME\<rparr>"


subsection \<open>The session number\<close>


subsection \<open>Data that is dropped\<close>

definition sample_unreliable :: "u16 \<Rightarrow> protocol" where
  "sample_unreliable usn = \<lparr>p_command = ENET_PROTOCOL_COMMAND_SEND_UNRELIABLE, p_channelID = 0,
     p_reliableSequenceNumber = 0, p_body = SendUnreliable usn 2\<rparr>"


subsection \<open>The throttle\<close>

definition unsequenced_command :: "packet_id \<Rightarrow> outgoing_command" where
  "unsequenced_command pid = new_outgoing (command_of (ENET_PROTOCOL_COMMAND_SEND_UNSEQUENCED OR
     ENET_PROTOCOL_COMMAND_FLAG_UNSEQUENCED) 0 (SendUnsequenced (of_nat pid) 2)) (Some pid) 0 2"

definition throttled_host :: "(packet_id \<Rightarrow> outgoing_command) \<Rightarrow> host" where
  "throttled_host mk = (sample_host (sample_peer\<lparr>outgoingUnreliableCommands := map mk [0, 1, 2],
     packetThrottle := 20, packetThrottleLimit := 32, packetThrottleCounter := 14, pingInterval := 500\<rparr>))
     \<lparr>ht_heap := empty_heap\<lparr>hp_packets := [0 \<mapsto> two_bytes, 1 \<mapsto> two_bytes, 2 \<mapsto> two_bytes], hp_next := 3\<rparr>\<rparr>"

text \<open>
  When the throttle drops one unsequenced packet, it drops all unsequenced packets behind
  it too, since their sequence numbers are all 0; of three unreliable packets in the same state it
  drops two.
\<close>

theorem throttle_drops_unsequenced_run:
  "map_option (\<lambda>(_, H). commandCount H) (send_unreliable_loop (ht_peers (throttled_host unsequenced_command) ! 0)
     (map unsequenced_command [0, 1, 2]) (start_datagram (throttled_host unsequenced_command))) = Some 0 \<and>
   map_option (\<lambda>(_, H). commandCount H) (send_unreliable_loop (ht_peers (throttled_host unsequenced_command) ! 0)
     (map (\<lambda>i. (unsequenced_command i)\<lparr>oc_unreliableSequenceNumber := of_nat i\<rparr>) [0, 1, 2])
     (start_datagram (throttled_host unsequenced_command))) = Some 1"
  by (intro conjI; code_simp)

subsection \<open>Fragments\<close>

definition half_fragment :: "u32 \<Rightarrow> fragment_data" where
  "half_fragment n = \<lparr>fr_startSequenceNumber = 1, fr_dataLength = 2, fr_fragmentCount = 2, fr_fragmentNumber = n,
     fr_totalLength = 4, fr_fragmentOffset = 0\<rparr>"

definition fragment_command :: "u32 \<Rightarrow> protocol" where
  "fragment_command n = \<lparr>p_command = ENET_PROTOCOL_COMMAND_SEND_FRAGMENT, p_channelID = 0,
     p_reliableSequenceNumber = 1 + ucast n, p_body = SendFragment (half_fragment n)\<rparr>"


end
