(* ===== verification/Byte_Buffer.thy ===== *)
theory Byte_Buffer
  imports Prelude
begin

text \<open>
  The byte buffers of the game server (\<^verbatim>\<open>shared/tools.h\<close>) and the encodings of integers and
  strings in game messages (\<^verbatim>\<open>shared/tools.cpp\<close>).  A C++ \<^verbatim>\<open>int\<close> is a 32-bit word read as a
  signed number; the conversions to \<^verbatim>\<open>char\<close> and \<^verbatim>\<open>uchar\<close> are written out.
\<close>

type_synonym i32 = "32 word"

subsection \<open>Buffers\<close>

text \<open>
  \<^verbatim>\<open>databuf<uchar>\<close>: \<open>db_buf\<close> is the memory from \<^verbatim>\<open>buf\<close> on, of which the first \<open>db_maxlen\<close>
  bytes belong to the buffer.
\<close>

record databuf =
  db_buf :: "u8 list"
  db_len :: nat
  db_maxlen :: nat
  db_flags :: u8

definition OVERREAD :: u8 where
  [enet_consts]: "OVERREAD = push_bit 0 1"

definition OVERWROTE :: u8 where
  [enet_consts]: "OVERWROTE = push_bit 1 1"

definition make_databuf :: "u8 list \<Rightarrow> nat \<Rightarrow> databuf" where
  "make_databuf buf maxlen = \<lparr>db_buf = buf, db_len = 0, db_maxlen = maxlen, db_flags = 0\<rparr>"

definition db_reset :: "databuf \<Rightarrow> databuf" where
  "db_reset p = p\<lparr>db_len := 0, db_flags := 0\<rparr>"

definition db_get :: "databuf \<Rightarrow> u8 \<times> databuf" where
  "db_get p = (if db_len p < db_maxlen p then (db_buf p ! db_len p, p\<lparr>db_len := db_len p + 1\<rparr>)
               else (0, p\<lparr>db_flags := db_flags p OR OVERREAD\<rparr>))"

definition db_put :: "u8 \<Rightarrow> databuf \<Rightarrow> databuf" where
  "db_put v p = (if db_len p < db_maxlen p then p\<lparr>db_buf := (db_buf p)[db_len p := v], db_len := db_len p + 1\<rparr>
                 else p\<lparr>db_flags := db_flags p OR OVERWROTE\<rparr>)"

definition db_put_vals :: "u8 list \<Rightarrow> databuf \<Rightarrow> databuf" where
  "db_put_vals vals p =
     (let p = (if db_maxlen p - db_len p < length vals then p\<lparr>db_flags := db_flags p OR OVERWROTE\<rparr> else p);
          n = min (db_maxlen p - db_len p) (length vals)
      in p\<lparr>db_buf := take (db_len p) (db_buf p) @ take n vals @ drop (db_len p + n) (db_buf p),
           db_len := db_len p + n\<rparr>)"

definition db_put_all :: "u8 list \<Rightarrow> databuf \<Rightarrow> databuf" where
  "db_put_all bs p = fold db_put bs p"

definition db_get_vals :: "nat \<Rightarrow> databuf \<Rightarrow> u8 list \<times> databuf" where
  "db_get_vals numvals p =
     (let n = min (db_maxlen p - db_len p) numvals;
          p = (if n < numvals then p\<lparr>db_flags := db_flags p OR OVERREAD\<rparr> else p)
      in (take n (drop (db_len p) (db_buf p)), p\<lparr>db_len := db_len p + n\<rparr>))"

text \<open>The part of a buffer that \<^verbatim>\<open>subbuf\<close> cuts off, and the buffer behind it.\<close>

definition db_subbuf :: "int \<Rightarrow> databuf \<Rightarrow> databuf \<times> databuf" where
  "db_subbuf sz p =
     (let n = nat (max 0 (min sz (int (db_maxlen p - db_len p))))
      in (make_databuf (drop (db_len p) (db_buf p)) n, p\<lparr>db_len := db_len p + n\<rparr>))"

text \<open>\<^verbatim>\<open>offset\<close> moves the start of a buffer forward.\<close>

definition db_offset :: "nat \<Rightarrow> databuf \<Rightarrow> databuf" where
  "db_offset n p =
     (let n = min n (db_maxlen p)
      in p\<lparr>db_buf := drop n (db_buf p), db_maxlen := db_maxlen p - n, db_len := db_len p - n\<rparr>)"

definition db_remaining :: "databuf \<Rightarrow> nat" where
  "db_remaining p = db_maxlen p - db_len p"

definition db_overread :: "databuf \<Rightarrow> bool" where
  "db_overread p \<longleftrightarrow> db_flags p AND OVERREAD \<noteq> 0"

definition db_overwrote :: "databuf \<Rightarrow> bool" where
  "db_overwrote p \<longleftrightarrow> db_flags p AND OVERWROTE \<noteq> 0"

definition db_forceoverread :: "databuf \<Rightarrow> databuf" where
  "db_forceoverread p = p\<lparr>db_len := db_maxlen p, db_flags := db_flags p OR OVERREAD\<rparr>"

text \<open>What the constructors and every operation keep.\<close>

definition databuf_ok :: "databuf \<Rightarrow> bool" where
  "databuf_ok p \<longleftrightarrow> db_len p \<le> db_maxlen p \<and> db_maxlen p \<le> length (db_buf p)"

definition db_rest :: "databuf \<Rightarrow> u8 list" where
  "db_rest p = drop (db_len p) (take (db_maxlen p) (db_buf p))"

lemma make_databuf_ok [simp]: "maxlen \<le> length buf \<Longrightarrow> databuf_ok (make_databuf buf maxlen)"
  by (simp add: databuf_ok_def make_databuf_def)

lemma db_rest_make [simp]: "db_rest (make_databuf buf maxlen) = take maxlen buf"
  by (simp add: db_rest_def make_databuf_def)

lemma length_db_rest: "databuf_ok p \<Longrightarrow> length (db_rest p) = db_remaining p"
  by (simp add: db_rest_def db_remaining_def databuf_ok_def min_absorb2)

lemma db_get_ok:
  assumes "db_get p = (c, p')" "databuf_ok p"
  shows "databuf_ok p'" "db_remaining p' \<le> db_remaining p" "db_maxlen p' = db_maxlen p"
  using assms by (auto simp: db_get_def databuf_ok_def db_remaining_def split: if_splits)

text \<open>The buffer after \<open>k\<close> more bytes have been read.\<close>

definition advance :: "nat \<Rightarrow> databuf \<Rightarrow> databuf" where
  "advance k p = p\<lparr>db_len := db_len p + k\<rparr>"

lemma advance_simps [simp]: "advance 0 p = p" "advance k (advance m p) = advance (m + k) p"
  "db_maxlen (advance k p) = db_maxlen p" "db_flags (advance k p) = db_flags p"
  by (simp_all add: advance_def)

lemma db_get_advance:
  "databuf_ok p \<Longrightarrow> k < length (db_rest p) \<Longrightarrow> db_get (advance k p) = (db_rest p ! k, advance (Suc k) p)"
  by (auto simp add: advance_def db_get_def db_rest_def databuf_ok_def min_absorb2)

lemma db_rest_advance: "db_rest (advance k p) = drop k (db_rest p)"
  by (simp add: advance_def db_rest_def add.commute)

lemma advance_ok: "databuf_ok p \<Longrightarrow> k \<le> length (db_rest p) \<Longrightarrow> databuf_ok (advance k p)"
  by (auto simp add: advance_def db_rest_def databuf_ok_def min_absorb2)

lemma db_get_empty: "db_remaining p = 0 \<Longrightarrow> db_get p = (0, p\<lparr>db_flags := db_flags p OR OVERREAD\<rparr>)"
  by (simp add: db_get_def db_remaining_def)

subsection \<open>Integers\<close>

text \<open>
  \<^verbatim>\<open>putint\<close> and \<^verbatim>\<open>putuint\<close> as the bytes they put, in order; \<open>db_put_all\<close> puts them into a
  buffer.
\<close>

definition putint :: "i32 \<Rightarrow> u8 list" where
  "putint n =
     (if n <s 128 \<and> -127 <s n then [ucast n]
      else if n <s 0x8000 \<and> -0x8000 \<le>s n then [0x80, ucast n, ucast (signed_drop_bit 8 n)]
      else [0x81, ucast n, ucast (signed_drop_bit 8 n), ucast (signed_drop_bit 16 n), ucast (signed_drop_bit 24 n)])"

definition getint :: "databuf \<Rightarrow> i32 \<times> databuf" where
  "getint p =
     (let (b, p) = db_get p; c = (scast b :: i32)
      in if c = -128 then
           let (n, p) = db_get p; (hi, p) = db_get p in (ucast n OR push_bit 8 (scast hi), p)
         else if c = -127 then
           let (n, p) = db_get p; (n1, p) = db_get p; (n2, p) = db_get p; (n3, p) = db_get p
           in (ucast n OR push_bit 8 (ucast n1) OR push_bit 16 (ucast n2) OR push_bit 24 (ucast n3), p)
         else (c, p))"

text \<open>
  A block of seven bits with the mark that another follows, the test of that mark, and the step
  that replaces it by the next block.
\<close>

definition uint_block :: "nat \<Rightarrow> i32 \<Rightarrow> u8" where
  "uint_block k n = ucast (0x80 OR (signed_drop_bit k n AND 0x7F))"

definition putuint :: "i32 \<Rightarrow> u8 list" where
  "putuint n =
     (if n <s 0 \<or> push_bit 21 1 \<le>s n
      then [uint_block 0 n, uint_block 7 n, uint_block 14 n, ucast (signed_drop_bit 21 n)]
      else if n <s push_bit 7 1 then [ucast n]
      else if n <s push_bit 14 1 then [uint_block 0 n, ucast (signed_drop_bit 7 n)]
      else [uint_block 0 n, uint_block 7 n, ucast (signed_drop_bit 14 n)])"

definition uint_more :: "nat \<Rightarrow> i32 \<Rightarrow> bool" where
  "uint_more k n \<longleftrightarrow> n AND push_bit k 1 \<noteq> 0"

definition uint_add :: "nat \<Rightarrow> i32 \<Rightarrow> u8 \<Rightarrow> i32" where
  "uint_add k n b = n + (push_bit k (ucast b) - push_bit k 1)"

definition getuint :: "databuf \<Rightarrow> i32 \<times> databuf" where
  "getuint p =
     (let (b, p) = db_get p; n = (ucast b :: i32)
      in if \<not> uint_more 7 n then (n, p)
         else
           let (b, p) = db_get p; n = uint_add 7 n b;
               (n, p) = (if uint_more 14 n then let (b, p) = db_get p in (uint_add 14 n b, p) else (n, p));
               (n, p) = (if uint_more 21 n then let (b, p) = db_get p in (uint_add 21 n b, p) else (n, p))
           in (if uint_more 28 n then n OR push_bit 28 (NOT 0) else n, p))"

subsection \<open>The round trips of integers\<close>

text \<open>A buffer whose next bytes are \<open>bs\<close> reads them one after the other.\<close>

definition holds :: "u8 list \<Rightarrow> databuf \<Rightarrow> bool" where
  "holds bs p \<longleftrightarrow> databuf_ok p \<and> (\<exists>cs. db_rest p = bs @ cs)"

lemma holds_get: "holds bs p \<Longrightarrow> k < length bs \<Longrightarrow> db_get (advance k p) = (bs ! k, advance (Suc k) p)"
  by (auto simp: holds_def db_get_advance nth_append)

lemma holds_get_first: "holds (b # bs) p \<Longrightarrow> db_get p = (b, advance 1 p)"
  using holds_get [of "b # bs" p 0] by simp

lemma bit_small_sint:
  assumes "sint (n :: i32) < 2 ^ k" "- (2 ^ k) \<le> sint n" "k \<le> j" "j < 32"
  shows "bit n j = bit n k"
proof -
  have "bit (sint n) j = bit (sint n) k"
    using assms(3) bit_signed_take_bit_iff [of k "sint n" j] bit_signed_take_bit_iff [of k "sint n" k]
    by (simp add: signed_take_bit_int_eq_self [OF assms(2,1)] min_absorb1)
  then show ?thesis
    using assms(3,4) by (simp add: bit_sint_iff)
qed

lemma scast_ucast_u8:
  assumes "sint (n :: i32) < 128" "- 128 \<le> sint n"
  shows "(scast (ucast n :: u8) :: i32) = n"
proof (rule bit_word_eqI)
  fix j
  assume "j < LENGTH(32)"
  then show "bit (scast (ucast n :: u8) :: i32) j = bit n j"
    using bit_small_sint [of n 7 j] assms by (cases "j \<le> 7") (auto simp: bit_simps)
qed

lemma getint_two_bytes:
  assumes "sint (n :: i32) < 32768" "- 32768 \<le> sint n"
  shows "ucast (ucast n :: u8) OR push_bit 8 (scast (ucast (signed_drop_bit 8 n) :: u8)) = (n :: i32)"
proof (rule bit_word_eqI)
  fix j
  assume "j < LENGTH(32)"
  then show "bit (ucast (ucast n :: u8) OR push_bit 8 (scast (ucast (signed_drop_bit 8 n) :: u8)) :: i32) j = bit n j"
    using bit_small_sint [of n 15 j] assms by (cases "j < 8"; cases "j < 16") (auto simp: bit_simps)
qed

lemma getint_four_bytes:
  "ucast (ucast n :: u8) OR push_bit 8 (ucast (ucast (signed_drop_bit 8 n) :: u8)) OR
     push_bit 16 (ucast (ucast (signed_drop_bit 16 n) :: u8)) OR
     push_bit 24 (ucast (ucast (signed_drop_bit 24 n) :: u8)) = (n :: i32)"
proof (rule bit_word_eqI)
  fix j
  assume "j < LENGTH(32)"
  then show "bit (ucast (ucast n :: u8) OR push_bit 8 (ucast (ucast (signed_drop_bit 8 n) :: u8)) OR
     push_bit 16 (ucast (ucast (signed_drop_bit 16 n) :: u8)) OR
     push_bit 24 (ucast (ucast (signed_drop_bit 24 n) :: u8)) :: i32) j = bit n j"
    by (cases "j < 8"; cases "j < 16"; cases "j < 24") (auto simp: bit_simps)
qed

lemma sless_i32: "(a :: i32) <s b \<longleftrightarrow> sint a < sint b" "a \<le>s b \<longleftrightarrow> sint a \<le> sint b"
  by (simp_all add: word_sless_alt word_sle_eq)

lemma getint_putint:
  assumes "holds (putint n) p"
  shows "getint p = (n, advance (length (putint n)) p)"
proof -
  have mark: "64 * word_of_int (signed_take_bit 1 2) = (-128 :: i32)"
    by code_simp
  consider (one) "n <s 128" "-127 <s n"
    | (two) "\<not> (n <s 128 \<and> -127 <s n)" "n <s 0x8000" "-0x8000 \<le>s n"
    | (four) "\<not> (n <s 128 \<and> -127 <s n)" "\<not> (n <s 0x8000 \<and> -0x8000 \<le>s n)"
    by blast
  then show ?thesis
  proof cases
    case one
    then have n: "(scast (ucast n :: u8) :: i32) = n"
      by (intro scast_ucast_u8) (simp_all add: sless_i32)
    have p: "db_get p = (ucast n, advance 1 p)"
      using assms one by (intro holds_get_first) (simp add: putint_def)
    have "n \<noteq> -128" "n \<noteq> -127"
      using one by (auto simp: sless_i32)
    then show ?thesis
      using one by (simp add: getint_def p n putint_def)
  next
    case two
    then have bytes: "putint n = [0x80, ucast n, ucast (signed_drop_bit 8 n)]"
      by (simp add: putint_def)
    note get = holds_get [OF assms, unfolded bytes, of 0] holds_get [OF assms, unfolded bytes, of 1]
      holds_get [OF assms, unfolded bytes, of 2]
    show ?thesis
      using get getint_two_bytes [of n] two by (simp add: getint_def bytes sless_i32 mark Let_def del: One_nat_def flip: One_nat_def)
  next
    case four
    then have bytes: "putint n = [0x81, ucast n, ucast (signed_drop_bit 8 n), ucast (signed_drop_bit 16 n),
        ucast (signed_drop_bit 24 n)]"
      by (auto simp: putint_def)
    note get = holds_get [OF assms, unfolded bytes, of 0] holds_get [OF assms, unfolded bytes, of 1]
      holds_get [OF assms, unfolded bytes, of 2] holds_get [OF assms, unfolded bytes, of 3]
      holds_get [OF assms, unfolded bytes, of 4]
    show ?thesis
      using get getint_four_bytes [of n] by (simp add: getint_def bytes mark Let_def del: One_nat_def flip: One_nat_def)
  qed
qed

lemma uint_step:
  assumes "(n :: i32) AND NOT (mask p) = push_bit p 1"
  shows "n + (push_bit p c - push_bit p 1) = (n AND mask p) OR push_bit p c"
proof -
  have "(n AND mask p) + (n AND NOT (mask p)) = (n AND mask p) OR (n AND NOT (mask p))"
    by (rule disjunctive_add) (simp add: bit_and_iff bit_not_iff)
  also have "\<dots> = n"
    by (rule bit_word_eqI) (simp add: bit_simps; blast)
  finally have "n = (n AND mask p) + (n AND NOT (mask p))" ..
  then have eq: "n = (n AND mask p) + push_bit p 1"
    by (simp only: assms)
  have "x + (d - b) = a + d" if "x = a + b" for x a b d :: i32
    using that by simp
  from this [OF eq] have "n + (push_bit p c - push_bit p 1) = (n AND mask p) + push_bit p c" .
  also have "\<dots> = (n AND mask p) OR push_bit p c"
    by (rule disjunctive_add) (simp add: bit_and_iff bit_mask_iff bit_push_bit_iff)
  finally show ?thesis .
qed

text \<open>The bits collected before block \<open>k\<close>, with the mark that this block was read.\<close>

definition blocks :: "nat \<Rightarrow> i32 \<Rightarrow> i32" where
  "blocks k n = (n AND mask k) OR push_bit k (ucast (uint_block k n))"

lemma bit_0x80: "bit (0x80 :: 'a::len word) j \<longleftrightarrow> j = 7 \<and> 7 < LENGTH('a)"
  using bit_exp_iff [of 7 j, where ?'a = "'a word"] by auto

lemma bit_0x7F: "bit (0x7F :: 'a::len word) j \<longleftrightarrow> j < 7 \<and> j < LENGTH('a)"
  using bit_mask_iff [of 7 j, where ?'a = "'a word"] by (auto simp: mask_eq_exp_minus_1)

lemma bit_uint_block: "bit (uint_block k n) j \<longleftrightarrow> j = 7 \<or> j < 7 \<and> bit (signed_drop_bit k n) j"
  unfolding uint_block_def bit_ucast_iff bit_or_iff bit_and_iff bit_0x80 bit_0x7F by auto

lemma bit_blocks:
  assumes "k + 7 < 32"
  shows "bit (blocks k n) j \<longleftrightarrow> j = k + 7 \<or> j < k + 7 \<and> bit n j"
proof -
  consider "j < k" | "k \<le> j" "j < k + 7" | "k + 7 \<le> j"
    by linarith
  then show ?thesis
    using assms by cases (auto simp: blocks_def bit_or_iff bit_and_iff bit_mask_iff bit_push_bit_iff bit_ucast_iff
        bit_uint_block bit_signed_drop_bit_iff)
qed

lemma blocks_add:
  assumes "k + 7 < 32"
  shows "uint_add (k + 7) (blocks k n) b = (n AND mask (k + 7)) OR push_bit (k + 7) (ucast b)"
proof -
  have "blocks k n AND NOT (mask (k + 7)) = push_bit (k + 7) 1"
    using assms by (intro bit_word_eqI) (auto simp: bit_and_iff bit_not_iff bit_mask_iff bit_push_bit_iff bit_exp_iff bit_blocks)
  then have "uint_add (k + 7) (blocks k n) b = (blocks k n AND mask (k + 7)) OR push_bit (k + 7) (ucast b)"
    unfolding uint_add_def by (rule uint_step)
  also have "blocks k n AND mask (k + 7) = n AND mask (k + 7)"
    using assms by (intro bit_word_eqI) (auto simp: bit_and_iff bit_mask_iff bit_blocks)
  finally show ?thesis .
qed

lemma uint_more_bit: "uint_more k n \<longleftrightarrow> bit n k"
  unfolding uint_more_def by (simp add: and_exp_eq_0_iff_not_bit push_bit_eq_mult)

text \<open>What the last block leaves, when nothing is lost above it.\<close>

definition joined :: "nat \<Rightarrow> i32 \<Rightarrow> i32" where
  "joined k n = (n AND mask k) OR push_bit k (ucast (ucast (signed_drop_bit k n) :: u8))"

lemma bit_joined:
  assumes "k + 8 < 32"
  shows "bit (joined k n) j \<longleftrightarrow> j < k + 8 \<and> bit n j"
proof -
  consider "j < k" | "k \<le> j" "j < k + 8" | "k + 8 \<le> j"
    by linarith
  then show ?thesis
    using assms by cases (auto simp: joined_def bit_or_iff bit_and_iff bit_mask_iff bit_push_bit_iff bit_ucast_iff
        bit_signed_drop_bit_iff)
qed

text \<open>A value in the range of 28 bits and a sign comes back from its bytes.\<close>

lemma not_bit_small:
  assumes "0 \<le> sint (n :: i32)" "sint n < 2 ^ k" "k \<le> j" "j < 32"
  shows "\<not> bit n j"
proof -
  have "bit n j = bit n 31"
    using bit_small_sint [of n k j] bit_small_sint [of n k 31] assms by simp
  moreover have "\<not> bit (sint n) 31"
    using assms(1) sint_less [of n] by (simp add: bit_iff_odd)
  ultimately show ?thesis
    by (simp add: bit_sint_iff)
qed

lemma joined_small:
  assumes "k + 8 < 32" "0 \<le> sint n" "sint n < 2 ^ (k + 7)"
  shows "joined k n = n" "k + 7 \<le> j \<Longrightarrow> j < 32 \<Longrightarrow> \<not> uint_more j n"
proof -
  have small: "\<not> bit n j" if "k + 7 \<le> j" "j < 32" for j
    using not_bit_small [OF assms(2,3)] that by blast
  show "joined k n = n"
  proof (rule bit_word_eqI)
    fix j
    assume "j < LENGTH(32)"
    then show "bit (joined k n) j = bit n j"
      using small [of j] assms(1) by (cases "k + 7 \<le> j") (auto simp: bit_joined)
  qed
  show "k + 7 \<le> j \<Longrightarrow> j < 32 \<Longrightarrow> \<not> uint_more j n"
    using small by (simp add: uint_more_bit)
qed

lemma joined_signed:
  assumes "- (2 ^ 28) \<le> sint n" "sint n < 2 ^ 28"
  shows "(if uint_more 28 (joined 21 n) then joined 21 n OR push_bit 28 (NOT 0) else joined 21 n) = n"
proof (rule bit_word_eqI)
  fix j
  assume j: "j < LENGTH(32)"
  have "28 \<le> j \<Longrightarrow> bit n j = bit n 28"
    using bit_small_sint [of n 28 j] assms j by simp
  moreover have "j < 29 \<or> 28 \<le> j"
    by linarith
  ultimately show "bit (if uint_more 28 (joined 21 n) then joined 21 n OR push_bit 28 (NOT 0) else joined 21 n) j = bit n j"
    using j by (auto simp: uint_more_bit bit_joined bit_or_iff bit_not_iff bit_mask_iff)
qed

lemma uint_first: "ucast (uint_block 0 n) = blocks 0 n"
  by (simp add: blocks_def)

lemma uint_add_block: "k + 7 + 7 < 32 \<Longrightarrow> uint_add (k + 7) (blocks k n) (uint_block (k + 7) n) = blocks (k + 7) n"
  by (simp add: blocks_add) (simp add: blocks_def)

lemma uint_add_last: "k + 7 < 32 \<Longrightarrow> uint_add (k + 7) (blocks k n) (ucast (signed_drop_bit (k + 7) n)) = joined (k + 7) n"
  by (simp add: blocks_add) (simp add: joined_def)

lemma uint_more_blocks: "k + 7 < 32 \<Longrightarrow> uint_more (k + 7) (blocks k n)"
  by (simp add: uint_more_bit bit_blocks)

lemma getuint_putuint:
  assumes H: "holds (putuint n) p" and range: "- (2 ^ 28) \<le> sint n" "sint n < 2 ^ 28"
  shows "getuint p = (n, advance (length (putuint n)) p)"
proof -
  have powers: "sint (push_bit 21 1 :: i32) = 2 ^ 21" "sint (push_bit 14 1 :: i32) = 2 ^ 14"
      "sint (push_bit 7 1 :: i32) = 2 ^ 7"
    by (simp_all add: push_bit_eq_mult)
  note step = uint_add_block [of 0] uint_add_block [of 7] uint_add_last [of 0] uint_add_last [of 7] uint_add_last [of 14]
    uint_more_blocks [of 0] uint_more_blocks [of 7] uint_more_blocks [of 14]
  consider (four) "n <s 0 \<or> push_bit 21 1 \<le>s n"
    | (one) "0 \<le> sint n" "sint n < 2 ^ 7"
    | (two) "2 ^ 7 \<le> sint n" "sint n < 2 ^ 14"
    | (three) "2 ^ 14 \<le> sint n" "sint n < 2 ^ 21"
    unfolding sless_i32 powers by fastforce
  then show ?thesis
  proof cases
    case four
    then have bytes: "putuint n = [uint_block 0 n, uint_block 7 n, uint_block 14 n, ucast (signed_drop_bit 21 n)]"
      by (simp add: putuint_def)
    note get = holds_get [OF H, unfolded bytes, of 0] holds_get [OF H, unfolded bytes, of 1]
      holds_get [OF H, unfolded bytes, of 2] holds_get [OF H, unfolded bytes, of 3]
    show ?thesis
      using get step joined_signed [OF range] by (simp add: getuint_def bytes uint_first del: One_nat_def flip: One_nat_def)
  next
    case one
    then have bytes: "putuint n = [ucast n]"
      by (simp add: putuint_def sless_i32 powers)
    note get = holds_get [OF H, unfolded bytes, of 0]
    note small = joined_small [of 0 n]
    show ?thesis
      using get small one by (simp add: getuint_def bytes joined_def del: One_nat_def flip: One_nat_def)
  next
    case two
    then have bytes: "putuint n = [uint_block 0 n, ucast (signed_drop_bit 7 n)]"
      by (simp add: putuint_def sless_i32 powers)
    note get = holds_get [OF H, unfolded bytes, of 0] holds_get [OF H, unfolded bytes, of 1]
    note small = joined_small [of 7 n]
    show ?thesis
      using get step small two by (simp add: getuint_def bytes uint_first del: One_nat_def flip: One_nat_def)
  next
    case three
    then have bytes: "putuint n = [uint_block 0 n, uint_block 7 n, ucast (signed_drop_bit 14 n)]"
      by (simp add: putuint_def sless_i32 powers)
    note get = holds_get [OF H, unfolded bytes, of 0] holds_get [OF H, unfolded bytes, of 1]
      holds_get [OF H, unfolded bytes, of 2]
    note small = joined_small [of 14 n]
    show ?thesis
      using get step small three by (simp add: getuint_def bytes uint_first del: One_nat_def flip: One_nat_def)
  qed
qed

subsection \<open>Strings\<close>

text \<open>
  A C string is the list of its bytes without the terminator, so that it holds no zero byte.
  A byte is put as a signed \<^verbatim>\<open>char\<close>.
\<close>

definition sendstring :: "u8 list \<Rightarrow> u8 list" where
  "sendstring t = concat (map (\<lambda>c. putint (scast c)) t) @ putint 0"

text \<open>
  \<^verbatim>\<open>getstring\<close> returns the bytes it has written from \<^verbatim>\<open>text\<close> on.  A length of 0 writes before
  the text: undefined.
\<close>

fun getstring_loop :: "nat \<Rightarrow> u8 list \<Rightarrow> databuf \<Rightarrow> (u8 list \<times> databuf) option" where
  "getstring_loop 0 text p = (if text = [] then None else Some (butlast text @ [0], p))"
| "getstring_loop (Suc room) text p =
     (if db_remaining p = 0 then Some (text @ [0], p)
      else let (c, p) = getint p
           in if (ucast c :: u8) = 0 then Some (text @ [0], p) else getstring_loop room (text @ [ucast c]) p)"

definition getstring :: "nat \<Rightarrow> databuf \<Rightarrow> (u8 list \<times> databuf) option" where
  "getstring len p = getstring_loop len [] p"

text \<open>What reading does to a buffer.\<close>

definition later :: "databuf \<Rightarrow> databuf \<Rightarrow> bool" where
  "later p p' \<longleftrightarrow> (databuf_ok p \<longrightarrow> databuf_ok p' \<and> db_remaining p' \<le> db_remaining p \<and> db_maxlen p' = db_maxlen p)"

lemma later_refl: "later p p"
  by (simp add: later_def)

lemma db_get_later: "db_get q = (c, q') \<Longrightarrow> later p q \<Longrightarrow> later p q'"
  using db_get_ok unfolding later_def by fastforce

lemma getint_later: "getint p = (n, p') \<Longrightarrow> later p p'"
  unfolding getint_def Let_def
  by (auto split: prod.splits if_splits) ((erule db_get_later)+, rule later_refl)+

lemma holds_append: "holds (xs @ ys) p \<Longrightarrow> holds xs p \<and> holds ys (advance (length xs) p)"
  by (auto simp: holds_def db_rest_advance intro: advance_ok)

lemma holds_remaining: "holds bs p \<Longrightarrow> length bs \<le> db_remaining p"
  by (auto simp: holds_def simp flip: length_db_rest)

lemma length_putint: "0 < length (putint n)"
  by (simp add: putint_def)

lemma ucast_scast_u8: "(ucast (scast (c :: u8) :: i32) :: u8) = c"
  by (rule bit_word_eqI) (auto simp: bit_simps)

lemma getstring_loop_sendstring:
  assumes "holds (sendstring t) p" "0 \<notin> set t" "length t < room"
  shows "getstring_loop room w p = Some (w @ t @ [0], advance (length (sendstring t)) p)"
  using assms
proof (induction t arbitrary: room w p)
  case Nil
  then obtain r where room: "room = Suc r"
    by (cases room) auto
  have "holds (putint 0) p"
    using Nil by (simp add: sendstring_def)
  moreover from this have "db_remaining p \<noteq> 0"
    using holds_remaining [of "putint 0" p] length_putint [of 0] by linarith
  ultimately show ?case
    using getint_putint [of 0 p] by (simp add: room sendstring_def)
next
  case (Cons c t)
  then obtain r where room: "room = Suc r"
    by (cases room) auto
  have H: "holds (putint (scast c)) p" "holds (sendstring t) (advance (length (putint (scast c))) p)"
    using Cons.prems(1) by (simp_all add: sendstring_def holds_append)
  then have "db_remaining p \<noteq> 0"
    using holds_remaining [OF H(1)] length_putint [of "scast c"] by linarith
  then show ?case
    using Cons.IH [OF H(2)] Cons.prems getint_putint [OF H(1)] ucast_scast_u8 [of c]
    by (auto simp: room sendstring_def ac_simps)
qed

lemma getstring_loop_total:
  assumes "0 < room \<or> w \<noteq> []" "0 \<notin> set w"
  shows "\<exists>t p'. getstring_loop room w p = Some (t @ [0], p') \<and> length t < length w + room \<and> 0 \<notin> set t \<and> later p p'"
  using assms
proof (induction room arbitrary: w p)
  case 0
  then show ?case
    by (auto simp: later_refl dest: in_set_butlastD intro!: exI [of _ "butlast w"])
next
  case (Suc room)
  obtain c p1 where c: "getint p = (c, p1)"
    by (cases "getint p")
  show ?case
  proof (cases "db_remaining p = 0 \<or> (ucast c :: u8) = 0")
    case True
    then show ?thesis
      using Suc.prems(2) c getint_later [OF c] by (auto simp: later_refl)
  next
    case False
    then have "0 \<notin> set (w @ [ucast c])"
      using Suc.prems(2) by simp
    then obtain t p2 where "getstring_loop room (w @ [ucast c]) p1 = Some (t @ [0], p2)"
        "length t < length (w @ [ucast c]) + room" "0 \<notin> set t" "later p1 p2"
      using Suc.IH [of "w @ [ucast c]" p1] by blast
    moreover from this getint_later [OF c] have "later p p2"
      by (auto simp: later_def)
    ultimately show ?thesis
      using False c by auto
  qed
qed

subsection \<open>Properties\<close>

lemma holds_rest:
  assumes "databuf_ok p" "db_rest p = bs @ rest"
  shows "holds bs p" "databuf_ok (advance (length bs) p)" "db_rest (advance (length bs) p) = rest"
  using assms by (auto simp: holds_def db_rest_advance intro: advance_ok)

text \<open>
  C34.  Every 32-bit integer that is put into a message comes back when it is read, and the
  reader stands right behind it: nothing is over-read, whatever follows.
\<close>

theorem integer_roundtrip:
  assumes "databuf_ok p" "db_rest p = putint n @ rest"
  shows "\<exists>p'. getint p = (n, p') \<and> databuf_ok p' \<and> db_rest p' = rest \<and> db_flags p' = db_flags p"
  using getint_putint [OF holds_rest(1) [OF assms]] holds_rest [OF assms] by auto

theorem integer_roundtrip_witness:
  "\<exists>p'. getint (make_databuf (putint (-1000) @ [7]) 4) = (-1000, p') \<and> db_rest p' = [7]"
proof -
  have "putint (-1000) = [0x80, 0x18, 0xFC]"
    by code_simp
  then show ?thesis
    using integer_roundtrip [of "make_databuf (putint (-1000) @ [7]) 4" "-1000" "[7]"] by auto
qed

text \<open>
  An integer of 28 bits and a sign survives the compact encoding.
\<close>

theorem unsigned_roundtrip:
  assumes "databuf_ok p" "db_rest p = putuint n @ rest" "- (2 ^ 28) \<le> sint n" "sint n < 2 ^ 28"
  shows "\<exists>p'. getuint p = (n, p') \<and> databuf_ok p' \<and> db_rest p' = rest \<and> db_flags p' = db_flags p"
  using getuint_putuint [OF holds_rest(1) [OF assms(1,2)] assms(3,4)] holds_rest [OF assms(1,2)] by auto

theorem unsigned_roundtrip_witness:
  "\<exists>p'. getuint (make_databuf (putuint 300 @ [7]) 3) = (300, p') \<and> db_rest p' = [7]"
proof -
  have "putuint 300 = [0xAC, 2]" "- (2 ^ 28) \<le> sint (300 :: i32)" "sint (300 :: i32) < 2 ^ 28"
    by code_simp+
  then show ?thesis
    using unsigned_roundtrip [of "make_databuf (putuint 300 @ [7]) 3" 300 "[7]"] by auto
qed

text \<open>
  C35.  A string without zero bytes that is shorter than the reader's array comes back unchanged,
  with its terminator.
\<close>

theorem string_roundtrip:
  assumes "databuf_ok p" "db_rest p = sendstring t @ rest" "0 \<notin> set t" "length t < len"
  shows "\<exists>p'. getstring len p = Some (t @ [0], p') \<and> databuf_ok p' \<and> db_rest p' = rest"
  using getstring_loop_sendstring [OF holds_rest(1) [OF assms(1,2)] assms(3,4), of "[]"] holds_rest [OF assms(1,2)]
  by (auto simp: getstring_def)

theorem string_roundtrip_witness:
  "\<exists>p'. getstring 4 (make_databuf (sendstring [104, 200, 105] @ [7]) 5) = Some ([104, 200, 105, 0], p') \<and> db_rest p' = [7]"
proof -
  have "length (sendstring [104, 200, 105]) = 4"
    by code_simp
  then show ?thesis
    using string_roundtrip [of "make_databuf (sendstring [104, 200, 105] @ [7]) 5" "[104, 200, 105]" "[7]" 4] by auto
qed

text \<open>
  C36.  Whatever a message holds, reading a string stays inside the array of the reader and inside
  the message, and always leaves a terminated string.
\<close>

theorem getstring_bounded:
  assumes "0 < len"
  shows "\<exists>t p'. getstring len p = Some (t @ [0], p') \<and> length (t @ [0]) \<le> len \<and> 0 \<notin> set t \<and>
    (databuf_ok p \<longrightarrow> databuf_ok p' \<and> db_remaining p' \<le> db_remaining p)"
  using getstring_loop_total [of len "[]" p] assms by (fastforce simp: getstring_def later_def)

theorem getstring_bounded_witness:
  "\<exists>t p'. getstring 2 (make_databuf [0x81, 1] 2) = Some (t @ [0], p') \<and> length (t @ [0]) \<le> 2"
  using getstring_bounded [of 2 "make_databuf [0x81, 1] 2"] by auto

end
