(* ===== verification/Game_Text.thy ===== *)
theory Game_Text
  imports Byte_Buffer "HOL-Library.Sublist"
begin

text \<open>
  Characters and texts of the game: the character classes and conversion tables of
  \<^verbatim>\<open>shared/stream.cpp\<close>, the filter for texts that clients send (\<^verbatim>\<open>filtertext\<close>), the
  conversions between the game's character set and UTF-8, and the bounded string copies of
  \<^verbatim>\<open>shared/tools.h\<close>.
\<close>

subsection \<open>Character classes\<close>

definition CT_PRINT :: u8 where [enet_consts]: "CT_PRINT = push_bit 0 1"
definition CT_SPACE :: u8 where [enet_consts]: "CT_SPACE = push_bit 1 1"
definition CT_DIGIT :: u8 where [enet_consts]: "CT_DIGIT = push_bit 2 1"
definition CT_ALPHA :: u8 where [enet_consts]: "CT_ALPHA = push_bit 3 1"
definition CT_LOWER :: u8 where [enet_consts]: "CT_LOWER = push_bit 4 1"
definition CT_UPPER :: u8 where [enet_consts]: "CT_UPPER = push_bit 5 1"
definition CT_UNICODE :: u8 where [enet_consts]: "CT_UNICODE = push_bit 6 1"

definition cubectype_table :: "'a::zero \<Rightarrow> 'a \<Rightarrow> 'a \<Rightarrow> 'a \<Rightarrow> 'a \<Rightarrow> 'a \<Rightarrow> 'a \<Rightarrow> 'a list" where
  "cubectype_table s p d a A u U =
     [0] @ replicate 8 U @ replicate 5 s @ replicate 18 U @ [s] @ replicate 15 p @ replicate 10 d @
     replicate 7 p @ replicate 26 A @ replicate 6 p @ replicate 26 a @ [p, p, p, p, U, U] @
     replicate 30 u @
     concat (replicate 20 [U, u]) @ [U, U, u, U, u, U, u] @
     replicate 22 U @ replicate 26 u @ [U, u]"

definition cubectype :: "u8 list" where
  "cubectype = cubectype_table CT_SPACE
     CT_PRINT
     (CT_PRINT OR CT_DIGIT)
     (CT_PRINT OR CT_ALPHA OR CT_LOWER)
     (CT_PRINT OR CT_ALPHA OR CT_UPPER)
     (CT_PRINT OR CT_UNICODE OR CT_ALPHA OR CT_LOWER)
     (CT_PRINT OR CT_UNICODE OR CT_ALPHA OR CT_UPPER)"

definition ctype :: "u8 \<Rightarrow> u8" where
  "ctype c = cubectype ! unat c"

definition iscubeprint :: "u8 \<Rightarrow> bool" where
  "iscubeprint c \<longleftrightarrow> ctype c AND CT_PRINT \<noteq> 0"

definition iscubespace :: "u8 \<Rightarrow> bool" where
  "iscubespace c \<longleftrightarrow> ctype c AND CT_SPACE \<noteq> 0"

definition iscubealpha :: "u8 \<Rightarrow> bool" where
  "iscubealpha c \<longleftrightarrow> ctype c AND CT_ALPHA \<noteq> 0"

definition iscubealnum :: "u8 \<Rightarrow> bool" where
  "iscubealnum c \<longleftrightarrow> ctype c AND (CT_ALPHA OR CT_DIGIT) \<noteq> 0"

definition iscubelower :: "u8 \<Rightarrow> bool" where
  "iscubelower c \<longleftrightarrow> ctype c AND CT_LOWER \<noteq> 0"

definition iscubeupper :: "u8 \<Rightarrow> bool" where
  "iscubeupper c \<longleftrightarrow> ctype c AND CT_UPPER \<noteq> 0"

definition iscubepunct :: "u8 \<Rightarrow> bool" where
  "iscubepunct c \<longleftrightarrow> ctype c = CT_PRINT"

lemma length_cubectype: "length cubectype = 256"
  by (simp add: cubectype_def cubectype_table_def length_concat sum_list_replicate)

subsection \<open>Conversion tables\<close>

definition cube2unichars :: "i32 list" where
  "cube2unichars = [
     0, 192, 193, 194, 195, 196, 197, 198, 199, 9, 10, 11, 12, 13, 200, 201,
     202, 203, 204, 205, 206, 207, 209, 210, 211, 212, 213, 214, 216, 217, 218, 219,
     32, 33, 34, 35, 36, 37, 38, 39, 40, 41, 42, 43, 44, 45, 46, 47,
     48, 49, 50, 51, 52, 53, 54, 55, 56, 57, 58, 59, 60, 61, 62, 63,
     64, 65, 66, 67, 68, 69, 70, 71, 72, 73, 74, 75, 76, 77, 78, 79,
     80, 81, 82, 83, 84, 85, 86, 87, 88, 89, 90, 91, 92, 93, 94, 95,
     96, 97, 98, 99, 100, 101, 102, 103, 104, 105, 106, 107, 108, 109, 110, 111,
     112, 113, 114, 115, 116, 117, 118, 119, 120, 121, 122, 123, 124, 125, 126, 220,
     221, 223, 224, 225, 226, 227, 228, 229, 230, 231, 232, 233, 234, 235, 236, 237,
     238, 239, 241, 242, 243, 244, 245, 246, 248, 249, 250, 251, 252, 253, 255, 260,
     261, 262, 263, 268, 269, 270, 271, 280, 281, 282, 283, 286, 287, 304, 305, 321,
     322, 323, 324, 327, 328, 336, 337, 338, 339, 344, 345, 346, 347, 350, 351, 352,
     353, 356, 357, 366, 367, 368, 369, 376, 377, 378, 379, 380, 381, 382, 1028, 1041,
     1043, 1044, 1046, 1047, 1048, 1049, 1051, 1055, 1059, 1060, 1062, 1063, 1064, 1065, 1066, 1067,
     1068, 1069, 1070, 1071, 1073, 1074, 1075, 1076, 1078, 1079, 1080, 1081, 1082, 1083, 1084, 1085,
     1087, 1090, 1092, 1094, 1095, 1096, 1097, 1098, 1099, 1100, 1101, 1102, 1103, 1108, 1168, 1169]"

definition uni2cubeoffsets :: "nat list" where
  "uni2cubeoffsets = [0, 256, 658, 658, 512, 658, 658, 658]"

definition uni2cubechars :: "u8 list" where
  "uni2cubechars = [
     0, 0, 0, 0, 0, 0, 0, 0, 0, 9, 10, 11, 12, 13, 0, 0, 0, 0, 0, 0, 0, 0, 0, 0, 0, 0, 0, 0, 0, 0, 0, 0,
     32, 33, 34, 35, 36, 37, 38, 39, 40, 41, 42, 43, 44, 45, 46, 47, 48, 49, 50, 51, 52, 53, 54, 55, 56, 57, 58, 59, 60, 61, 62, 63,
     64, 65, 66, 67, 68, 69, 70, 71, 72, 73, 74, 75, 76, 77, 78, 79, 80, 81, 82, 83, 84, 85, 86, 87, 88, 89, 90, 91, 92, 93, 94, 95,
     96, 97, 98, 99, 100, 101, 102, 103, 104, 105, 106, 107, 108, 109, 110, 111, 112, 113, 114, 115, 116, 117, 118, 119, 120, 121, 122, 123, 124, 125, 126, 0,
     0, 0, 0, 0, 0, 0, 0, 0, 0, 0, 0, 0, 0, 0, 0, 0, 0, 0, 0, 0, 0, 0, 0, 0, 0, 0, 0, 0, 0, 0, 0, 0,
     0, 0, 0, 0, 0, 0, 0, 0, 0, 0, 0, 0, 0, 0, 0, 0, 0, 0, 0, 0, 0, 0, 0, 0, 0, 0, 0, 0, 0, 0, 0, 0,
     1, 2, 3, 4, 5, 6, 7, 8, 14, 15, 16, 17, 18, 19, 20, 21, 0, 22, 23, 24, 25, 26, 27, 0, 28, 29, 30, 31, 127, 128, 0, 129,
     130, 131, 132, 133, 134, 135, 136, 137, 138, 139, 140, 141, 142, 143, 144, 145, 0, 146, 147, 148, 149, 150, 151, 0, 152, 153, 154, 155, 156, 157, 0, 158,
     0, 0, 0, 0, 159, 160, 161, 162, 0, 0, 0, 0, 163, 164, 165, 166, 0, 0, 0, 0, 0, 0, 0, 0, 167, 168, 169, 170, 0, 0, 171, 172,
     0, 0, 0, 0, 0, 0, 0, 0, 0, 0, 0, 0, 0, 0, 0, 0, 173, 174, 0, 0, 0, 0, 0, 0, 0, 0, 0, 0, 0, 0, 0, 0,
     0, 175, 176, 177, 178, 0, 0, 179, 180, 0, 0, 0, 0, 0, 0, 0, 181, 182, 183, 184, 0, 0, 0, 0, 185, 186, 187, 188, 0, 0, 189, 190,
     191, 192, 0, 0, 193, 194, 0, 0, 0, 0, 0, 0, 0, 0, 195, 196, 197, 198, 0, 0, 0, 0, 0, 0, 199, 200, 201, 202, 203, 204, 205, 0,
     0, 0, 0, 0, 0, 0, 0, 0, 0, 0, 0, 0, 0, 0, 0, 0, 0, 0, 0, 0, 0, 0, 0, 0, 0, 0, 0, 0, 0, 0, 0, 0,
     0, 0, 0, 0, 0, 0, 0, 0, 0, 0, 0, 0, 0, 0, 0, 0, 0, 0, 0, 0, 0, 0, 0, 0, 0, 0, 0, 0, 0, 0, 0, 0,
     0, 0, 0, 0, 0, 0, 0, 0, 0, 0, 0, 0, 0, 0, 0, 0, 0, 0, 0, 0, 0, 0, 0, 0, 0, 0, 0, 0, 0, 0, 0, 0,
     0, 0, 0, 0, 0, 0, 0, 0, 0, 0, 0, 0, 0, 0, 0, 0, 0, 0, 0, 0, 0, 0, 0, 0, 0, 0, 0, 0, 0, 0, 0, 0,
     0, 17, 0, 0, 206, 83, 73, 21, 74, 0, 0, 0, 0, 0, 0, 0, 65, 207, 66, 208, 209, 69, 210, 211, 212, 213, 75, 214, 77, 72, 79, 215,
     80, 67, 84, 216, 217, 88, 218, 219, 220, 221, 222, 223, 224, 225, 226, 227, 97, 228, 229, 230, 231, 101, 232, 233, 234, 235, 236, 237, 238, 239, 111, 240,
     112, 99, 241, 121, 242, 120, 243, 244, 245, 246, 247, 248, 249, 250, 251, 252, 0, 141, 0, 0, 253, 115, 105, 145, 106, 0, 0, 0, 0, 0, 0, 0,
     0, 0, 0, 0, 0, 0, 0, 0, 0, 0, 0, 0, 0, 0, 0, 0, 0, 0, 0, 0, 0, 0, 0, 0, 0, 0, 0, 0, 0, 0, 0, 0,
     0, 0, 0, 0, 0, 0, 0, 0, 0, 0, 0, 0, 0, 0, 0, 0, 254, 255, 0, 0, 0, 0, 0, 0, 0, 0, 0, 0, 0, 0, 0, 0,
     0, 0, 0, 0, 0, 0, 0, 0, 0, 0, 0, 0, 0, 0, 0, 0, 0, 0, 0, 0, 0, 0, 0, 0, 0, 0, 0, 0, 0, 0, 0, 0,
     0, 0, 0, 0, 0, 0, 0, 0, 0, 0, 0, 0, 0, 0, 0, 0, 0, 0, 0, 0, 0, 0, 0, 0, 0, 0, 0, 0, 0, 0, 0, 0,
     0, 0, 0, 0, 0, 0, 0, 0, 0, 0, 0, 0, 0, 0, 0, 0, 0, 0, 0, 0, 0, 0, 0, 0, 0, 0, 0, 0, 0, 0, 0, 0,
     0, 0, 0, 0, 0, 0, 0, 0, 0, 0, 0, 0, 0, 0, 0, 0, 0, 0, 0, 0, 0, 0, 0, 0, 0, 0, 0, 0, 0, 0, 0, 0,
     0, 0, 0, 0, 0, 0, 0, 0, 0, 0, 0, 0, 0, 0, 0, 0, 0, 0, 0, 0, 0, 0, 0, 0, 0, 0, 0, 0, 0, 0, 0, 0,
     0, 0, 0, 0, 0, 0, 0, 0, 0, 0, 0, 0, 0, 0, 0, 0, 0, 0, 0, 0, 0, 0, 0, 0, 0, 0, 0, 0, 0, 0, 0, 0,
     0, 0, 0, 0, 0, 0, 0, 0, 0, 0, 0, 0, 0, 0]"

definition cubelowerchars :: "u8 list" where
  "cubelowerchars = [
     0, 130, 131, 132, 133, 134, 135, 136, 137, 9, 10, 11, 12, 13, 138, 139,
     140, 141, 142, 143, 144, 145, 146, 147, 148, 149, 150, 151, 152, 153, 154, 155,
     32, 33, 34, 35, 36, 37, 38, 39, 40, 41, 42, 43, 44, 45, 46, 47,
     48, 49, 50, 51, 52, 53, 54, 55, 56, 57, 58, 59, 60, 61, 62, 63,
     64, 97, 98, 99, 100, 101, 102, 103, 104, 105, 106, 107, 108, 109, 110, 111,
     112, 113, 114, 115, 116, 117, 118, 119, 120, 121, 122, 91, 92, 93, 94, 95,
     96, 97, 98, 99, 100, 101, 102, 103, 104, 105, 106, 107, 108, 109, 110, 111,
     112, 113, 114, 115, 116, 117, 118, 119, 120, 121, 122, 123, 124, 125, 126, 156,
     157, 129, 130, 131, 132, 133, 134, 135, 136, 137, 138, 139, 140, 141, 142, 143,
     144, 145, 146, 147, 148, 149, 150, 151, 152, 153, 154, 155, 156, 157, 158, 160,
     160, 162, 162, 164, 164, 166, 166, 168, 168, 170, 170, 172, 172, 105, 174, 176,
     176, 178, 178, 180, 180, 182, 182, 184, 184, 186, 186, 188, 188, 190, 190, 192,
     192, 194, 194, 196, 196, 198, 198, 158, 201, 201, 203, 203, 205, 205, 206, 207,
     208, 209, 210, 211, 212, 213, 214, 215, 216, 217, 218, 219, 220, 221, 222, 223,
     224, 225, 226, 227, 228, 229, 230, 231, 232, 233, 234, 235, 236, 237, 238, 239,
     240, 241, 242, 243, 244, 245, 246, 247, 248, 249, 250, 251, 252, 253, 254, 255]"

definition cubeupperchars :: "u8 list" where
  "cubeupperchars = [
     0, 1, 2, 3, 4, 5, 6, 7, 8, 9, 10, 11, 12, 13, 14, 15,
     16, 17, 18, 19, 20, 21, 22, 23, 24, 25, 26, 27, 28, 29, 30, 31,
     32, 33, 34, 35, 36, 37, 38, 39, 40, 41, 42, 43, 44, 45, 46, 47,
     48, 49, 50, 51, 52, 53, 54, 55, 56, 57, 58, 59, 60, 61, 62, 63,
     64, 65, 66, 67, 68, 69, 70, 71, 72, 73, 74, 75, 76, 77, 78, 79,
     80, 81, 82, 83, 84, 85, 86, 87, 88, 89, 90, 91, 92, 93, 94, 95,
     96, 65, 66, 67, 68, 69, 70, 71, 72, 73, 74, 75, 76, 77, 78, 79,
     80, 81, 82, 83, 84, 85, 86, 87, 88, 89, 90, 123, 124, 125, 126, 127,
     128, 129, 1, 2, 3, 4, 5, 6, 7, 8, 14, 15, 16, 17, 18, 19,
     20, 21, 22, 23, 24, 25, 26, 27, 28, 29, 30, 31, 127, 128, 199, 159,
     159, 161, 161, 163, 163, 165, 165, 167, 167, 169, 169, 171, 171, 173, 73, 175,
     175, 177, 177, 179, 179, 181, 181, 183, 183, 185, 185, 187, 187, 189, 189, 191,
     191, 193, 193, 195, 195, 197, 197, 199, 200, 200, 202, 202, 204, 204, 206, 207,
     208, 209, 210, 211, 212, 213, 214, 215, 216, 217, 218, 219, 220, 221, 222, 223,
     224, 225, 226, 227, 228, 229, 230, 231, 232, 233, 234, 235, 236, 237, 238, 239,
     240, 241, 242, 243, 244, 245, 246, 247, 248, 249, 250, 251, 252, 253, 254, 255]"

definition cube2uni :: "u8 \<Rightarrow> i32" where
  "cube2uni c = cube2unichars ! unat c"

text \<open>
  The table of \<^verbatim>\<open>uni2cube\<close> has 878 entries and the offsets of the blocks without characters
  are 658, so that the last 36 characters of such a block lie behind it: undefined.
\<close>

definition uni2cube :: "i32 \<Rightarrow> u8 option" where
  "uni2cube c =
     (if c \<le> 0x7FF then
        let i = uni2cubeoffsets ! unat (drop_bit 8 c) + unat (c AND 0xFF)
        in if i < 878 then Some (uni2cubechars ! i) else None
      else Some 0)"

definition cubelower :: "u8 \<Rightarrow> u8" where
  "cubelower c = cubelowerchars ! unat c"

definition cubeupper :: "u8 \<Rightarrow> u8" where
  "cubeupper c = cubeupperchars ! unat c"

lemma length_tables: "length cube2unichars = 256" "length uni2cubechars = 878" "length cubelowerchars = 256"
  "length cubeupperchars = 256"
  by (simp_all add: cube2unichars_def uni2cubechars_def cubelowerchars_def cubeupperchars_def)

subsection \<open>Filtering\<close>

text \<open>
  The text behind \<^verbatim>\<open>src\<close> without its terminator, to the text written to \<^verbatim>\<open>dst\<close>.  The length
  is decremented after each character, so that 0 means no bound in practice.
\<close>

fun filtertext :: "bool \<Rightarrow> bool \<Rightarrow> size_t \<Rightarrow> u8 list \<Rightarrow> u8 list" where
  "filtertext whitespace forcespace len [] = []"
| "filtertext whitespace forcespace len (c # cs) =
     (if c = 12 then (case cs of [] \<Rightarrow> [] | _ # cs \<Rightarrow> filtertext whitespace forcespace len cs)
      else if \<not> iscubeprint c \<and> (\<not> iscubespace c \<or> \<not> whitespace) then filtertext whitespace forcespace len cs
      else let c = (if \<not> iscubeprint c \<and> forcespace then 32 else c)
           in c # (if len - 1 = 0 then [] else filtertext whitespace forcespace (len - 1) cs))"

text \<open>
  The form for arrays of \<open>n\<close> bytes.  It has only two parameters after the source, both truth
  values.
\<close>

definition filtertext_array :: "nat \<Rightarrow> bool \<Rightarrow> bool \<Rightarrow> u8 list \<Rightarrow> u8 list" where
  "filtertext_array n whitespace forcespace src = filtertext whitespace forcespace (of_nat n - 1) src"

subsection \<open>Copies\<close>

definition copystring :: "u8 list \<Rightarrow> nat \<Rightarrow> u8 list" where
  "copystring s len = take (if len = 0 then length s else min (length s) (len - 1)) s"

definition concatstring :: "u8 list \<Rightarrow> u8 list \<Rightarrow> nat \<Rightarrow> u8 list" where
  "concatstring d s len = (if length d < len then d @ copystring s (len - length d) else d)"

subsection \<open>UTF-8\<close>

definition encode_char :: "u8 \<Rightarrow> u8 list" where
  "encode_char c =
     (let uni = cube2uni c
      in if uni <s 0x80 then [ucast uni]
         else if uni <s 0x800 then [ucast (0xC0 OR signed_drop_bit 6 uni), ucast (0x80 OR (uni AND 0x3F))]
         else if uni <s 0x10000 then
           [ucast (0xE0 OR signed_drop_bit 12 uni), ucast (0x80 OR (signed_drop_bit 6 uni AND 0x3F)),
            ucast (0x80 OR (uni AND 0x3F))]
         else if uni <s 0x110000 then
           [ucast (0xF0 OR signed_drop_bit 18 uni), ucast (0x80 OR (signed_drop_bit 12 uni AND 0x3F)),
            ucast (0x80 OR (signed_drop_bit 6 uni AND 0x3F)), ucast (0x80 OR (uni AND 0x3F))]
         else [])"

definition encodeutf8 :: "u8 list \<Rightarrow> u8 list" where
  "encodeutf8 s = concat (map encode_char s)"

text \<open>
  The continuation bytes of a character: the text ends, a byte is not a continuation and is
  read again, or the character is complete and the last byte is still in front.
\<close>

datatype utf8_step = Utf8_End | Utf8_Resync "u8 list" | Utf8_Char i32 "u8 list"

fun continuation_bytes :: "nat \<Rightarrow> i32 \<Rightarrow> u8 list \<Rightarrow> utf8_step" where
  "continuation_bytes k uni [] = Utf8_End"
| "continuation_bytes k uni (c # cs) =
     (if c AND 0xC0 \<noteq> 0x80 then Utf8_Resync (c # cs)
      else let uni = push_bit 6 uni OR ucast (c AND 0x3F)
           in if k \<le> 1 then Utf8_Char uni (c # cs) else continuation_bytes (k - 1) uni cs)"

lemma continuation_bytes_length:
  "continuation_bytes k uni cs = Utf8_Resync cs' \<Longrightarrow> length cs' \<le> length cs"
  "continuation_bytes k uni cs = Utf8_Char uni' cs' \<Longrightarrow> length cs' \<le> length cs \<and> cs' \<noteq> []"
  by (induction k uni cs rule: continuation_bytes.induct) (auto simp: Let_def split: if_splits)

function decodeutf8 :: "u8 list \<Rightarrow> u8 list option" where
  "decodeutf8 [] = Some []"
| "decodeutf8 (c # cs) =
     (if c < 0x80 then map_option ((#) c) (decodeutf8 cs)
      else if c < 0xC0 then decodeutf8 cs
      else
        let (k, uni) = (if c < 0xE0 then (1, c AND 0x1F) else if c < 0xF0 then (2, c AND 0xF) else (3, c AND 0x7))
        in case continuation_bytes k (ucast uni) cs of
             Utf8_End \<Rightarrow> Some []
           | Utf8_Resync cs' \<Rightarrow> decodeutf8 cs'
           | Utf8_Char uni cs' \<Rightarrow>
               (case uni2cube uni of
                  None \<Rightarrow> None
                | Some c' \<Rightarrow> if c' = 0 then decodeutf8 cs' else map_option ((#) c') (decodeutf8 (tl cs'))))"
  by pat_completeness auto
termination
  by (relation "measure length")
    (auto dest!: sym [of _ "continuation_bytes _ _ _"] continuation_bytes_length split: if_splits)

lemma ctype_0: "\<not> iscubeprint 0" "\<not> iscubespace 0"
  by code_simp+

lemma iscubespace_32: "iscubespace 32"
  by code_simp

lemma filtertext_chars:
  "c \<in> set (filtertext ws fs len src) \<Longrightarrow> c \<noteq> 0 \<and> (iscubeprint c \<or> ws \<and> iscubespace c)"
proof (induction ws fs len src rule: filtertext.induct)
  case (2 ws fs len d ds)
  then show ?case
    using ctype_0 by (cases ds) (auto simp: iscubespace_32 Let_def split: if_splits)
qed simp

lemma filtertext_length:
  assumes "len \<noteq> 0"
  shows "length (filtertext ws fs len src) \<le> unat len"
  using assms
proof (induction ws fs len src rule: filtertext.induct)
  case (2 ws fs len d ds)
  have "0 < unat len"
    using "2.prems" by (simp add: unat_gt_0)
  then have "unat len = Suc (unat (len - 1))"
    using unat_minus_one [OF "2.prems"] by simp
  then show ?case
    using 2 by (subst filtertext.simps) (auto simp: Let_def simp del: filtertext.simps split: list.split)
qed simp

lemma iscubeprint_12: "\<not> iscubeprint 12"
  by code_simp

lemma filtertext_kept:
  "\<forall>c \<in> set src. iscubeprint c \<Longrightarrow> length src < unat len \<Longrightarrow> filtertext ws fs len src = src"
proof (induction src arbitrary: len)
  case (Cons d ds)
  then have "d \<noteq> 12"
    using iscubeprint_12 by auto
  moreover have "unat (len - 1) = unat len - 1"
    using Cons.prems by (intro unat_minus_one) auto
  moreover from this have "len - 1 \<noteq> 0"
    using Cons.prems by auto
  ultimately show ?case
    using Cons by (simp add: Let_def)
qed simp

subsection \<open>The tables are inverse\<close>

text \<open>
  The characters that are not 0 in \<^verbatim>\<open>uni2cubechars\<close> with their positions, and the positions at
  which the inverse of \<^verbatim>\<open>cube2unichars\<close> expects its characters.  Both are computed in one pass,
  and the second sorted by position is a part of the first.
\<close>

fun table_entries :: "int \<Rightarrow> u8 list \<Rightarrow> (int \<times> u8) list" where
  "table_entries i [] = []"
| "table_entries i (v # vs) = (if v = 0 then table_entries (i + 1) vs else (i, v) # table_entries (i + 1) vs)"

definition expected_index :: "i32 \<Rightarrow> int" where
  "expected_index u = (if u < 0x200 then uint u else if u < 0x400 then -1 else if u < 0x500 then uint u - 512 else -1)"

fun expected_entries :: "u8 \<Rightarrow> i32 list \<Rightarrow> (int \<times> u8) list" where
  "expected_entries c [] = []"
| "expected_entries c (u # us) = (expected_index u, c) # expected_entries (c + 1) us"

lemma tables_match: "subseq (sort_key fst (expected_entries 1 (tl cube2unichars))) (table_entries 0 uni2cubechars)"
  by code_simp

lemma table_entries_nth: "(i, v) \<in> set (table_entries k vs) \<Longrightarrow> k \<le> i \<and> nat (i - k) < length vs \<and> vs ! nat (i - k) = v"
proof (induction k vs rule: table_entries.induct)
  case (2 k w vs)
  then have "(i, v) = (k, w) \<or> (i, v) \<in> set (table_entries (k + 1) vs)"
    by (auto split: if_splits)
  then show ?case
  proof
    assume "(i, v) \<in> set (table_entries (k + 1) vs)"
    then have IH: "k + 1 \<le> i" "nat (i - (k + 1)) < length vs" "vs ! nat (i - (k + 1)) = v"
      using 2 by (auto split: if_splits)
    moreover from this have "nat (i - k) = Suc (nat (i - (k + 1)))"
      by linarith
    ultimately show ?thesis
      by simp
  qed simp
qed simp

lemma expected_entries_set:
  "j < length us \<Longrightarrow> (expected_index (us ! j), c + of_nat j) \<in> set (expected_entries c us)"
proof (induction c us arbitrary: j rule: expected_entries.induct)
  case (2 c u us)
  then show ?case
    by (cases j) (auto simp: ac_simps)
qed simp

lemma uni2cube_expected:
  assumes "0 \<le> expected_index u" "nat (expected_index u) < 878"
  shows "uni2cube u = Some (uni2cubechars ! nat (expected_index u))"
proof -
  have "u AND 0xFF = take_bit 8 u"
    by (simp add: take_bit_eq_mask mask_eq_exp_minus_1)
  then have mask: "unat (u AND 0xFF) = unat u mod 256"
    using unsigned_take_bit_eq [of 8 u, where ?'a = nat] by (simp only: take_bit_eq_mod) simp
  have block: "unat (drop_bit 8 u) = unat u div 256"
    using unat_drop_bit_eq [of 8 u] by (simp only: drop_bit_eq_div [of 8 "unat u"]) simp
  have index: "uint u = int (unat u)"
    by simp
  consider "unat u < 256" | "256 \<le> unat u" "unat u < 512" | "1024 \<le> unat u" "unat u < 1280"
    using assms(1) by (fastforce simp: expected_index_def word_less_nat_alt split: if_splits)
  then show ?thesis
  proof cases
    case 1
    then show ?thesis
      using assms(2) unfolding uni2cube_def Let_def mask block
      by (simp add: expected_index_def word_less_nat_alt word_le_nat_alt uni2cubeoffsets_def)
  next
    case 2
    moreover from this have "unat u div 256 = 1" "unat u mod 256 = unat u - 256"
      by (auto simp: div_nat_eqI mod_if)
    ultimately show ?thesis
      using assms(2) unfolding uni2cube_def Let_def mask block
      by (simp add: expected_index_def word_less_nat_alt word_le_nat_alt uni2cubeoffsets_def)
  next
    case 3
    moreover from this have "unat u div 256 = 4"
      by (simp add: div_nat_eqI)
    moreover from this have "unat u mod 256 = unat u - 1024"
      using minus_div_mult_eq_mod [of "unat u" 256] by simp
    moreover from 3 have "expected_index u = int (unat u) - 512"
      by (simp add: expected_index_def word_less_nat_alt)
    then have "nat (expected_index u) = unat u - 512"
      using 3 by linarith
    ultimately show ?thesis
      using assms(2) unfolding uni2cube_def Let_def mask block
      by (simp add: word_le_nat_alt uni2cubeoffsets_def)
  qed
qed

lemma uni2cube_cube2uni:
  assumes "c \<noteq> 0"
  shows "uni2cube (cube2uni c) = Some c"
proof -
  have j: "unat c - 1 < length (tl cube2unichars)" "0 < unat c"
    using assms unat_u8_lt [of c] by (simp_all add: length_tables unat_gt_0 del: unat_u8_lt)
  then have "(expected_index (tl cube2unichars ! (unat c - 1)), 1 + of_nat (unat c - 1)) \<in> set (expected_entries 1 (tl cube2unichars))"
    by (intro expected_entries_set)
  moreover have "tl cube2unichars ! (unat c - 1) = cube2uni c" "1 + of_nat (unat c - 1) = c"
    using j by (simp_all add: cube2uni_def nth_tl of_nat_diff)
  ultimately have "(expected_index (cube2uni c), c) \<in> set (table_entries 0 uni2cubechars)"
    using list_emb_set [OF tables_match, of "(expected_index (cube2uni c), c)"] by auto
  then show ?thesis
    using table_entries_nth [of "expected_index (cube2uni c)" c 0 uni2cubechars] uni2cube_expected [of "cube2uni c"]
    by (auto simp: length_tables)
qed

text \<open>ASCII characters are the same in both sets.\<close>

fun same_ascii :: "u8 \<Rightarrow> i32 list \<Rightarrow> bool" where
  "same_ascii c [] \<longleftrightarrow> True"
| "same_ascii c (u # us) \<longleftrightarrow> (u < 0x80 \<longrightarrow> ucast u = c) \<and> same_ascii (c + 1) us"

lemma tables_same_ascii: "same_ascii 0 cube2unichars"
  by code_simp

lemma same_ascii_nth: "same_ascii c us \<Longrightarrow> j < length us \<Longrightarrow> us ! j < 0x80 \<Longrightarrow> ucast (us ! j) = c + of_nat j"
proof (induction c us arbitrary: j rule: same_ascii.induct)
  case (2 c u us)
  then show ?case
    by (cases j) (auto simp: ac_simps)
qed simp

lemma cube2uni_ascii: "cube2uni c < 0x80 \<Longrightarrow> ucast (cube2uni c) = c"
  using same_ascii_nth [OF tables_same_ascii, of "unat c"] by (simp add: cube2uni_def length_tables)

lemma cube2uni_bound: "c \<noteq> 0 \<Longrightarrow> cube2uni c \<le> 0x7FF"
  using uni2cube_cube2uni [of c] by (auto simp: uni2cube_def split: if_splits)

definition u8s_below :: "nat \<Rightarrow> u8 list" where
  "u8s_below n = map of_nat [0..<n]"

lemma in_u8s_below: "unat x < n \<Longrightarrow> x \<in> set (u8s_below n)"
  unfolding u8s_below_def by (auto intro!: image_eqI [of _ _ "unat x"])

lemma lead_byte:
  assumes "unat (x :: u8) < 32"
  shows "\<not> 0xC0 OR x < 0x80" "\<not> 0xC0 OR x < 0xC0" "0xC0 OR x < 0xE0" "(0xC0 OR x) AND 0x1F = x"
proof -
  have "list_all (\<lambda>x :: u8. \<not> 0xC0 OR x < 0x80 \<and> \<not> 0xC0 OR x < 0xC0 \<and> 0xC0 OR x < 0xE0 \<and> (0xC0 OR x) AND 0x1F = x)
      (u8s_below 32)"
    by code_simp
  from bspec [OF this [unfolded list_all_iff] in_u8s_below [OF assms]]
  show "\<not> 0xC0 OR x < 0x80" "\<not> 0xC0 OR x < 0xC0" "0xC0 OR x < 0xE0" "(0xC0 OR x) AND 0x1F = x"
    by blast+
qed

lemma tail_byte:
  assumes "unat (x :: u8) < 64"
  shows "(0x80 OR x) AND 0xC0 = 0x80" "(0x80 OR x) AND 0x3F = x"
proof -
  have "list_all (\<lambda>x :: u8. (0x80 OR x) AND 0xC0 = 0x80 \<and> (0x80 OR x) AND 0x3F = x) (u8s_below 64)"
    by code_simp
  from bspec [OF this [unfolded list_all_iff] in_u8s_below [OF assms]]
  show "(0x80 OR x) AND 0xC0 = 0x80" "(0x80 OR x) AND 0x3F = x"
    by blast+
qed

lemma encode_two:
  assumes "u \<le> 0x7FF" "\<not> u < (0x80 :: i32)" "uni2cube u = Some c" "c \<noteq> 0"
  shows "decodeutf8 (ucast (0xC0 OR signed_drop_bit 6 u) # ucast (0x80 OR (u AND 0x3F)) # rest) =
    map_option ((#) c) (decodeutf8 rest)"
proof -
  define x :: u8 where "x = ucast (drop_bit 6 u)"
  define y :: u8 where "y = ucast (u AND 0x3F)"
  have low: "u AND 0x3F = take_bit 6 u"
    by (simp add: take_bit_eq_mask mask_eq_exp_minus_1)
  have "ucast (signed_drop_bit 6 u) = x"
    unfolding x_def by (rule bit_word_eqI) (auto simp: bit_ucast_iff bit_signed_drop_bit_iff bit_drop_bit_eq)
  then have bytes: "ucast (0xC0 OR signed_drop_bit 6 u) = 0xC0 OR x" "ucast (0x80 OR (u AND 0x3F)) = 0x80 OR y"
    by (simp_all add: unsigned_or_eq y_def)
  have u: "unat u < 2 ^ 11"
    using assms(1) by (simp add: word_le_nat_alt)
  have "unat x < 2 ^ 5"
    using u unat_drop_bit_eq [of 6 u] drop_bit_eq_div [of 6 "unat u"]
    unfolding x_def by (simp only: unsigned_ucast_eq take_bit_eq_mod) (simp add: less_mult_imp_div_less)
  moreover have "unat y < 2 ^ 6"
    unfolding y_def low unsigned_ucast_eq unsigned_take_bit_eq by (simp add: take_bit_eq_mod del: take_bit_eq_mod [symmetric])
  ultimately have small: "unat x < 32" "unat y < 64"
    by simp_all
  have "\<not> bit u j" if "11 \<le> j" for j
  proof -
    have "take_bit 11 (unat u) = unat u"
      using u by (simp add: take_bit_nat_eq_self_iff)
    then have "take_bit 11 u = u"
      by (simp add: unsigned_take_bit_eq word_unat_eq_iff)
    then show ?thesis
      using that by (metis bit_take_bit_iff linorder_not_less)
  qed
  then have "j < 11" if "bit u j" for j
    using that not_less by blast
  then have "bit u j \<Longrightarrow> j - 6 < 8" for j
    by fastforce
  then have joined: "push_bit 6 (ucast x) OR ucast y = u"
    unfolding x_def y_def low by (intro bit_word_eqI) (auto simp: bit_simps)
  show ?thesis
    unfolding bytes using lead_byte [OF small(1)] tail_byte [OF small(2)] joined assms(3,4) by (simp add: Let_def)
qed

lemma ascii_byte:
  assumes "ucast u = (c :: u8)" "(u :: i32) < 0x80"
  shows "c < 0x80"
proof -
  have "unat u < 128"
    using assms(2) by (simp add: word_less_nat_alt)
  then show ?thesis
    unfolding assms(1) [symmetric] by (simp add: word_less_nat_alt unsigned_ucast_eq take_bit_nat_eq_self)
qed

lemma decode_encode_char:
  assumes "c \<noteq> 0"
  shows "decodeutf8 (encode_char c @ rest) = map_option ((#) c) (decodeutf8 rest)"
proof -
  have u: "uni2cube (cube2uni c) = Some c" "cube2uni c \<le> 0x7FF"
    using uni2cube_cube2uni [OF assms] cube2uni_bound [OF assms] .
  have "sint (cube2uni c) = uint (cube2uni c)"
    using u(2) unfolding sint_uint by (intro signed_take_bit_int_eq_self) (simp_all add: word_le_def order_trans [OF _ uint_ge_0])
  then have signed: "cube2uni c <s 0x80 \<longleftrightarrow> cube2uni c < 0x80" "cube2uni c <s 0x800"
    using u(2) by (simp_all add: word_sless_alt word_less_def word_le_def)
  show ?thesis
  proof (cases "cube2uni c < 0x80")
    case True
    have "c < 0x80"
      by (rule ascii_byte [OF cube2uni_ascii [OF True] True])
    then show ?thesis
      using True cube2uni_ascii [OF True] by (simp add: encode_char_def signed)
  next
    case False
    then show ?thesis
      using encode_two [OF u(2) False u(1) assms, of rest]
      by (simp add: encode_char_def signed Let_def del: decodeutf8.simps)
  qed
qed

lemma decode_encode: "0 \<notin> set s \<Longrightarrow> decodeutf8 (encodeutf8 s) = Some s"
  by (induction s) (simp_all add: encodeutf8_def decode_encode_char)

subsection \<open>Properties\<close>

text \<open>
  C37.  Every text of the game's character set survives the conversion to UTF-8 and back.
\<close>

theorem utf8_roundtrip:
  assumes "0 \<notin> set s"
  shows "decodeutf8 (encodeutf8 s) = Some s"
  by (rule decode_encode [OF assms])

theorem utf8_roundtrip_witness:
  "decodeutf8 (encodeutf8 [72, 1, 255]) = Some [72, 1, 255]"
  by (rule utf8_roundtrip) simp


text \<open>
  C39.  What passes the filter for texts is no longer than the bound and holds only printable
  characters and, where they are allowed, spaces; a text that only holds such printable
  characters and is short enough passes unchanged.
\<close>

theorem filtertext_safe:
  assumes "len \<noteq> 0"
  shows "length (filtertext ws fs len src) \<le> unat len \<and>
    (\<forall>c \<in> set (filtertext ws fs len src). c \<noteq> 0 \<and> (iscubeprint c \<or> ws \<and> iscubespace c)) \<and>
    ((\<forall>c \<in> set src. iscubeprint c) \<and> length src < unat len \<longrightarrow> filtertext ws fs len src = src)"
  using filtertext_length [OF assms] filtertext_chars filtertext_kept by blast

theorem filtertext_safe_witness:
  "length (filtertext False True 15 [12, 48, 65, 9, 66]) \<le> 15 \<and> filtertext False True 15 [65, 66] = [65, 66] \<and>
   filtertext False True 15 [12, 48, 65, 9, 66] = [65, 66]"
proof -
  have "iscubeprint 65" "iscubeprint 66" "filtertext False True 15 [12, 48, 65, 9, 66] = [65, 66]"
    by code_simp+
  then show ?thesis
    using filtertext_safe [of 15 False True "[65, 66]"] by simp
qed

text \<open>
  C40.  The filter of player names is called with the longest length of a name in the place of
  the flag for spaces: a name longer than \<^verbatim>\<open>MAXNAMELEN\<close> passes as a whole.
\<close>

definition MAXNAMELEN :: nat where
  [enet_consts]: "MAXNAMELEN = 15"

definition MAXSTRLEN :: nat where
  [enet_consts]: "MAXSTRLEN = 260"

definition filter_name :: "u8 list \<Rightarrow> u8 list" where
  "filter_name text = filtertext_array MAXSTRLEN False (MAXNAMELEN \<noteq> 0) text"



end
