(* ===== verification/Net_Address.thy ===== *)
theory Net_Address
  imports Prelude "HOL-Library.Sublist"
begin

text \<open>
  Addresses, masks and prefixes of the ban lists (\<^verbatim>\<open>hopmod/net/address.cpp\<close>,
  \<^verbatim>\<open>address_mask.cpp\<close>, \<^verbatim>\<open>address_prefix.cpp\<close>).  Their values are of type
  \<^verbatim>\<open>unsigned long\<close>, 64 bits on the target.  A failed assertion and an access outside an array
  are \<open>None\<close>; the exception \<^verbatim>\<open>std::bad_cast\<close> is a value.

  The operations on prefixes are related to operations on lists of bits: \<open>prefix_bits\<close> are the
  bits of the address that the mask covers, first bit first.
\<close>

type_synonym ulong = "64 word"

subsection \<open>Addresses\<close>

definition UPPER_LIMIT :: ulong where
  [enet_consts]: "UPPER_LIMIT = 0xFFFFFFFF"

definition address_of_octets :: "u8 \<Rightarrow> u8 \<Rightarrow> u8 \<Rightarrow> u8 \<Rightarrow> ulong" where
  "address_of_octets b1 b2 b3 b4 =
     ucast b4 OR push_bit 8 (ucast b3) OR push_bit 16 (ucast b2) OR push_bit 24 (ucast b1)"

definition octet :: "nat \<Rightarrow> ulong \<Rightarrow> u8" where
  "octet i a = ucast (drop_bit (8 * i) a)"

definition address_shl :: "ulong \<Rightarrow> nat \<Rightarrow> ulong option" where
  "address_shl a n = (if n \<le> 32 then Some (push_bit n a AND UPPER_LIMIT) else None)"

definition address_shr :: "ulong \<Rightarrow> nat \<Rightarrow> ulong option" where
  "address_shr a n = (if n \<le> 32 then Some (drop_bit n a) else None)"

definition first_bit :: "ulong \<Rightarrow> bool" where
  "first_bit a \<longleftrightarrow> a AND 0x80000000 \<noteq> 0"

subsection \<open>Masks\<close>

definition address_mask :: "nat \<Rightarrow> ulong option" where
  "address_mask bits = (if bits < 33 then Some (push_bit (32 - bits) (2 ^ bits - 1)) else None)"

definition mask_bits :: "ulong \<Rightarrow> nat" where
  "mask_bits m = length (filter (bit m) [0..<32])"

definition mask_shl :: "ulong \<Rightarrow> nat \<Rightarrow> ulong option" where
  "mask_shl m n = (if n \<le> 32 then Some (push_bit n m AND UPPER_LIMIT) else None)"

subsection \<open>Prefixes\<close>

record address_prefix =
  ap_value :: ulong
  ap_mask :: ulong

definition empty_prefix :: address_prefix where
  "empty_prefix = \<lparr>ap_value = 0, ap_mask = 0\<rparr>"

definition masked_prefix :: "address_prefix \<Rightarrow> ulong \<Rightarrow> address_prefix" where
  "masked_prefix p m = \<lparr>ap_value = ap_value p AND m, ap_mask = m\<rparr>"

text \<open>The search for the first position at which two prefixes differ, from \<open>i\<close> to \<open>n\<close>.\<close>

function common_bits :: "nat \<Rightarrow> nat \<Rightarrow> ulong \<Rightarrow> ulong \<Rightarrow> nat option" where
  "common_bits i n a b =
     (if i \<le> n then do {
        m \<leftarrow> address_mask i;
        if a AND m \<noteq> b AND m then Some (i - 1) else common_bits (i + 1) n a b }
      else Some n)"
  by pat_completeness auto
termination
  by (relation "measure (\<lambda>(i, n, _, _). n + 1 - i)") auto

declare common_bits.simps [simp del]

definition common_prefix :: "address_prefix \<Rightarrow> address_prefix \<Rightarrow> address_prefix option" where
  "common_prefix p q = do {
     let n = min (mask_bits (ap_mask p)) (mask_bits (ap_mask q));
     k \<leftarrow> common_bits 1 n (ap_value p) (ap_value q);
     m \<leftarrow> address_mask k;
     Some \<lparr>ap_value = ap_value p AND m, ap_mask = m\<rparr> }"

definition prefix_shl :: "address_prefix \<Rightarrow> ulong \<Rightarrow> address_prefix option" where
  "prefix_shl p m = do {
     v \<leftarrow> address_shl (ap_value p) (mask_bits m);
     k \<leftarrow> mask_shl (ap_mask p) (mask_bits m);
     Some \<lparr>ap_value = v, ap_mask = k\<rparr> }"

definition prefix_eq :: "address_prefix \<Rightarrow> address_prefix \<Rightarrow> bool" where
  "prefix_eq p x \<longleftrightarrow>
     (let m = min (ap_mask x) (ap_mask p) in ap_value p AND m = ap_value x AND m)"

subsection \<open>Prefixes as lists of bits\<close>

definition prefix_ok :: "address_prefix \<Rightarrow> bool" where
  "prefix_ok p \<longleftrightarrow> (\<exists>n \<le> 32. ap_mask p = push_bit (32 - n) (mask n))"

definition prefix_bits :: "address_prefix \<Rightarrow> bool list" where
  "prefix_bits p = map (\<lambda>i. bit (ap_value p) (31 - i)) [0..<mask_bits (ap_mask p)]"

lemma address_mask_Some: "n \<le> 32 \<Longrightarrow> address_mask n = Some (push_bit (32 - n) (mask n))"
  by (simp add: address_mask_def mask_eq_exp_minus_1)

lemma bit_mask_word: "n \<le> 32 \<Longrightarrow> bit (push_bit (32 - n) (mask n) :: ulong) j \<longleftrightarrow> 32 - n \<le> j \<and> j < 32"
  by (auto simp: bit_push_bit_iff bit_mask_iff)

lemma mask_bits_word:
  assumes "n \<le> 32"
  shows "mask_bits (push_bit (32 - n) (mask n)) = n"
proof -
  have "filter (bit (push_bit (32 - n) (mask n) :: ulong)) [0..<32] = filter (\<lambda>j. 32 - n \<le> j) [0..<32]"
    using assms by (intro filter_cong) (auto simp: bit_mask_word)
  also have "\<dots> = [32 - n..<32]"
  proof -
    have "[0..<32] = [0..<32 - n] @ [32 - n..<32]"
      using assms by (metis diff_le_self le_add_diff_inverse upt_add_eq_append zero_le)
    then show ?thesis
      by (simp add: filter_False)
  qed
  finally show ?thesis
    using assms by (simp add: mask_bits_def)
qed

lemma prefix_okE:
  assumes "prefix_ok p"
  obtains "mask_bits (ap_mask p) \<le> 32" "ap_mask p = push_bit (32 - mask_bits (ap_mask p)) (mask (mask_bits (ap_mask p)))"
  using assms unfolding prefix_ok_def by (metis mask_bits_word)

lemma length_prefix_bits [simp]: "length (prefix_bits p) = mask_bits (ap_mask p)"
  by (simp add: prefix_bits_def)

lemma nth_prefix_bits: "i < mask_bits (ap_mask p) \<Longrightarrow> prefix_bits p ! i = bit (ap_value p) (31 - i)"
  by (simp add: prefix_bits_def)

lemma empty_prefix_ok [simp]: "prefix_ok empty_prefix" "prefix_bits empty_prefix = []"
  by (auto simp: prefix_ok_def empty_prefix_def prefix_bits_def mask_bits_def)

lemma first_bit_iff: "first_bit a \<longleftrightarrow> bit a 31"
  using and_exp_eq_0_iff_not_bit [of a 31] by (simp add: first_bit_def)

lemma first_bit_hd:
  assumes "prefix_bits p \<noteq> []"
  shows "first_bit (ap_value p) = hd (prefix_bits p)"
proof -
  have "0 < mask_bits (ap_mask p)"
    using assms by (simp flip: length_prefix_bits)
  then show ?thesis
    using assms by (simp add: first_bit_iff hd_conv_nth nth_prefix_bits)
qed

lemma mask_zero_iff:
  assumes "prefix_ok p"
  shows "ap_mask p = 0 \<longleftrightarrow> prefix_bits p = []"
proof -
  obtain n where n: "n \<le> 32" "ap_mask p = push_bit (32 - n) (mask n)"
    using assms by (auto simp: prefix_ok_def)
  then have "ap_mask p = 0 \<longleftrightarrow> n = 0"
    using bit_mask_word [of n 31] by fastforce
  then show ?thesis
    using n by (simp add: mask_bits_word flip: length_0_conv)
qed

lemma mask_less_iff:
  assumes "n \<le> 32" "k \<le> 32"
  shows "(push_bit (32 - n) (mask n) :: ulong) < push_bit (32 - k) (mask k) \<longleftrightarrow> n < k"
proof -
  have val: "unat (push_bit (32 - n) (mask n) :: ulong) = 2 ^ 32 - 2 ^ (32 - n)" if "n \<le> 32" for n
  proof -
    have "(2 :: nat) ^ n * 2 ^ (32 - n) = 2 ^ 32"
      using that by (simp only: le_add_diff_inverse flip: power_add)
    then have nat: "push_bit (32 - n) (mask n :: nat) = 2 ^ 32 - 2 ^ (32 - n)"
      by (simp only: push_bit_eq_mult mask_eq_exp_minus_1 diff_mult_distrib mult_1)
    have "mask n < (2 :: nat) ^ 64"
      by (rule less_le_trans [OF mask_nat_less_exp [of n] power_increasing]) (use that in simp_all)
    then have "unat (mask n :: ulong) = mask n"
      using unat_of_nat_less [of "mask n", where ?'a = 64] by (simp add: of_nat_mask_eq)
    then have "unat (push_bit (32 - n) (mask n) :: ulong) = take_bit 64 (push_bit (32 - n) (mask n))"
      by (simp add: unsigned_push_bit_eq)
    also have "\<dots> = 2 ^ 32 - 2 ^ (32 - n)"
      unfolding nat by (rule take_bit_nat_eq_self) simp
    finally show ?thesis .
  qed
  have "(2 :: nat) ^ (32 - n) \<le> 2 ^ 32" "(2 :: nat) ^ (32 - k) \<le> 2 ^ 32"
    by (rule power_increasing; simp)+
  then have "(2 :: nat) ^ 32 - 2 ^ (32 - n) < 2 ^ 32 - 2 ^ (32 - k) \<longleftrightarrow> (2 :: nat) ^ (32 - k) < 2 ^ (32 - n)"
    by linarith
  also have "\<dots> \<longleftrightarrow> n < k"
    using assms by (simp add: power_strict_increasing_iff) linarith
  finally show ?thesis
    by (simp only: word_less_nat_alt val assms)
qed

text \<open>The operations on prefixes, on their bits.\<close>

lemma mask_eq_bits:
  assumes "i \<le> 32"
  shows "a AND push_bit (32 - i) (mask i) = b AND push_bit (32 - i) (mask i) \<longleftrightarrow>
    (\<forall>j < i. bit (a :: ulong) (31 - j) = bit b (31 - j))"
proof
  assume eq: "a AND push_bit (32 - i) (mask i) = b AND push_bit (32 - i) (mask i)"
  show "\<forall>j < i. bit a (31 - j) = bit b (31 - j)"
  proof (intro allI impI)
    fix j
    assume "j < i"
    then have "bit (push_bit (32 - i) (mask i) :: ulong) (31 - j)"
      using assms by (simp add: bit_mask_word) linarith
    then show "bit a (31 - j) = bit b (31 - j)"
      using arg_cong [OF eq, of "\<lambda>w. bit w (31 - j)"] by (simp add: bit_and_iff)
  qed
next
  assume same: "\<forall>j < i. bit a (31 - j) = bit b (31 - j)"
  show "a AND push_bit (32 - i) (mask i) = b AND push_bit (32 - i) (mask i)"
  proof (rule bit_word_eqI)
    fix j
    show "bit (a AND push_bit (32 - i) (mask i)) j = bit (b AND push_bit (32 - i) (mask i)) j"
      using same [rule_format, of "31 - j"] assms by (auto simp: bit_and_iff bit_mask_word)
  qed
qed

lemma common_bits_result:
  assumes "1 \<le> i" "i \<le> n + 1" "n \<le> 32" "\<forall>j < i - 1. bit a (31 - j) = bit b (31 - j)"
  shows "\<exists>k. common_bits i n a b = Some k \<and> k \<le> n \<and> (\<forall>j < k. bit a (31 - j) = bit b (31 - j)) \<and>
    (k < n \<longrightarrow> bit a (31 - k) \<noteq> bit b (31 - k))"
  using assms
proof (induction i n a b rule: common_bits.induct)
  case (1 i n a b)
  show ?case
  proof (cases "i \<le> n")
    case True
    then have m: "address_mask i = Some (push_bit (32 - i) (mask i))"
      using 1 by (simp add: address_mask_Some)
    show ?thesis
    proof (cases "bit a (31 - (i - 1)) = bit b (31 - (i - 1))")
      case same: True
      have all: "\<forall>j < i. bit a (31 - j) = bit b (31 - j)"
        using 1 same by (metis One_nat_def Suc_pred less_Suc_eq less_eq_Suc_le)
      then have "\<not> a AND push_bit (32 - i) (mask i) \<noteq> b AND push_bit (32 - i) (mask i)"
        using mask_eq_bits [of i a b] True 1 by simp
      then show ?thesis
        using 1 True m all by (subst common_bits.simps) simp
    next
      case False
      then have "a AND push_bit (32 - i) (mask i) \<noteq> b AND push_bit (32 - i) (mask i)"
        using mask_eq_bits [of i a b] True 1 by (metis One_nat_def Suc_le_eq diff_less le_trans zero_less_one)
      then show ?thesis
        using 1 True m False by (subst common_bits.simps) auto
    qed
  next
    case False
    then have "i = n + 1"
      using 1 by simp
    then show ?thesis
      using 1 by (subst common_bits.simps) simp
  qed
qed

lemma longest_common_prefix_take:
  "k \<le> min (length xs) (length ys) \<Longrightarrow> \<forall>j < k. xs ! j = ys ! j \<Longrightarrow>
    k < min (length xs) (length ys) \<longrightarrow> xs ! k \<noteq> ys ! k \<Longrightarrow> longest_common_prefix xs ys = take k xs"
proof (induction xs ys arbitrary: k rule: longest_common_prefix.induct)
  case (1 x xs y ys)
  then show ?case
    by (cases k) (auto simp: All_less_Suc2)
qed auto

lemma common_prefix_result:
  assumes "prefix_ok p" "prefix_ok q"
  shows "\<exists>c. common_prefix p q = Some c \<and> prefix_ok c \<and> prefix_bits c = longest_common_prefix (prefix_bits p) (prefix_bits q)"
proof -
  let ?n = "min (mask_bits (ap_mask p)) (mask_bits (ap_mask q))"
  have n: "?n \<le> 32"
    using assms by (auto elim!: prefix_okE)
  obtain k where k: "common_bits 1 ?n (ap_value p) (ap_value q) = Some k" "k \<le> ?n"
      "\<forall>j < k. bit (ap_value p) (31 - j) = bit (ap_value q) (31 - j)"
      "k < ?n \<longrightarrow> bit (ap_value p) (31 - k) \<noteq> bit (ap_value q) (31 - k)"
    using common_bits_result [of 1 ?n "ap_value p" "ap_value q"] n by auto
  let ?m = "push_bit (32 - k) (mask k) :: ulong"
  let ?c = "\<lparr>ap_value = ap_value p AND ?m, ap_mask = ?m\<rparr>"
  have k32: "k \<le> 32"
    using k(2) n by (rule le_trans)
  then have m: "address_mask k = Some ?m" "mask_bits ?m = k"
    by (rule address_mask_Some, rule mask_bits_word)
  have c: "common_prefix p q = Some ?c" "prefix_ok ?c"
    using k(1) m k32 by (auto simp: common_prefix_def prefix_ok_def)
  have bits: "prefix_bits ?c = take k (prefix_bits p)"
    using k n by (intro nth_equalityI) (auto simp: m nth_prefix_bits bit_and_iff bit_mask_word)
  have "prefix_bits ?c = longest_common_prefix (prefix_bits p) (prefix_bits q)"
    unfolding bits using k by (intro longest_common_prefix_take [symmetric]) (simp_all add: nth_prefix_bits)
  then show ?thesis
    using c by blast
qed

lemma prefix_shl_result:
  assumes "prefix_ok p" "k \<le> mask_bits (ap_mask p)" "mask_bits m = k"
  shows "\<exists>c. prefix_shl p m = Some c \<and> prefix_ok c \<and> prefix_bits c = drop k (prefix_bits p)"
proof -
  obtain n where n: "n \<le> 32" "ap_mask p = push_bit (32 - n) (mask n)"
    using assms(1) by (auto simp: prefix_ok_def)
  have k: "k \<le> n"
    using assms(2) n by (simp add: mask_bits_word)
  have UL: "UPPER_LIMIT = mask 32"
    by (simp add: UPPER_LIMIT_def mask_eq_exp_minus_1)
  let ?c = "\<lparr>ap_value = push_bit k (ap_value p) AND UPPER_LIMIT, ap_mask = push_bit k (ap_mask p) AND UPPER_LIMIT\<rparr>"
  have c: "prefix_shl p m = Some ?c"
    using assms k n by (simp add: prefix_shl_def address_shl_def mask_shl_def)
  have mask: "ap_mask ?c = push_bit (32 - (n - k)) (mask (n - k))"
    using n k unfolding UL by (auto intro!: bit_word_eqI simp: bit_and_iff bit_mask_iff bit_push_bit_iff)
  then have ok: "prefix_ok ?c"
    using n unfolding prefix_ok_def by (intro exI [of _ "n - k"]) simp
  have "prefix_bits ?c = drop k (prefix_bits p)"
  proof (rule nth_equalityI)
    have "mask_bits (ap_mask ?c) = n - k"
      unfolding mask using n by (intro mask_bits_word) simp
    then show len: "length (prefix_bits ?c) = length (drop k (prefix_bits p))"
      using n k by (simp add: mask_bits_word)
    fix i
    assume i: "i < length (prefix_bits ?c)"
    then have "i + k < n"
      using n k len by (simp add: mask_bits_word)
    then have "k \<le> 31 - i" "31 - i < 64" "31 - i < 32" "31 - i - k = 31 - (k + i)"
      using n by linarith+
    then show "prefix_bits ?c ! i = drop k (prefix_bits p) ! i"
      using i n k len unfolding UL
      by (simp add: nth_prefix_bits mask_bits_word bit_and_iff bit_mask_iff bit_push_bit_iff)
  qed
  then show ?thesis
    using c ok by blast
qed

lemma mask_compare:
  assumes "prefix_ok p" "prefix_ok q"
  shows "ap_mask p < ap_mask q \<longleftrightarrow> length (prefix_bits p) < length (prefix_bits q)"
    "ap_mask p = ap_mask q \<longleftrightarrow> length (prefix_bits p) = length (prefix_bits q)"
proof -
  obtain n k where "n \<le> 32" "ap_mask p = push_bit (32 - n) (mask n)" "k \<le> 32" "ap_mask q = push_bit (32 - k) (mask k)"
    using assms by (auto simp: prefix_ok_def)
  then show "ap_mask p < ap_mask q \<longleftrightarrow> length (prefix_bits p) < length (prefix_bits q)"
      "ap_mask p = ap_mask q \<longleftrightarrow> length (prefix_bits p) = length (prefix_bits q)"
    using mask_less_iff by (auto simp: mask_bits_word) (metis mask_bits_word)
qed

end
