(* ===== verification/Prefix_Tree.thy ===== *)
theory Prefix_Tree
  imports Net_Address
begin

text \<open>
  The tree of address prefixes behind the ban tables (\<^verbatim>\<open>hopmod/net/prefix_tree.hpp\<close>, used by
  \<^verbatim>\<open>ipmask_table\<close> of the Lua interface).  A null pointer is \<open>Null\<close>; the template's
  \<^verbatim>\<open>default_value\<close> is the argument \<open>dv\<close>.

  The abstract view of a tree is the finite map from bit lists to values that \<open>content\<close> reads off.
\<close>

datatype 'v ptree = Null | Node (m_prefix: address_prefix) (m_value: 'v) (child0: "'v ptree") (child1: "'v ptree")

definition empty_tree :: "'v \<Rightarrow> 'v ptree" where
  "empty_tree dv = Node empty_prefix dv Null Null"

definition child :: "bool \<Rightarrow> 'v ptree \<Rightarrow> 'v ptree" where
  "child b t = (case t of Null \<Rightarrow> Null | Node _ _ l r \<Rightarrow> if b then r else l)"

text \<open>
  Insertion.  When the node's prefix is longer than what it shares with the new one, the node is
  split: its contents move to a successor.  The recursive call is on the child that the first
  remaining bit selects; a null child is replaced by a new node.
\<close>

definition split_node :: "'v \<Rightarrow> address_prefix \<Rightarrow> address_prefix \<Rightarrow> 'v \<Rightarrow> 'v ptree \<Rightarrow> 'v ptree \<Rightarrow>
    ('v \<times> 'v ptree \<times> 'v ptree) option" where
  "split_node dv common p v l r =
     (if ap_mask common < ap_mask p then do {
        q \<leftarrow> prefix_shl p (ap_mask common);
        let successor = Node q v l r;
        Some (if first_bit (ap_value q) then (dv, Null, successor) else (dv, successor, Null)) }
      else Some (v, l, r))"

partial_function (option) tree_insert :: "'v \<Rightarrow> address_prefix \<Rightarrow> 'v \<Rightarrow> 'v ptree \<Rightarrow> 'v ptree option" where
  "tree_insert dv key val t =
     (case t of
        Null \<Rightarrow> Some (Node key val Null Null)
      | Node p v l r \<Rightarrow> do {
          common \<leftarrow> common_prefix p key;
          (v, l, r) \<leftarrow> split_node dv common p v l r;
          rest \<leftarrow> prefix_shl key (ap_mask common);
          if ap_mask rest = 0 then Some (Node common val l r)
          else if first_bit (ap_value rest)
          then do { r \<leftarrow> tree_insert dv rest val r; Some (Node common v l r) }
          else do { l \<leftarrow> tree_insert dv rest val l; Some (Node common v l r) } })"

declare tree_insert.simps [code]

text \<open>
  The next match of a key below a node: the first node on the key's path that has a value, the
  rest of the key, and the parent of the node.  \<^verbatim>\<open>predecessor\<close> is given as the path from the
  starting node to the parent, in reverse.
\<close>

function next_match :: "'v \<Rightarrow> address_prefix \<Rightarrow> bool list \<Rightarrow> 'v ptree \<Rightarrow> (address_prefix \<times> bool list \<times> 'v ptree) option option" where
  "next_match dv key path Null = Some None"
| "next_match dv key path (Node _ _ l r) =
     (let b = first_bit (ap_value key)
      in case (if b then r else l) of
           Null \<Rightarrow> Some None
         | Node q v l' r' \<Rightarrow> do {
             common \<leftarrow> common_prefix q key;
             if ap_mask common = ap_mask q then do {
               key \<leftarrow> prefix_shl key (ap_mask common);
               if v \<noteq> dv then Some (Some (key, b # path, Node q v l' r'))
               else next_match dv key (b # path) (Node q v l' r') }
             else Some None })"
  by pat_completeness auto
termination
  by (relation "measure (\<lambda>(_, _, _, t). size t)") (auto split: if_splits)

text \<open>All matches of a key, as \<^verbatim>\<open>ipmask_table::__index\<close> collects them from the root.\<close>

lemma next_match_size: "next_match dv key path t = Some (Some (key', path', t')) \<Longrightarrow> size t' < size t"
proof (induction dv key path t rule: next_match.induct)
  case (2 dv key path p v l r)
  let ?c = "if first_bit (ap_value key) then r else l"
  have small: "size ?c < size (Node p v l r)"
    by simp
  show ?case
  proof (cases ?c)
    case Null
    then show ?thesis
      using "2.prems" by simp
  next
    case (Node q w l' r')
    then obtain c where c: "common_prefix q key = Some c" "ap_mask c = ap_mask q"
      using "2.prems" by (auto simp: bind_eq_Some_conv Let_def split: if_splits)
    then obtain k where k: "prefix_shl key (ap_mask c) = Some k"
      using "2.prems" Node by (auto simp: bind_eq_Some_conv Let_def)
    show ?thesis
    proof (cases "w = dv")
      case True
      then have "next_match dv k (first_bit (ap_value key) # path) (Node q w l' r') = Some (Some (key', path', t'))"
        using "2.prems" Node c k by (simp add: Let_def)
      then have "size t' < size (Node q w l' r')"
        using "2.IH" [OF refl Node c k] True by blast
      then show ?thesis
        using small Node by simp
    next
      case False
      then have "t' = Node q w l' r'"
        using "2.prems" Node c k by (simp add: Let_def)
      then show ?thesis
        using small Node by simp
    qed
  qed
qed simp

function matches :: "'v \<Rightarrow> address_prefix \<Rightarrow> 'v ptree \<Rightarrow> 'v list option" where
  "matches dv key t = do {
     m \<leftarrow> next_match dv key [] t;
     (case m of
        None \<Rightarrow> Some []
      | Some (key, _, t) \<Rightarrow> do { vs \<leftarrow> matches dv key t; Some (m_value t # vs) }) }"
  by pat_completeness auto
termination
  by (relation "measure (\<lambda>(_, _, t). size t)") (auto simp: next_match_size)

declare matches.simps [simp del]

text \<open>
  Removal.  \<open>last_match\<close> is the path, in reverse, of the last match of the key; the node there
  loses its value and is replaced by its first child, joined to it, or taken out of the tree.
\<close>

function last_match :: "'v \<Rightarrow> address_prefix \<Rightarrow> bool list \<Rightarrow> bool list option \<Rightarrow> 'v ptree \<Rightarrow> bool list option option" where
  "last_match dv key path found t = do {
     m \<leftarrow> next_match dv key path t;
     (case m of
        None \<Rightarrow> Some found
      | Some (key, path, t) \<Rightarrow> last_match dv key path (Some path) t) }"
  by pat_completeness auto
termination
  by (relation "measure (\<lambda>(_, _, _, _, t). size t)") (auto simp: next_match_size)

declare last_match.simps [simp del]

definition erase_node :: "'v ptree \<Rightarrow> 'v ptree option" where
  "erase_node t =
     (case t of
        Null \<Rightarrow> None
      | Node p _ l r \<Rightarrow>
          (case (if l = Null then r else l) of
             Null \<Rightarrow> Some Null
           | Node q w l' r' \<Rightarrow> do {
               a \<leftarrow> address_shr (ap_value q) (mask_bits (ap_mask p));
               m \<leftarrow> address_mask (mask_bits (ap_mask p) + mask_bits (ap_mask q));
               Some (Node \<lparr>ap_value = ap_value p OR a, ap_mask = m\<rparr> w l' r') }))"

fun update_at :: "bool list \<Rightarrow> ('v ptree \<Rightarrow> 'v ptree option) \<Rightarrow> 'v ptree \<Rightarrow> 'v ptree option" where
  "update_at [] f t = f t"
| "update_at (b # bs) f Null = None"
| "update_at (b # bs) f (Node p v l r) =
     (if b then do { r \<leftarrow> update_at bs f r; Some (Node p v l r) }
      else do { l \<leftarrow> update_at bs f l; Some (Node p v l r) })"

definition tree_erase :: "'v \<Rightarrow> address_prefix \<Rightarrow> 'v ptree \<Rightarrow> 'v ptree option" where
  "tree_erase dv key t = do {
     m \<leftarrow> last_match dv key [] None t;
     (case m of None \<Rightarrow> Some t | Some path \<Rightarrow> update_at (rev path) erase_node t) }"

subsection \<open>The map a tree stands for\<close>

fun strip :: "bool list \<Rightarrow> bool list \<Rightarrow> bool list option" where
  "strip [] ks = Some ks"
| "strip (b # bs) [] = None"
| "strip (b # bs) (k # ks) = (if b = k then strip bs ks else None)"

lemma strip_Some: "strip bs ks = Some r \<longleftrightarrow> ks = bs @ r"
  by (induction bs ks rule: strip.induct) auto

lemma strip_same [simp]: "strip bs (bs @ r) = Some r"
  by (simp add: strip_Some)

lemma strip_self [simp]: "strip bs bs = Some []"
  by (simp add: strip_Some)

lemma strip_append: "strip (as @ bs) ks = Option.bind (strip as ks) (strip bs)"
  by (induction as ks rule: strip.induct) auto

fun content :: "'v \<Rightarrow> 'v ptree \<Rightarrow> bool list \<Rightarrow> 'v option" where
  "content dv Null k = None"
| "content dv (Node p v l r) k =
     (case strip (prefix_bits p) k of
        None \<Rightarrow> None
      | Some [] \<Rightarrow> if v = dv then None else Some v
      | Some (b # bs) \<Rightarrow> if b then content dv r (b # bs) else content dv l (b # bs))"

definition below :: "bool \<Rightarrow> 'v ptree \<Rightarrow> bool" where
  "below b t \<longleftrightarrow> (case t of Null \<Rightarrow> True | Node p _ _ _ \<Rightarrow> prefix_bits p \<noteq> [] \<and> hd (prefix_bits p) = b)"

fun tree_ok :: "'v ptree \<Rightarrow> bool" where
  "tree_ok Null \<longleftrightarrow> True"
| "tree_ok (Node p v l r) \<longleftrightarrow> prefix_ok p \<and> below False l \<and> below True r \<and> tree_ok l \<and> tree_ok r"

lemma below_simps [simp]: "below b Null"
  "below b (Node p v l r) \<longleftrightarrow> prefix_bits p \<noteq> [] \<and> hd (prefix_bits p) = b"
  by (simp_all add: below_def)

lemma content_other: "below b t \<Longrightarrow> c \<noteq> b \<Longrightarrow> content dv t (c # cs) = None"
  by (cases t) (auto simp: neq_Nil_conv)

lemma content_below_Nil: "below b t \<Longrightarrow> content dv t [] = None"
  by (cases t) (auto simp: neq_Nil_conv)

lemma longest_common_prefix_rests:
  "\<exists>us vs. xs = longest_common_prefix xs ys @ us \<and> ys = longest_common_prefix xs ys @ vs \<and>
     (us = [] \<or> vs = [] \<or> hd us \<noteq> hd vs)"
proof (induction xs ys rule: longest_common_prefix.induct)
  case (1 x xs y ys)
  show ?case
  proof (cases "x = y")
    case True
    then show ?thesis
      using "1.IH" by (simp; metis)
  next
    case False
    then show ?thesis
      by simp
  qed
qed simp_all

lemma length_bits_mask: "length (prefix_bits p) = mask_bits (ap_mask p)"
  by simp

lemma split_node_result:
  assumes ok: "tree_ok (Node p v l r)" "prefix_ok c" and p: "prefix_bits p = prefix_bits c @ us"
  shows "\<exists>v' l' r'. split_node dv c p v l r = Some (v', l', r') \<and> tree_ok (Node c v' l' r') \<and>
    content dv (Node c v' l' r') = content dv (Node p v l r) \<and>
    (if us = [] then l' = l \<and> r' = r else (if hd us then l' else r') = Null)"
proof (cases us)
  case Nil
  then show ?thesis
    using ok p mask_compare [of c p] by (auto simp: split_node_def)
next
  case (Cons b bs)
  then have less: "ap_mask c < ap_mask p"
    using ok p mask_compare [of c p] by simp
  have "mask_bits (ap_mask c) \<le> mask_bits (ap_mask p)"
    using arg_cong [OF p, of length] by simp
  then obtain q where q: "prefix_shl p (ap_mask c) = Some q" "prefix_ok q" "prefix_bits q = us"
    using prefix_shl_result [of p _ "ap_mask c", OF _ _ refl] ok(1) p by (metis append_eq_conv_conj length_bits_mask tree_ok.simps(2))
  have fb: "first_bit (ap_value q) = b"
    using first_bit_hd [of q] q Cons by simp
  have "content dv (Node c dv (if b then Null else Node q v l r) (if b then Node q v l r else Null)) =
      content dv (Node p v l r)"
    using p q Cons by (intro ext) (auto simp: strip_append split: option.splits list.splits)
  then show ?thesis
    using less q fb ok Cons by (cases b) (simp_all add: split_node_def del: content.simps)
qed

lemma content_update_child:
  assumes "content dv t' = (content dv t)(b # bs \<mapsto> val)"
  shows "content dv (Node c v (if b then l else t') (if b then t' else r)) =
    (content dv (Node c v (if b then l else t) (if b then t else r)))(prefix_bits c @ b # bs \<mapsto> val)"
  by (rule ext) (use assms in \<open>auto simp: strip_Some split: option.splits list.splits\<close>)

lemma content_update_here:
  "val \<noteq> dv \<Longrightarrow> content dv (Node c val l r) = (content dv (Node c v l r))(prefix_bits c \<mapsto> val)"
  by (rule ext) (auto simp: strip_Some split: option.splits list.splits)

lemma tree_insert_result:
  assumes "tree_ok t" "prefix_ok key" "val \<noteq> dv"
  shows "\<exists>t'. tree_insert dv key val t = Some t' \<and> tree_ok t' \<and> content dv t' = (content dv t)(prefix_bits key \<mapsto> val) \<and>
    t' \<noteq> Null \<and> (\<forall>b. below b t \<and> prefix_bits key \<noteq> [] \<and> hd (prefix_bits key) = b \<longrightarrow> below b t') \<and>
    (t \<noteq> Null \<longrightarrow> prefix_bits (m_prefix t') = longest_common_prefix (prefix_bits (m_prefix t)) (prefix_bits key))"
  using assms
proof (induction "size t" arbitrary: t key rule: less_induct)
  case less
  show ?case
  proof (cases t)
    case Null
    have "content dv (Node key val Null Null) = [prefix_bits key \<mapsto> val]"
      using less.prems by (intro ext) (auto simp: strip_Some split: option.splits list.splits)
    then show ?thesis
      using Null less.prems by (subst tree_insert.simps) (auto simp del: content.simps simp: content.simps(1))
  next
    case (Node p v l r)
    then have ok: "tree_ok (Node p v l r)" "prefix_ok p"
      using less.prems by simp_all
    obtain c where c: "common_prefix p key = Some c" "prefix_ok c"
        "prefix_bits c = longest_common_prefix (prefix_bits p) (prefix_bits key)"
      using common_prefix_result [OF ok(2) less.prems(2)] by blast
    obtain us vs where us: "prefix_bits p = prefix_bits c @ us" "prefix_bits key = prefix_bits c @ vs"
        "us = [] \<or> vs = [] \<or> hd us \<noteq> hd vs"
      using longest_common_prefix_rests [of "prefix_bits p" "prefix_bits key"] unfolding c(3) [symmetric] by blast
    obtain v' l' r' where split: "split_node dv c p v l r = Some (v', l', r')" "tree_ok (Node c v' l' r')"
        "content dv (Node c v' l' r') = content dv (Node p v l r)" "if us = [] then l' = l \<and> r' = r else (if hd us then l' else r') = Null"
      using split_node_result [OF ok(1) c(2) us(1)] by blast
    have "mask_bits (ap_mask c) \<le> mask_bits (ap_mask key)"
      using arg_cong [OF us(2), of length] by simp
    then obtain rest where rest: "prefix_shl key (ap_mask c) = Some rest" "prefix_ok rest" "prefix_bits rest = vs"
      using prefix_shl_result [of key _ "ap_mask c", OF _ _ refl] less.prems(2) us(2)
      by (metis append_eq_conv_conj length_bits_mask)
    have zero: "ap_mask rest = 0 \<longleftrightarrow> vs = []"
      using mask_zero_iff [OF rest(2)] rest(3) by simp
    have lcp: "below b (Node c x y z)" if "below b t" "hd (prefix_bits key) = b" "prefix_bits key \<noteq> []" for b x y z
      using that us Node by (cases "prefix_bits c") (auto simp: neq_Nil_conv split: if_splits)
    show ?thesis
    proof (cases vs)
      case Nil
      then have "tree_insert dv key val t = Some (Node c val l' r')"
        using Node c(1) split(1) rest(1) zero by (subst tree_insert.simps) simp
      moreover have "content dv (Node c val l' r') = (content dv t)(prefix_bits key \<mapsto> val)"
        using content_update_here [OF less.prems(3), of c l' r' v'] split(3) us(2) Nil Node by simp
      ultimately show ?thesis
        using split(2) Node c(3) lcp by (auto simp del: content.simps)
    next
      case (Cons b bs)
      let ?t = "if b then r' else l'"
      have "size ?t < size t"
        using split(4) us(3) Cons Node by (cases us) (auto split: if_splits)
      moreover have "tree_ok ?t" "below b ?t"
        using split(2) by auto
      ultimately obtain t' where t': "tree_insert dv rest val ?t = Some t'" "tree_ok t'" "below b t'"
          "content dv t' = (content dv ?t)(b # bs \<mapsto> val)"
        using less.hyps [of ?t rest] rest less.prems(3) Cons by auto
      have "first_bit (ap_value rest) = b"
        using first_bit_hd [of rest] rest(3) Cons by simp
      then have "tree_insert dv key val t = Some (Node c v' (if b then l' else t') (if b then t' else r'))"
        using Node c(1) split(1) rest(1) zero t'(1) Cons by (subst tree_insert.simps) auto
      moreover have "content dv (Node c v' (if b then l' else t') (if b then t' else r')) =
          (content dv t)(prefix_bits key \<mapsto> val)"
        using content_update_child [OF t'(4), of c v' l' r'] split(3) us(2) Cons Node by (cases b) simp_all
      ultimately show ?thesis
        using split(2) t'(2,3) Node c(3) lcp by (cases b) (auto simp del: content.simps)
    qed
  qed
qed

subsection \<open>Lookup\<close>

text \<open>The values of the entries on the path of a key, shortest first, without the node itself.\<close>

fun values_on :: "'v \<Rightarrow> bool list \<Rightarrow> 'v ptree \<Rightarrow> 'v list" where
  "values_on dv ks Null = []"
| "values_on dv ks (Node p v l r) =
     (case strip (prefix_bits p) ks of
        None \<Rightarrow> []
      | Some rest \<Rightarrow> (if v = dv then [] else [v]) @
          (case rest of [] \<Rightarrow> [] | b # bs \<Rightarrow> if b then values_on dv rest r else values_on dv rest l))"

definition under_node :: "'v \<Rightarrow> bool list \<Rightarrow> 'v ptree \<Rightarrow> 'v list" where
  "under_node dv ks t = (case ks of [] \<Rightarrow> [] | b # bs \<Rightarrow> values_on dv ks (child b t))"

lemma map_filter_Nil: "(\<And>x. x \<in> set xs \<Longrightarrow> f x = None) \<Longrightarrow> List.map_filter f xs = []"
  by (induction xs) (simp_all add: List.map_filter_def)

lemma map_filter_map: "List.map_filter f (map g xs) = List.map_filter (\<lambda>x. f (g x)) xs"
  by (induction xs) (simp_all add: List.map_filter_def)

lemma map_filter_Cons: "List.map_filter f (x # xs) = (case f x of None \<Rightarrow> [] | Some y \<Rightarrow> [y]) @ List.map_filter f xs"
  by (simp add: List.map_filter_def split: option.split)

lemma prefixes_skip:
  "(\<And>as. strip P as = None \<Longrightarrow> f as = None) \<Longrightarrow>
    List.map_filter f (prefixes (P @ rest)) = List.map_filter (\<lambda>r. f (P @ r)) (prefixes rest)"
proof (induction P arbitrary: f)
  case (Cons x P)
  have "f [] = None"
    by (rule Cons.prems) simp
  moreover have "List.map_filter (\<lambda>as. f (x # as)) (prefixes (P @ rest)) = List.map_filter (\<lambda>r. f (x # P @ r)) (prefixes rest)"
    by (rule Cons.IH) (simp add: Cons.prems)
  ultimately show ?case
    by (simp add: map_filter_Cons map_filter_map)
qed simp

lemma values_on_content:
  "tree_ok t \<Longrightarrow> values_on dv ks t = List.map_filter (content dv t) (prefixes ks)"
proof (induction t arbitrary: ks)
  case Null
  then show ?case
    by (simp add: map_filter_Nil)
next
  case (Node p v l r)
  show ?case
  proof (cases "strip (prefix_bits p) ks")
    case None
    have "strip (prefix_bits p) as = None" if "as \<in> set (prefixes ks)" for as
      using that None by (auto simp: in_set_prefixes prefix_def strip_Some simp flip: not_Some_eq)
    then have "List.map_filter (content dv (Node p v l r)) (prefixes ks) = []"
      by (intro map_filter_Nil) simp
    then show ?thesis
      using None by (simp del: content.simps)
  next
    case (Some rest)
    then have ks: "ks = prefix_bits p @ rest"
      by (simp add: strip_Some)
    have "List.map_filter (content dv (Node p v l r)) (prefixes ks) =
        List.map_filter (\<lambda>as. content dv (Node p v l r) (prefix_bits p @ as)) (prefixes rest)"
      unfolding ks by (rule prefixes_skip) simp
    also have "\<dots> = values_on dv ks (Node p v l r)"
    proof (cases rest)
      case Nil
      then show ?thesis
        using Some by (simp add: map_filter_Cons map_filter_Nil)
    next
      case (Cons b bs)
      let ?t = "if b then r else l"
      have "content dv ?t [] = None"
        using Node.prems content_below_Nil [of False l dv] content_below_Nil [of True r dv] by simp
      then have "values_on dv rest ?t = List.map_filter (\<lambda>as. content dv ?t (b # as)) (prefixes bs)"
        using Node.IH [of rest] Node.prems Cons by (auto simp: map_filter_Cons map_filter_map)
      moreover have "(\<lambda>as. content dv (Node p v l r) (prefix_bits p @ b # as)) = (\<lambda>as. content dv ?t (b # as))"
        by simp
      ultimately show ?thesis
        using Some Cons by (cases b) (simp_all add: map_filter_Cons map_filter_map)
    qed
    finally show ?thesis ..
  qed
qed

lemma next_match_result:
  assumes "tree_ok t" "prefix_ok key"
  shows "case next_match dv key path t of
      None \<Rightarrow> False
    | Some None \<Rightarrow> under_node dv (prefix_bits key) t = []
    | Some (Some (key', path', t')) \<Rightarrow> tree_ok t' \<and> prefix_ok key' \<and> m_value t' \<noteq> dv \<and>
        under_node dv (prefix_bits key) t = m_value t' # under_node dv (prefix_bits key') t'"
  using assms
proof (induction dv key path t rule: next_match.induct)
  case (1 dv key path)
  then show ?case
    by (simp add: under_node_def child_def split: list.split)
next
  case (2 dv key path p v l r)
  let ?b = "first_bit (ap_value key)"
  let ?c = "if ?b then r else l"
  have ok: "tree_ok ?c" "below ?b ?c"
    using "2.prems" by auto
  have under: "under_node dv (prefix_bits key) (Node p v l r) =
      (if prefix_bits key = [] then [] else values_on dv (prefix_bits key) ?c)"
    using first_bit_hd [of key] by (auto simp: under_node_def child_def split: list.split)
  show ?case
  proof (cases ?c)
    case Null
    then show ?thesis
      using under by (simp add: Let_def)
  next
    case (Node q w l' r')
    then have q: "prefix_ok q" "prefix_bits q \<noteq> []"
      using ok unfolding Node by simp_all
    obtain c where c: "common_prefix q key = Some c" "prefix_ok c"
        "prefix_bits c = longest_common_prefix (prefix_bits q) (prefix_bits key)"
      using common_prefix_result [OF q(1) "2.prems"(2)] by blast
    obtain us vs where us: "prefix_bits q = prefix_bits c @ us" "prefix_bits key = prefix_bits c @ vs"
        "us = [] \<or> vs = [] \<or> hd us \<noteq> hd vs"
      using longest_common_prefix_rests [of "prefix_bits q" "prefix_bits key"] unfolding c(3) [symmetric] by blast
    have eq: "ap_mask c = ap_mask q \<longleftrightarrow> us = []"
      using mask_compare(2) [OF c(2) q(1)] arg_cong [OF us(1), of length] by (simp del: length_prefix_bits)
    show ?thesis
    proof (cases "us = []")
      case False
      then have "strip (prefix_bits q) (prefix_bits key) = None"
        using us by (auto simp: strip_Some neq_Nil_conv simp flip: not_Some_eq)
      then show ?thesis
        using under Node c eq False by (simp add: Let_def)
    next
      case True
      then have s: "strip (prefix_bits q) (prefix_bits key) = Some vs" "prefix_bits key \<noteq> []"
        using us q(2) by simp_all
      have "mask_bits (ap_mask c) \<le> mask_bits (ap_mask key)"
        using arg_cong [OF us(2), of length] by simp
      then obtain rest where rest: "prefix_shl key (ap_mask c) = Some rest" "prefix_ok rest" "prefix_bits rest = vs"
        using prefix_shl_result [of key _ "ap_mask c", OF _ _ refl] "2.prems"(2) us(2)
        by (metis append_eq_conv_conj length_bits_mask)
      have split: "values_on dv (prefix_bits key) ?c = (if w = dv then [] else [w]) @ under_node dv vs (Node q w l' r')"
        using s Node by (simp add: under_node_def child_def split: list.split)
      show ?thesis
      proof (cases "w = dv")
        case w: True
        have IH: "case next_match dv rest (?b # path) (Node q w l' r') of
            None \<Rightarrow> False
          | Some None \<Rightarrow> under_node dv (prefix_bits rest) (Node q w l' r') = []
          | Some (Some (key', path', t')) \<Rightarrow> tree_ok t' \<and> prefix_ok key' \<and> m_value t' \<noteq> dv \<and>
              under_node dv (prefix_bits rest) (Node q w l' r') = m_value t' # under_node dv (prefix_bits key') t'"
          using "2.IH" [OF refl Node c(1) _ _] rest eq True w ok unfolding Node by auto
        have this_next: "next_match dv key path (Node p v l r) = next_match dv rest (?b # path) (Node q w l' r')"
          using Node c(1) rest(1) eq True w by (simp add: Let_def)
        have same: "under_node dv (prefix_bits key) (Node p v l r) = under_node dv (prefix_bits rest) (Node q w l' r')"
          using under split s w rest(3) by simp
        show ?thesis
          unfolding this_next same by (rule IH)
      next
        case False
        then have "next_match dv key path (Node p v l r) = Some (Some (rest, ?b # path, Node q w l' r'))"
          using Node c(1) rest eq True by (simp add: Let_def)
        then show ?thesis
          using False rest(2,3) under split s ok unfolding Node by simp
      qed
    qed
  qed
qed

lemma matches_result:
  assumes "tree_ok t" "prefix_ok key"
  shows "matches dv key t = Some (under_node dv (prefix_bits key) t)"
  using assms
proof (induction dv key t rule: matches.induct)
  case (1 dv key t)
  then show ?case
    using next_match_result [OF 1(2,3), of dv "[]"] by (subst matches.simps) (auto split: option.splits)
qed

subsection \<open>The table of bans\<close>

text \<open>
  The root of a table has an empty prefix and no value, since only keys with at least one bit are
  inserted.
\<close>

definition table_ok :: "'v \<Rightarrow> 'v ptree \<Rightarrow> bool" where
  "table_ok dv t \<longleftrightarrow> tree_ok t \<and> (\<exists>p l r. t = Node p dv l r \<and> prefix_bits p = [])"

lemma empty_table_ok: "table_ok dv (empty_tree dv)"
  by (simp add: table_ok_def empty_tree_def)

lemma table_matches:
  assumes "table_ok dv t" "prefix_ok key"
  shows "matches dv key t = Some (List.map_filter (content dv t) (prefixes (prefix_bits key)))"
proof -
  obtain p l r where t: "t = Node p dv l r" "prefix_bits p = []" "tree_ok t"
    using assms(1) by (auto simp: table_ok_def)
  have "under_node dv (prefix_bits key) t = values_on dv (prefix_bits key) t"
    using t(1,2) by (simp add: under_node_def child_def split: list.split)
  then show ?thesis
    using matches_result [OF t(3) assms(2), of dv] values_on_content [OF t(3), of dv] by simp
qed

lemma table_insert:
  assumes "table_ok dv t" "prefix_ok key" "prefix_bits key \<noteq> []" "val \<noteq> dv"
  shows "\<exists>t'. tree_insert dv key val t = Some t' \<and> table_ok dv t' \<and> content dv t' = (content dv t)(prefix_bits key \<mapsto> val)"
proof -
  obtain p l r where t: "t = Node p dv l r" "prefix_bits p = []" "tree_ok t"
    using assms(1) by (auto simp: table_ok_def)
  obtain t' where t': "tree_insert dv key val t = Some t'" "tree_ok t'"
      "content dv t' = (content dv t)(prefix_bits key \<mapsto> val)" "t' \<noteq> Null" "prefix_bits (m_prefix t') = []"
    using tree_insert_result [OF t(3) assms(2,4)] t by auto
  then obtain q w l' r' where n: "t' = Node q w l' r'"
    by (cases t') auto
  have "content dv t' [] = content dv t []"
    using t'(3) assms(3) by simp
  then have "w = dv"
    using t n t'(5) by (simp split: if_splits)
  then show ?thesis
    using t' n by (auto simp: table_ok_def)
qed

text \<open>
  C28.  The table implements a map from address prefixes to values: an insertion succeeds and
  changes the map at its key only, and a lookup returns the values of exactly those keys that are
  prefixes of the address, the shortest first.
\<close>

theorem ban_table_refines_map:
  assumes "table_ok dv t" "prefix_ok key" "prefix_bits key \<noteq> []" "val \<noteq> dv" "prefix_ok addr"
  shows "\<exists>t'. tree_insert dv key val t = Some t' \<and> table_ok dv t' \<and>
    content dv t' = (content dv t)(prefix_bits key \<mapsto> val) \<and>
    matches dv addr t' = Some (List.map_filter (content dv t') (prefixes (prefix_bits addr)))"
proof -
  obtain t' where t': "tree_insert dv key val t = Some t'" "table_ok dv t'" "content dv t' = (content dv t)(prefix_bits key \<mapsto> val)"
    using table_insert [OF assms(1-4)] by blast
  then show ?thesis
    using table_matches [OF t'(2) assms(5)] by (intro exI conjI)
qed

definition sample_key :: "ulong \<Rightarrow> nat \<Rightarrow> address_prefix" where
  "sample_key a n = \<lparr>ap_value = a, ap_mask = push_bit (32 - n) (2 ^ n - 1)\<rparr>"

lemma sample_key_ok: "n \<le> 32 \<Longrightarrow> prefix_ok (sample_key a n)"
  by (auto simp: sample_key_def prefix_ok_def mask_eq_exp_minus_1)

lemma sample_key_bits:
  assumes "n \<le> 32"
  shows "prefix_bits (sample_key a n) = map (\<lambda>i. bit a (31 - i)) [0..<n]"
proof -
  have "mask_bits (ap_mask (sample_key a n)) = n"
    using mask_bits_word [OF assms] by (simp add: sample_key_def mask_eq_exp_minus_1)
  then show ?thesis
    by (simp add: prefix_bits_def sample_key_def)
qed

lemma sample_bits:
  "prefix_bits (sample_key 0x40000000 2) = [False, True]" "prefix_bits (sample_key 0x60000000 3) = [False, True, True]"
  "prefix_bits (sample_key 0x40000000 3) = [False, True, False]" "prefix_bits (sample_key 0x40000000 1) = [False]"
  by (simp_all add: sample_key_bits upt_rec)

lemma content_empty: "content dv (empty_tree dv) = Map.empty"
  by (auto simp: empty_tree_def split: list.split)

theorem ban_table_refines_map_witness:
  "\<exists>t t'. tree_insert (-1 :: int) (sample_key 0x40000000 2) 2 (empty_tree (-1)) = Some t \<and>
    tree_insert (-1) (sample_key 0x60000000 3) 1 t = Some t' \<and> matches (-1) (sample_key 0x60000000 3) t' = Some [2, 1]"
proof -
  note bits = sample_bits and ok = sample_key_ok [of 2 "0x40000000"] sample_key_ok [of 3 "0x60000000"]
  obtain t where t: "tree_insert (-1 :: int) (sample_key 0x40000000 2) 2 (empty_tree (-1)) = Some t" "table_ok (-1) t"
      "content (-1) t = [[False, True] \<mapsto> 2]"
    using ban_table_refines_map [OF empty_table_ok, of "sample_key 0x40000000 2" 2 "-1 :: int" "sample_key 0x60000000 3"]
    by (auto simp: bits ok content_empty)
  then obtain t' where "tree_insert (-1) (sample_key 0x60000000 3) 1 t = Some t'"
      "matches (-1) (sample_key 0x60000000 3) t' =
        Some (List.map_filter [[False, True] \<mapsto> 2, [False, True, True] \<mapsto> 1] (prefixes [False, True, True]))"
    using ban_table_refines_map [OF t(2), of "sample_key 0x60000000 3" 1 "sample_key 0x60000000 3"]
    by (auto simp: bits ok)
  then show ?thesis
    using t(1) by (auto simp: map_filter_Cons map_filter_Nil)
qed

text \<open>
  C29.  Taking a prefix out of the table may take others with it: when its node has two children,
  the second one is dropped.  And a key that is not in the table takes out the longest prefix
  that covers it.
\<close>

definition insert_all :: "(address_prefix \<times> int) list \<Rightarrow> int ptree \<Rightarrow> int ptree option" where
  "insert_all kvs t = foldl (\<lambda>t (k, v). Option.bind t (tree_insert (-1) k v)) (Some t) kvs"


end
