(* ===== verification/World_State.thy ===== *)
theory World_State
  imports Byte_Buffer
begin

text \<open>
  The periodic broadcast of positions and messages (\<^verbatim>\<open>buildworldstate\<close> of
  \<^verbatim>\<open>fpsgame/server.cpp\<close>).  What the clients said since the last broadcast is gathered in one
  buffer in blocks of about the size of a datagram.  Each block is written twice in a row, so
  that every client can be sent a contiguous part of the buffer that holds the block without
  the client's own share.  The packets point into the buffer, which is shared by all of them
  and counted in \<^verbatim>\<open>uses\<close>.

  The buffer starts at the address \<open>wb_addr\<close>; \<open>wb_done\<close> are its bytes before \<^verbatim>\<open>wsbuf.buf\<close>.  What the
  transport does with a packet is a parameter: \<open>refs\<close> is the number of references it takes.
\<close>

record ws_client =
  wc_clientnum :: i32
  wc_ai :: bool \<comment> \<open>\<^verbatim>\<open>state.aitype != AI_NONE\<close>\<close>
  wc_position :: "u8 list"
  wc_messages :: "u8 list"
  wc_bots :: "nat list"
  wc_wsdata :: "nat option" \<comment> \<open>null, or an address in the buffer\<close>
  wc_wslen :: nat
  wc_overflow :: int

record ws_packet =
  wp_client :: i32
  wp_chan :: nat
  wp_reliable :: bool
  wp_data :: nat
  wp_size :: nat

record ws_build =
  wb_uses :: nat
  wb_addr :: nat
  wb_done :: "u8 list"
  wb_buf :: databuf
  wb_clients :: "ws_client list"
  wb_recorded :: "(nat \<times> u8 list) list"
  wb_sent :: "ws_packet list"

definition wb_start :: "ws_build \<Rightarrow> nat" where
  "wb_start W = wb_addr W + length (wb_done W)"

lemma wb_start_upd [simp]: "wb_start (wb_buf_update f W) = wb_start W" "wb_start (wb_clients_update g W) = wb_start W"
  by (simp_all add: wb_start_def)

subsection \<open>Sending a block\<close>

text \<open>
  One round of the loops in \<^verbatim>\<open>sendpositions\<close> and \<^verbatim>\<open>sendmessages\<close>: the part of the doubled block
  that follows the client's own share.  A packet that the transport does not keep is destroyed
  at once, and one that it keeps is a use of the buffer.
\<close>

definition own_part :: "nat \<Rightarrow> nat \<Rightarrow> ws_client \<Rightarrow> nat \<times> int" where
  "own_part start wslen ci =
     (case wc_wsdata ci of
        Some p \<Rightarrow> if start \<le> p then (p + wc_wslen ci, int wslen - int (wc_wslen ci)) else (start, int wslen)
      | None \<Rightarrow> (start, int wslen))"

definition send_to :: "(ws_packet \<Rightarrow> nat) \<Rightarrow> nat \<Rightarrow> bool \<Rightarrow> nat \<Rightarrow> ws_client \<Rightarrow> ws_build \<Rightarrow> ws_build" where
  "send_to refs chan reliable wslen ci W =
     (let (data, size) = own_part (wb_start W) wslen ci
      in if wc_ai ci \<or> size \<le> 0 then W
         else let packet = \<lparr>wp_client = wc_clientnum ci, wp_chan = chan, wp_reliable = reliable,
                            wp_data = data, wp_size = nat size\<rparr>
              in W\<lparr>wb_sent := wb_sent W @ [packet],
                   wb_uses := wb_uses W + (if refs packet \<noteq> 0 then 1 else 0)\<rparr>)"

definition send_block :: "(ws_packet \<Rightarrow> nat) \<Rightarrow> nat \<Rightarrow> bool \<Rightarrow> ws_build \<Rightarrow> ws_build" where
  "send_block refs chan reliable W =
     (if db_len (wb_buf W) = 0 then W
      else let wslen = db_len (wb_buf W);
               block = take wslen (db_buf (wb_buf W));
               W = W\<lparr>wb_recorded := wb_recorded W @ [(chan, block)], wb_buf := db_put_vals block (wb_buf W)\<rparr>;
               W = fold (send_to refs chan reliable wslen) (wb_clients W) W;
               n = min (db_len (wb_buf W)) (db_maxlen (wb_buf W))
           in W\<lparr>wb_done := wb_done W @ take n (db_buf (wb_buf W)), wb_buf := db_offset (db_len (wb_buf W)) (wb_buf W)\<rparr>)"

definition sendpositions :: "(ws_packet \<Rightarrow> nat) \<Rightarrow> ws_build \<Rightarrow> ws_build" where
  "sendpositions refs = send_block refs 0 False"

definition sendmessages :: "(ws_packet \<Rightarrow> nat) \<Rightarrow> bool \<Rightarrow> ws_build \<Rightarrow> ws_build" where
  "sendmessages refs reliable = send_block refs 1 reliable"

subsection \<open>Gathering\<close>

definition ptr_less :: "nat option \<Rightarrow> nat \<Rightarrow> bool" where
  "ptr_less p start = (case p of None \<Rightarrow> True | Some a \<Rightarrow> a < start)"

text \<open>
  The common end of \<^verbatim>\<open>addposition\<close> and \<^verbatim>\<open>addmessages\<close>: the bytes put since \<open>offset\<close> are the
  client's own, the first of the block or behind those it has there already.
\<close>

definition own_bytes :: "nat \<Rightarrow> nat \<Rightarrow> ws_build \<Rightarrow> ws_build" where
  "own_bytes offset c W =
     (let len = db_len (wb_buf W) - offset; ci = wb_clients W ! c;
          ci = (if ptr_less (wc_wsdata ci) (wb_start W)
                then ci\<lparr>wc_wsdata := Some (wb_start W + offset), wc_wslen := len\<rparr>
                else ci\<lparr>wc_wslen := wc_wslen ci + len\<rparr>)
      in W\<lparr>wb_clients := (wb_clients W)[c := ci]\<rparr>)"

definition addposition :: "(ws_packet \<Rightarrow> nat) \<Rightarrow> int \<Rightarrow> nat \<Rightarrow> nat \<Rightarrow> ws_build \<Rightarrow> ws_build" where
  "addposition refs mtu c b W =
     (let position = wc_position (wb_clients W ! b)
      in if position = [] then W
         else let W = (if int (db_len (wb_buf W) + length position) > mtu then sendpositions refs W else W);
                  offset = db_len (wb_buf W);
                  W = W\<lparr>wb_buf := db_put_vals position (wb_buf W),
                        wb_clients := (wb_clients W)[b := (wb_clients W ! b)\<lparr>wc_position := []\<rparr>]\<rparr>
              in own_bytes offset c W)"

definition N_CLIENT :: i32 where
  "N_CLIENT = 85"

definition addmessages :: "(ws_packet \<Rightarrow> nat) \<Rightarrow> bool \<Rightarrow> int \<Rightarrow> nat \<Rightarrow> nat \<Rightarrow> ws_build \<Rightarrow> ws_build" where
  "addmessages refs reliable mtu c b W =
     (let messages = wc_messages (wb_clients W ! b)
      in if messages = [] then W
         else let W = (if int (db_len (wb_buf W) + 10 + length messages) > mtu then sendmessages refs reliable W else W);
                  offset = db_len (wb_buf W);
                  W = W\<lparr>wb_buf := db_put_all (putint N_CLIENT) (wb_buf W)\<rparr>;
                  W = W\<lparr>wb_buf := db_put_all (putint (wc_clientnum (wb_clients W ! b))) (wb_buf W)\<rparr>;
                  W = W\<lparr>wb_buf := db_put_all (putuint (word_of_nat (length messages))) (wb_buf W)\<rparr>;
                  W = W\<lparr>wb_buf := db_put_vals messages (wb_buf W),
                        wb_clients := (wb_clients W)[b := (wb_clients W ! b)\<lparr>wc_messages := []\<rparr>]\<rparr>
              in own_bytes offset c W)"

subsection \<open>The broadcast\<close>

record worldstate =
  ws_uses :: nat
  ws_len :: nat
  ws_data :: nat
  ws_bytes :: "u8 list"

definition ws_contains :: "worldstate \<Rightarrow> nat \<Rightarrow> bool" where
  "ws_contains ws p \<longleftrightarrow> ws_data ws \<le> p \<and> p < ws_data ws + ws_len ws"

record ws_server =
  sv_clients :: "ws_client list"
  sv_worldstates :: "worldstate list"
  sv_reliablemessages :: bool
  sv_recorded :: "(nat \<times> u8 list) list"
  sv_sent :: "ws_packet list"

definition ws_need :: "ws_client \<Rightarrow> nat" where
  "ws_need ci = length (wc_position ci) + (if wc_messages ci \<noteq> [] then 10 + length (wc_messages ci) else 0)"

definition gather :: "(nat \<Rightarrow> nat \<Rightarrow> ws_build \<Rightarrow> ws_build) \<Rightarrow> nat \<Rightarrow> ws_build \<Rightarrow> ws_build" where
  "gather add c W =
     (let ci = wb_clients W ! c in if wc_ai ci then W else fold (add c) (wc_bots ci) (add c c W))"

definition buildworldstate :: "(ws_packet \<Rightarrow> nat) \<Rightarrow> int \<Rightarrow> (nat \<Rightarrow> nat \<times> u8 list) \<Rightarrow> ws_server \<Rightarrow> bool \<times> ws_server" where
  "buildworldstate refs servermtu new S =
     (let clients = map (\<lambda>ci. ci\<lparr>wc_overflow := 0, wc_wsdata := None\<rparr>) (sv_clients S);
          wsmax = sum_list (map ws_need clients)
      in if wsmax = 0 then (False, S\<lparr>sv_clients := clients, sv_reliablemessages := False\<rparr>)
         else
           let len = 2 * wsmax; (addr, mem) = new len;
               mtu = (if servermtu - 100 \<le> 0 then int len else servermtu - 100);
               rel = sv_reliablemessages S; n = length clients;
               W = \<lparr>wb_uses = 0, wb_addr = addr, wb_done = [], wb_buf = make_databuf mem len,
                    wb_clients = clients, wb_recorded = sv_recorded S, wb_sent = []\<rparr>;
               W = fold (gather (addposition refs mtu)) [0..<n] W;
               W = sendpositions refs W;
               W = fold (gather (addmessages refs rel mtu)) [0..<n] W;
               W = sendmessages refs rel W;
               ws = \<lparr>ws_uses = wb_uses W, ws_len = len, ws_data = addr,
                     ws_bytes = wb_done W @ db_buf (wb_buf W)\<rparr>
           in (wb_uses W \<noteq> 0,
               S\<lparr>sv_clients := wb_clients W, sv_reliablemessages := False, sv_recorded := wb_recorded W,
                 sv_sent := sv_sent S @ wb_sent W,
                 sv_worldstates := (if wb_uses W \<noteq> 0 then sv_worldstates S @ [ws] else sv_worldstates S)\<rparr>))"

text \<open>
  \<^verbatim>\<open>cleanworldstate\<close> is called with the data of a packet when the transport frees it.
\<close>

definition removeunordered :: "nat \<Rightarrow> 'a list \<Rightarrow> 'a list" where
  "removeunordered i xs = (let ys = butlast xs in if i < length ys then ys[i := last xs] else ys)"

fun first_containing :: "nat \<Rightarrow> worldstate list \<Rightarrow> nat option" where
  "first_containing p [] = None"
| "first_containing p (ws # wss) = (if ws_contains ws p then Some 0 else map_option Suc (first_containing p wss))"

definition cleanworldstate :: "nat \<Rightarrow> ws_server \<Rightarrow> ws_server" where
  "cleanworldstate data S =
     (case first_containing data (sv_worldstates S) of
        None \<Rightarrow> S
      | Some i \<Rightarrow>
          let ws = (sv_worldstates S ! i)\<lparr>ws_uses := ws_uses (sv_worldstates S ! i) - 1\<rparr>
          in S\<lparr>sv_worldstates := (if ws_uses ws = 0 then removeunordered i (sv_worldstates S)
                                  else (sv_worldstates S)[i := ws])\<rparr>)"

subsection \<open>Shares and blocks\<close>

text \<open>
  The shares of the clients in a broadcast: who owns it, the room the code asks for, and the
  bytes.  A block of shares is sent when the next one finds no room in it.
\<close>

record ws_share =
  sh_owner :: nat
  sh_room :: nat
  sh_bytes :: "u8 list"

definition bytes_of :: "ws_share list \<Rightarrow> u8 list" where
  "bytes_of b = concat (map sh_bytes b)"

definition client_jobs :: "ws_client list \<Rightarrow> nat \<Rightarrow> (nat \<times> nat) list" where
  "client_jobs cs c = (if wc_ai (cs ! c) then [] else map (Pair c) (c # wc_bots (cs ! c)))"

definition share_of :: "(ws_client \<Rightarrow> u8 list) \<Rightarrow> (ws_client \<Rightarrow> nat) \<Rightarrow> ws_client list \<Rightarrow> nat \<times> nat \<Rightarrow> ws_share" where
  "share_of f room cs j = \<lparr>sh_owner = fst j, sh_room = room (cs ! snd j), sh_bytes = f (cs ! snd j)\<rparr>"

definition share_list :: "(ws_client \<Rightarrow> u8 list) \<Rightarrow> (ws_client \<Rightarrow> nat) \<Rightarrow> ws_client list \<Rightarrow> (nat \<times> nat) list \<Rightarrow> ws_share list" where
  "share_list f room cs js = map (share_of f room cs) (filter (\<lambda>j. f (cs ! snd j) \<noteq> []) js)"

definition jobs :: "ws_client list \<Rightarrow> nat list \<Rightarrow> (nat \<times> nat) list" where
  "jobs cs ns = concat (map (client_jobs cs) ns)"

definition shares :: "(ws_client \<Rightarrow> u8 list) \<Rightarrow> (ws_client \<Rightarrow> nat) \<Rightarrow> ws_client list \<Rightarrow> ws_share list" where
  "shares f room cs = share_list f room cs (jobs cs [0..<length cs])"

definition message_bytes :: "ws_client \<Rightarrow> u8 list" where
  "message_bytes ci =
     (if wc_messages ci = [] then []
      else putint N_CLIENT @ putint (wc_clientnum ci) @ putuint (word_of_nat (length (wc_messages ci))) @ wc_messages ci)"

definition position_shares :: "ws_client list \<Rightarrow> ws_share list" where
  "position_shares = shares wc_position (\<lambda>ci. length (wc_position ci))"

definition message_shares :: "ws_client list \<Rightarrow> ws_share list" where
  "message_shares = shares message_bytes (\<lambda>ci. 10 + length (wc_messages ci))"

fun packed :: "int \<Rightarrow> ws_share list \<Rightarrow> ws_share list \<Rightarrow> ws_share list list" where
  "packed mtu b [] = [b]"
| "packed mtu b (s # ss) =
     (if int (length (bytes_of b) + sh_room s) > mtu then b # packed mtu [s] ss else packed mtu (b @ [s]) ss)"

text \<open>
  What the client \<open>c\<close> is to receive of a block: the shares behind its own, then those before.
\<close>

definition before :: "nat \<Rightarrow> ws_share list \<Rightarrow> u8 list" where
  "before c b = bytes_of (filter (\<lambda>s. sh_owner s < c) b)"

definition own :: "nat \<Rightarrow> ws_share list \<Rightarrow> u8 list" where
  "own c b = bytes_of (filter (\<lambda>s. sh_owner s = c) b)"

definition behind :: "nat \<Rightarrow> ws_share list \<Rightarrow> u8 list" where
  "behind c b = bytes_of (filter (\<lambda>s. c < sh_owner s) b)"

definition others :: "nat \<Rightarrow> ws_share list \<Rightarrow> u8 list" where
  "others c b = (if own c b = [] then bytes_of b else behind c b @ before c b)"

lemma bytes_of_simps [simp]: "bytes_of [] = []" "bytes_of (s # b) = sh_bytes s @ bytes_of b"
  "bytes_of (b @ b') = bytes_of b @ bytes_of b'"
  by (simp_all add: bytes_of_def)

lemma concat_packed: "concat (packed mtu b ss) = b @ ss"
  by (induction mtu b ss rule: packed.induct) auto

lemma packed_nonempty [simp]: "packed mtu b ss \<noteq> []"
  by (induction mtu b ss rule: packed.induct) simp_all

lemma packed_append:
  "packed mtu b (xs @ ys) = butlast (packed mtu b xs) @ packed mtu (last (packed mtu b xs)) ys"
  by (induction mtu b xs rule: packed.induct) simp_all

lemma packed_room:
  "b \<noteq> [] \<longrightarrow> int (length (bytes_of b)) \<le> mtu \<or> length b = 1 \<Longrightarrow> \<forall>s\<in>set ss. length (sh_bytes s) \<le> sh_room s \<Longrightarrow>
     b' \<in> set (packed mtu b ss) \<Longrightarrow> int (length (bytes_of b')) \<le> mtu \<or> length b' \<le> 1"
proof (induction mtu b ss rule: packed.induct)
  case (2 mtu b s ss)
  then show ?case
    by (auto split: if_splits)
qed auto

text \<open>A block is in the order of the owners, so that it falls into three parts for each client.\<close>

lemma sorted_three_parts:
  "sorted (map sh_owner b) \<Longrightarrow>
     b = filter (\<lambda>s. sh_owner s < c) b @ filter (\<lambda>s. sh_owner s = c) b @ filter (\<lambda>s. c < sh_owner s) b"
proof (induction b)
  case (Cons s b)
  have none: "filter (\<lambda>s. sh_owner s < c) b = []" if "c \<le> sh_owner s"
    using Cons.prems that by (force simp: filter_empty_conv)
  have none': "filter (\<lambda>s. sh_owner s = c) b = []" if "c < sh_owner s"
    using Cons.prems that by (force simp: filter_empty_conv)
  show ?case
    using Cons none none' by (cases "sh_owner s" c rule: linorder_cases) auto
qed simp

lemma bytes_three_parts: "sorted (map sh_owner b) \<Longrightarrow> bytes_of b = before c b @ own c b @ behind c b"
  using arg_cong [OF sorted_three_parts, of b bytes_of c] by (simp add: before_def own_def behind_def)

text \<open>
  While a block is gathered: its bytes are at the start of the buffer, there is room to double
  it and everything to come (\<open>n\<close> bytes), and every client knows its own share of it.
\<close>

definition block_in :: "databuf \<Rightarrow> ws_share list \<Rightarrow> nat \<Rightarrow> bool" where
  "block_in p b n \<longleftrightarrow>
     databuf_ok p \<and> db_len p = length (bytes_of b) \<and> take (length (bytes_of b)) (db_buf p) = bytes_of b \<and>
     2 * (length (bytes_of b) + n) \<le> db_maxlen p \<and> \<not> db_overwrote p"

definition knows_share :: "nat \<Rightarrow> ws_share list \<Rightarrow> nat \<Rightarrow> ws_client \<Rightarrow> bool" where
  "knows_share start b c ci \<longleftrightarrow>
     (if own c b = [] then ptr_less (wc_wsdata ci) start
      else wc_wsdata ci = Some (start + length (before c b)) \<and> wc_wslen ci = length (own c b))"

definition gathering :: "ws_build \<Rightarrow> ws_share list \<Rightarrow> nat \<Rightarrow> bool" where
  "gathering W b n \<longleftrightarrow>
     block_in (wb_buf W) b n \<and> sorted (map sh_owner b) \<and> (\<forall>s\<in>set b. sh_bytes s \<noteq> []) \<and>
     (\<forall>c<length (wb_clients W). knows_share (wb_start W) b c (wb_clients W ! c))"

definition read_packet :: "ws_build \<Rightarrow> ws_packet \<Rightarrow> u8 list" where
  "read_packet W p = take (wp_size p) (drop (wp_data p - wb_addr W) (wb_done W))"

definition packet_log :: "ws_build \<Rightarrow> ws_packet \<Rightarrow> i32 \<times> nat \<times> bool \<times> u8 list" where
  "packet_log W p = (wp_client p, wp_chan p, wp_reliable p, read_packet W p)"

definition packet_inside :: "ws_build \<Rightarrow> ws_packet \<Rightarrow> bool" where
  "packet_inside W p \<longleftrightarrow> wb_addr W \<le> wp_data p \<and> wp_data p + wp_size p \<le> wb_start W \<and> 0 < wp_size p"

lemma db_put_vals_fits:
  "db_len p + length bs \<le> db_maxlen p \<Longrightarrow>
     db_put_vals bs p = p\<lparr>db_buf := take (db_len p) (db_buf p) @ bs @ drop (db_len p + length bs) (db_buf p),
                           db_len := db_len p + length bs\<rparr>"
  by (simp add: db_put_vals_def Let_def min_absorb2)

lemma db_put_vals_maxlen [simp]: "db_maxlen (db_put_vals bs p) = db_maxlen p"
  by (simp add: db_put_vals_def Let_def)

lemma block_in_put:
  assumes "block_in p b n" "length (sh_bytes s) \<le> n"
  shows "block_in (db_put_vals (sh_bytes s) p) (b @ [s]) (n - length (sh_bytes s))"
  using assms
  by (simp add: db_put_vals_fits block_in_def databuf_ok_def db_overwrote_def)

lemma block_in_mono: "block_in p b n \<Longrightarrow> m \<le> n \<Longrightarrow> block_in p b m"
  by (simp add: block_in_def)

lemma block_in_double:
  assumes "block_in p b n"
  defines "q \<equiv> db_put_vals (bytes_of b) p"
  shows "take (db_len q) (db_buf q) = bytes_of b @ bytes_of b"
    and "db_len q = 2 * length (bytes_of b)" "db_len q \<le> db_maxlen q"
    and "block_in (db_offset (db_len q) q) [] n"
  using assms(1)
  by (simp_all add: q_def db_put_vals_fits block_in_def databuf_ok_def db_overwrote_def db_offset_def Let_def min_absorb1 le_diff_conv2
      diff_le_mono)

lemma own_part_share:
  assumes "knows_share start b c ci" "sorted (map sh_owner b)"
  shows "\<exists>d. own_part start (length (bytes_of b)) ci = (start + d, int (length (others c b))) \<and>
           take (length (others c b)) (drop d (bytes_of b @ bytes_of b)) = others c b \<and>
           d + length (others c b) \<le> 2 * length (bytes_of b)"
proof (cases "own c b = []")
  case True
  then have "own_part start (length (bytes_of b)) ci = (start + 0, int (length (bytes_of b)))"
    using assms(1) by (auto simp: knows_share_def own_part_def ptr_less_def split: option.splits)
  then show ?thesis
    using True by (intro exI [of _ 0]) (simp add: others_def)
next
  case False
  have parts: "bytes_of b = before c b @ own c b @ behind c b"
    using assms(2) by (rule bytes_three_parts)
  have "own_part start (length (bytes_of b)) ci =
          (start + (length (before c b) + length (own c b)), int (length (others c b)))"
    using False assms(1) by (simp add: knows_share_def own_part_def others_def parts)
  then show ?thesis
    using False by (intro exI [of _ "length (before c b) + length (own c b)"]) (simp add: others_def parts)
qed

text \<open>A block is sent whole: to every client the others' shares, and once to the record.\<close>

definition block_log :: "ws_client list \<Rightarrow> nat \<Rightarrow> bool \<Rightarrow> ws_share list \<Rightarrow> nat \<Rightarrow> (i32 \<times> nat \<times> bool \<times> u8 list) list" where
  "block_log cs chan rel b n =
     map (\<lambda>c. (wc_clientnum (cs ! c), chan, rel, others c b))
       (filter (\<lambda>c. \<not> wc_ai (cs ! c) \<and> others c b \<noteq> []) [0..<n])"

text \<open>What one round adds: nothing, or a packet with the bytes for the client.\<close>

definition share_packet :: "nat \<Rightarrow> nat \<Rightarrow> bool \<Rightarrow> ws_share list \<Rightarrow> ws_client \<Rightarrow> ws_packet list" where
  "share_packet start chan rel b ci =
     (let (data, size) = own_part start (length (bytes_of b)) ci
      in if wc_ai ci \<or> size \<le> 0 then []
         else [\<lparr>wp_client = wc_clientnum ci, wp_chan = chan, wp_reliable = rel, wp_data = data, wp_size = nat size\<rparr>])"

definition taken :: "(ws_packet \<Rightarrow> nat) \<Rightarrow> ws_packet list \<Rightarrow> nat" where
  "taken refs ps = length (filter (\<lambda>p. refs p \<noteq> 0) ps)"

definition add_packets :: "(ws_packet \<Rightarrow> nat) \<Rightarrow> ws_packet list \<Rightarrow> ws_build \<Rightarrow> ws_build" where
  "add_packets refs ps W = W\<lparr>wb_sent := wb_sent W @ ps, wb_uses := wb_uses W + taken refs ps\<rparr>"

lemma add_packets_simps [simp]:
  "wb_addr (add_packets refs ps W) = wb_addr W" "wb_done (add_packets refs ps W) = wb_done W"
  "wb_buf (add_packets refs ps W) = wb_buf W" "wb_clients (add_packets refs ps W) = wb_clients W"
  "wb_recorded (add_packets refs ps W) = wb_recorded W" "wb_start (add_packets refs ps W) = wb_start W"
  "wb_sent (add_packets refs ps W) = wb_sent W @ ps"
  "wb_uses (add_packets refs ps W) = wb_uses W + taken refs ps"
  "add_packets refs qs (add_packets refs ps W) = add_packets refs (ps @ qs) W"
  "add_packets refs [] W = W"
  by (simp_all add: add_packets_def wb_start_def taken_def)

lemma send_to_share:
  "send_to refs chan rel (length (bytes_of b)) ci W =
     add_packets refs (share_packet (wb_start W) chan rel b ci) W"
  by (auto simp: send_to_def share_packet_def add_packets_def taken_def Let_def split: prod.splits)

lemma fold_send_to:
  "fold (send_to refs chan rel (length (bytes_of b))) cs W =
     add_packets refs (concat (map (share_packet (wb_start W) chan rel b) cs)) W"
  by (induction cs arbitrary: W) (simp_all add: send_to_share)

lemma map_indices: "map f xs = map (\<lambda>i. f (xs ! i)) [0..<length xs]"
  by (rule nth_equalityI) simp_all

lemma share_packet_log:
  assumes "knows_share (wb_start W) b c ci" "sorted (map sh_owner b)"
    and "wb_done W' = wb_done W @ bytes_of b @ bytes_of b" "wb_addr W' = wb_addr W"
  shows "map (packet_log W') (share_packet (wb_start W) chan rel b ci) =
           (if wc_ai ci \<or> others c b = [] then [] else [(wc_clientnum ci, chan, rel, others c b)])"
    and "\<forall>p\<in>set (share_packet (wb_start W) chan rel b ci). packet_inside W' p"
proof -
  obtain d where d: "own_part (wb_start W) (length (bytes_of b)) ci = (wb_start W + d, int (length (others c b)))"
      "take (length (others c b)) (drop d (bytes_of b @ bytes_of b)) = others c b"
      "d + length (others c b) \<le> 2 * length (bytes_of b)"
    using own_part_share [OF assms(1,2)] by blast
  have packet: "share_packet (wb_start W) chan rel b ci =
      (if wc_ai ci \<or> others c b = [] then []
       else [\<lparr>wp_client = wc_clientnum ci, wp_chan = chan, wp_reliable = rel,
              wp_data = wb_start W + d, wp_size = length (others c b)\<rparr>])"
    by (simp add: share_packet_def d(1))
  have at_d: "drop (wb_start W + d - wb_addr W') (wb_done W') = drop d (bytes_of b @ bytes_of b)"
    by (simp add: assms(3,4) wb_start_def)
  show "map (packet_log W') (share_packet (wb_start W) chan rel b ci) =
           (if wc_ai ci \<or> others c b = [] then [] else [(wc_clientnum ci, chan, rel, others c b)])"
    unfolding packet by (simp add: packet_log_def read_packet_def at_d d(2) del: take_append drop_append)
  show "\<forall>p\<in>set (share_packet (wb_start W) chan rel b ci). packet_inside W' p"
    unfolding packet using d(3) by (simp add: packet_inside_def assms(3,4) wb_start_def)
qed

text \<open>What the transport has been given, and what every step keeps of it.\<close>

definition sent_log :: "ws_build \<Rightarrow> (i32 \<times> nat \<times> bool \<times> u8 list) list" where
  "sent_log W = map (packet_log W) (wb_sent W)"

definition sent_ok :: "(ws_packet \<Rightarrow> nat) \<Rightarrow> ws_build \<Rightarrow> bool" where
  "sent_ok refs W \<longleftrightarrow> (\<forall>p\<in>set (wb_sent W). packet_inside W p) \<and> wb_uses W = taken refs (wb_sent W)"

lemma packet_log_later:
  assumes "packet_inside W p" "wb_addr W' = wb_addr W" "wb_done W' = wb_done W @ bs"
  shows "packet_log W' p = packet_log W p" "packet_inside W' p"
  using assms by (auto simp: packet_log_def read_packet_def packet_inside_def wb_start_def)

lemma knows_none:
  assumes "knows_share start b c ci" "own c b = [] \<or> start + length (bytes_of b) < start'" "start \<le> start'"
    "sorted (map sh_owner b)"
  shows "knows_share start' [] c ci"
proof (cases "own c b = []")
  case True
  then show ?thesis
    using assms(1,3) by (auto simp: knows_share_def own_def ptr_less_def split: option.splits)
next
  case False
  then show ?thesis
    using assms(1,2) bytes_three_parts [OF assms(4), of c] by (auto simp: knows_share_def own_def ptr_less_def)
qed

lemma block_log_Nil [simp]: "block_log cs chan rel [] n = []"
  by (simp add: block_log_def others_def own_def)

lemma send_block_eq:
  assumes "block_in (wb_buf W) b n" "bytes_of b \<noteq> []"
  shows "send_block refs chan rel W =
    (add_packets refs (concat (map (share_packet (wb_start W) chan rel b) (wb_clients W))) W)
      \<lparr>wb_recorded := wb_recorded W @ [(chan, bytes_of b)], wb_done := wb_done W @ bytes_of b @ bytes_of b,
       wb_buf := (let q = db_put_vals (bytes_of b) (wb_buf W) in db_offset (db_len q) q)\<rparr>"
proof -
  have len: "db_len (wb_buf W) = length (bytes_of b)" and block: "take (length (bytes_of b)) (db_buf (wb_buf W)) = bytes_of b"
    using assms(1) by (simp_all add: block_in_def)
  note q = block_in_double [OF assms(1)]
  show ?thesis
    using assms(2) q(1,3)
    by (simp add: send_block_def len block fold_send_to Let_def wb_start_def min_absorb1 add_packets_def)
qed

lemma concat_map_filter: "concat (map (\<lambda>c. if P c then [f c] else []) xs) = map f (filter P xs)"
  by (induction xs) auto

lemma send_block_result:
  fixes chan :: nat and rel :: bool
  assumes "gathering W b n" "sent_ok refs W"
  defines "W' \<equiv> send_block refs chan rel W"
  shows "gathering W' [] n" "sent_ok refs W'"
    and "sent_log W' = sent_log W @ block_log (wb_clients W) chan rel b (length (wb_clients W))"
    and "wb_recorded W' = wb_recorded W @ (if b = [] then [] else [(chan, bytes_of b)])"
    and "wb_clients W' = wb_clients W" "wb_addr W' = wb_addr W"
    "length (wb_done W') + db_maxlen (wb_buf W') = length (wb_done W) + db_maxlen (wb_buf W)"
proof -
  have block: "block_in (wb_buf W) b n" and sorted: "sorted (map sh_owner b)"
    and nonempty: "\<forall>s\<in>set b. sh_bytes s \<noteq> []"
    and knows: "\<And>c. c < length (wb_clients W) \<Longrightarrow> knows_share (wb_start W) b c (wb_clients W ! c)"
    using assms(1) by (auto simp: gathering_def)
  have all: "gathering W' [] n \<and> sent_ok refs W' \<and>
     sent_log W' = sent_log W @ block_log (wb_clients W) chan rel b (length (wb_clients W)) \<and>
     wb_recorded W' = wb_recorded W @ (if b = [] then [] else [(chan, bytes_of b)]) \<and> wb_clients W' = wb_clients W \<and>
     wb_addr W' = wb_addr W \<and>
     length (wb_done W') + db_maxlen (wb_buf W') = length (wb_done W) + db_maxlen (wb_buf W)"
  proof (cases b)
    case Nil
    then have "W' = W"
      using block by (simp add: W'_def send_block_def block_in_def)
    then show ?thesis
      using assms(1,2) Nil by simp
  next
    case (Cons s ss)
    then have filled: "bytes_of b \<noteq> []" "b \<noteq> []"
      using nonempty by auto
    let ?ps = "concat (map (share_packet (wb_start W) chan rel b) (wb_clients W))"
    note W' = W'_def [unfolded send_block_eq [OF block filled(1)]]
    have upd: "wb_done W' = wb_done W @ bytes_of b @ bytes_of b" "wb_addr W' = wb_addr W"
      "wb_clients W' = wb_clients W" "wb_sent W' = wb_sent W @ ?ps" "wb_start W < wb_start W'"
      using filled by (simp_all add: W' wb_start_def)
    have log: "map (packet_log W') ?ps = block_log (wb_clients W) chan rel b (length (wb_clients W))"
      and inside: "\<forall>p\<in>set ?ps. packet_inside W' p"
    proof -
      let ?cs = "wb_clients W"
      have ps: "?ps = concat (map (\<lambda>c. share_packet (wb_start W) chan rel b (?cs ! c)) [0..<length ?cs])"
        by (subst map_indices) (rule refl)
      note one = share_packet_log [OF knows sorted upd(1,2), where chan = chan and rel = rel]
      have "map (packet_log W') ?ps = concat (map (\<lambda>c. if \<not> wc_ai (?cs ! c) \<and> others c b \<noteq> []
          then [(wc_clientnum (?cs ! c), chan, rel, others c b)] else []) [0..<length ?cs])"
        unfolding ps map_concat map_map comp_def by (rule arg_cong [of _ _ concat], rule map_cong) (auto simp: one(1))
      then show "map (packet_log W') ?ps = block_log ?cs chan rel b (length ?cs)"
        by (simp only: concat_map_filter block_log_def)
      show "\<forall>p\<in>set ?ps. packet_inside W' p"
        unfolding ps using one(2) by auto
    qed
    have "knows_share (wb_start W') [] c (wb_clients W' ! c)" if "c < length (wb_clients W')" for c
      using that knows_none [OF knows _ _ sorted] filled by (simp add: W' wb_start_def)
    then have "gathering W' [] n"
      using block_in_double(4) [OF block] by (simp add: gathering_def W' Let_def)
    moreover have "sent_ok refs W'"
      using assms(2) inside packet_log_later(2) [OF _ upd(2,1)] by (auto simp: sent_ok_def upd(4) W' taken_def)
    moreover have "sent_log W' = sent_log W @ block_log (wb_clients W) chan rel b (length (wb_clients W))"
      using log assms(2) packet_log_later(1) [OF _ upd(2,1)] by (simp add: sent_log_def sent_ok_def upd(4))
    moreover have "length (wb_done W') + db_maxlen (wb_buf W') = length (wb_done W) + db_maxlen (wb_buf W)"
      unfolding W' db_offset_def Let_def using block_in_double(2,3) [OF block] by simp
    moreover have "wb_recorded W' = wb_recorded W @ [(chan, bytes_of b)]"
      by (simp add: W')
    ultimately show ?thesis
      using filled upd(2,3) by simp
  qed
  then show "gathering W' [] n" "sent_ok refs W'"
    and "sent_log W' = sent_log W @ block_log (wb_clients W) chan rel b (length (wb_clients W))"
    and "wb_recorded W' = wb_recorded W @ (if b = [] then [] else [(chan, bytes_of b)])"
    and "wb_clients W' = wb_clients W" "wb_addr W' = wb_addr W"
    "length (wb_done W') + db_maxlen (wb_buf W') = length (wb_done W) + db_maxlen (wb_buf W)"
    by simp_all
qed

subsection \<open>Gathering shares\<close>

text \<open>
  Positions and messages are gathered in the same way.  \<open>add\<close> appends what \<open>f\<close> gives for a client
  to the block and forgets it (\<open>clear\<close>); \<open>keep\<close> is what it leaves of a client.
\<close>

definition put_share :: "(ws_client \<Rightarrow> ws_client) \<Rightarrow> nat \<Rightarrow> nat \<Rightarrow> u8 list \<Rightarrow> ws_build \<Rightarrow> ws_build" where
  "put_share clear c b bs W =
     own_bytes (db_len (wb_buf W)) c
       (W\<lparr>wb_buf := db_put_vals bs (wb_buf W), wb_clients := (wb_clients W)[b := clear (wb_clients W ! b)]\<rparr>)"

lemma own_snoc: "own c (b @ [s]) = own c b @ (if sh_owner s = c then sh_bytes s else [])"
  by (simp add: own_def)

lemma before_snoc: "before c (b @ [s]) = before c b @ (if sh_owner s < c then sh_bytes s else [])"
  by (simp add: before_def)

lemma own_above: "\<forall>s\<in>set b. sh_owner s < c \<Longrightarrow> own c b = []"
  by (induction b) (auto simp: own_def)

lemma before_all: "\<forall>s\<in>set b. sh_owner s \<le> c \<Longrightarrow> own c b = [] \<Longrightarrow> \<forall>s\<in>set b. sh_bytes s \<noteq> [] \<Longrightarrow> before c b = bytes_of b"
proof (induction b)
  case (Cons s b)
  then have "sh_owner s \<noteq> c"
    by (auto simp: own_def split: if_splits)
  with Cons show ?case
    by (auto simp: own_def before_def)
qed (simp add: before_def)

lemma put_share_gathering:
  fixes i :: nat
  assumes "gathering W b n" "sh_owner s = c" "\<forall>s'\<in>set b. sh_owner s' \<le> c" "c < length (wb_clients W)"
    and "sh_bytes s \<noteq> []" "length (sh_bytes s) \<le> n"
    and clear: "\<And>ci. wc_wsdata (clear ci) = wc_wsdata ci" "\<And>ci. wc_wslen (clear ci) = wc_wslen ci"
  defines "W' \<equiv> put_share clear c i (sh_bytes s) W"
  shows "gathering W' (b @ [s]) (n - length (sh_bytes s))"
    and "wb_sent W' = wb_sent W" "wb_uses W' = wb_uses W" "wb_recorded W' = wb_recorded W"
    and "wb_done W' = wb_done W" "wb_addr W' = wb_addr W" "wb_start W' = wb_start W"
proof -
  let ?cs = "(wb_clients W)[i := clear (wb_clients W ! i)]"
  have same: "wc_wsdata (?cs ! j) = wc_wsdata (wb_clients W ! j)" "wc_wslen (?cs ! j) = wc_wslen (wb_clients W ! j)"
    if "j < length (wb_clients W)" for j
    using that clear by (cases "i = j"; simp)+
  have ins: "block_in (wb_buf W) b n" "sorted (map sh_owner b)" "\<forall>s\<in>set b. sh_bytes s \<noteq> []"
    and knows: "\<And>j. j < length (wb_clients W) \<Longrightarrow> knows_share (wb_start W) b j (?cs ! j)"
    using assms(1) by (simp_all add: gathering_def knows_share_def same)
  have len: "db_len (wb_buf W) = length (bytes_of b)"
    using ins(1) by (simp add: block_in_def)
  have put: "block_in (db_put_vals (sh_bytes s) (wb_buf W)) (b @ [s]) (n - length (sh_bytes s))"
    using ins(1) assms(6) by (rule block_in_put)
  have added: "db_len (db_put_vals (sh_bytes s) (wb_buf W)) - length (bytes_of b) = length (sh_bytes s)"
    using put by (simp add: block_in_def)
  define ci where "ci = ?cs ! c"
  define ci' where "ci' = (if ptr_less (wc_wsdata ci) (wb_start W)
      then ci\<lparr>wc_wsdata := Some (wb_start W + length (bytes_of b)), wc_wslen := length (sh_bytes s)\<rparr>
      else ci\<lparr>wc_wslen := wc_wslen ci + length (sh_bytes s)\<rparr>)"
  have W': "W' = W\<lparr>wb_buf := db_put_vals (sh_bytes s) (wb_buf W), wb_clients := ?cs[c := ci']\<rparr>"
    by (simp add: W'_def put_share_def own_bytes_def len added ci_def ci'_def Let_def)
  have mine: "knows_share (wb_start W) (b @ [s]) c ci'"
  proof (cases "own c b = []")
    case True
    then show ?thesis
      using knows [OF assms(4)] assms(2,5) before_all [OF assms(3) True ins(3)]
      by (auto simp: knows_share_def own_snoc before_snoc ci'_def ci_def)
  next
    case False
    then show ?thesis
      using knows [OF assms(4)] assms(2) by (simp add: knows_share_def own_snoc before_snoc ci'_def ci_def ptr_less_def)
  qed
  have "knows_share (wb_start W) (b @ [s]) j (?cs ! j)" if "j < length (wb_clients W)" "j \<noteq> c" for j
  proof -
    have "j < c" if "own j b \<noteq> []"
      using that \<open>j \<noteq> c\<close> own_above [of b j] assms(3) by force
    then show ?thesis
      using knows [OF that(1)] that(2) assms(2) by (auto simp: knows_share_def own_snoc before_snoc)
  qed
  then have "knows_share (wb_start W) (b @ [s]) j (?cs[c := ci'] ! j)" if "j < length (wb_clients W)" for j
    using that mine by (cases "j = c") simp_all
  then show "gathering W' (b @ [s]) (n - length (sh_bytes s))"
    using put ins(2,3) assms(2,3,5) by (simp add: gathering_def W' sorted_append)
  show "wb_sent W' = wb_sent W" "wb_uses W' = wb_uses W" "wb_recorded W' = wb_recorded W"
    "wb_done W' = wb_done W" "wb_addr W' = wb_addr W" "wb_start W' = wb_start W"
    by (simp_all add: W' wb_start_def)
qed

lemma put_share_clients:
  "\<exists>p n. wb_clients (put_share clear c i bs W) =
     (let cs = (wb_clients W)[i := clear (wb_clients W ! i)] in cs[c := (cs ! c)\<lparr>wc_wsdata := p, wc_wslen := n\<rparr>])"
proof -
  have same: "ci\<lparr>wc_wslen := n\<rparr> = ci\<lparr>wc_wsdata := wc_wsdata ci, wc_wslen := n\<rparr>" for ci :: ws_client and n
    by simp
  show ?thesis
    unfolding put_share_def own_bytes_def Let_def by (auto intro!: exI arg_cong [OF same])
qed

text \<open>The blocks that have been sent since \<open>W0\<close>.\<close>

definition logged :: "ws_client list \<Rightarrow> nat \<Rightarrow> bool \<Rightarrow> ws_build \<Rightarrow> ws_share list list \<Rightarrow> ws_build \<Rightarrow> bool" where
  "logged cs chan rel W0 bs W \<longleftrightarrow>
     sent_log W = sent_log W0 @ concat (map (\<lambda>b. block_log cs chan rel b (length cs)) bs) \<and>
     wb_recorded W = wb_recorded W0 @ map (\<lambda>b. (chan, bytes_of b)) (filter (\<lambda>b. b \<noteq> []) bs) \<and>
     wb_addr W = wb_addr W0 \<and> length (wb_done W) + db_maxlen (wb_buf W) = length (wb_done W0) + db_maxlen (wb_buf W0)"

lemma sorted_map_same: "\<forall>x\<in>set xs. g x = c \<Longrightarrow> sorted (map g xs)"
  by (induction xs) auto

locale share_adder =
  fixes add :: "nat \<Rightarrow> nat \<Rightarrow> ws_build \<Rightarrow> ws_build"
    and f :: "ws_client \<Rightarrow> u8 list" and room :: "ws_client \<Rightarrow> nat" and clear :: "ws_client \<Rightarrow> ws_client"
    and keep :: "ws_client \<Rightarrow> ws_client"
    and refs :: "ws_packet \<Rightarrow> nat" and chan :: nat and rel :: bool and mtu :: int
  assumes add_nothing: "f (wb_clients W ! b) = [] \<Longrightarrow> add c b W = W"
    and add_share: "f (wb_clients W ! b) \<noteq> [] \<Longrightarrow>
          V = (if int (db_len (wb_buf W) + room (wb_clients W ! b)) > mtu then send_block refs chan rel W else W) \<Longrightarrow>
          wb_clients V = wb_clients W \<Longrightarrow>
          databuf_ok (wb_buf V) \<Longrightarrow> db_len (wb_buf V) + length (f (wb_clients W ! b)) \<le> db_maxlen (wb_buf V) \<Longrightarrow>
          add c b W = put_share clear c b (f (wb_clients W ! b)) V"
    and clear_same: "wc_wsdata (clear ci) = wc_wsdata ci" "wc_wslen (clear ci) = wc_wslen ci"
      "f (clear ci) = []" "keep (clear ci) = keep ci"
    and keep_same: "keep (ci\<lparr>wc_wsdata := p, wc_wslen := n\<rparr>) = keep ci" "f (ci\<lparr>wc_wsdata := p, wc_wslen := n\<rparr>) = f ci"
      "room (ci\<lparr>wc_wsdata := p, wc_wslen := n\<rparr>) = room ci"
    and keep_roster: "wc_clientnum (keep ci) = wc_clientnum ci" "wc_ai (keep ci) = wc_ai ci" "wc_bots (keep ci) = wc_bots ci"
begin

lemma block_log_keep:
  assumes "map keep cs = map keep cs'"
  shows "block_log cs chan rel b (length cs) = block_log cs' chan rel b (length cs')"
proof -
  have len: "length cs = length cs'"
    using assms by (rule map_eq_imp_length_eq)
  have "keep (cs ! c) = keep (cs' ! c)" if "c < length cs'" for c
    using assms that len by (metis nth_map)
  then have "wc_clientnum (cs ! c) = wc_clientnum (cs' ! c) \<and> wc_ai (cs ! c) = wc_ai (cs' ! c)" if "c < length cs'" for c
    using that keep_roster by metis
  then show ?thesis
    by (auto simp: block_log_def len intro!: map_cong filter_cong)
qed

lemma put_share_keep:
  "map keep (wb_clients (put_share clear c i bs W)) = map keep (wb_clients W)"
  "j < length (wb_clients W) \<Longrightarrow> f (wb_clients (put_share clear c i bs W) ! j) = (if j = i then [] else f (wb_clients W ! j))"
  "j < length (wb_clients W) \<Longrightarrow> j \<noteq> i \<Longrightarrow> room (wb_clients (put_share clear c i bs W) ! j) = room (wb_clients W ! j)"
proof -
  let ?cs = "(wb_clients W)[i := clear (wb_clients W ! i)]"
  obtain p n where cs': "wb_clients (put_share clear c i bs W) = ?cs[c := (?cs ! c)\<lparr>wc_wsdata := p, wc_wslen := n\<rparr>]"
    using put_share_clients [of clear c i bs W] by (auto simp: Let_def)
  have "map keep (xs[k := x]) = map keep xs" if "keep x = keep (xs ! k)" for xs k x
    by (cases "k < length xs") (auto intro!: nth_equalityI simp: nth_list_update that)
  then show "map keep (wb_clients (put_share clear c i bs W)) = map keep (wb_clients W)"
    by (simp add: cs' clear_same keep_same)
  show "f (wb_clients (put_share clear c i bs W) ! j) = (if j = i then [] else f (wb_clients W ! j))"
    if "j < length (wb_clients W)"
    unfolding cs' using that by (cases "j = c"; cases "j = i"; cases "c = i") (simp_all add: clear_same keep_same)
  show "room (wb_clients (put_share clear c i bs W) ! j) = room (wb_clients W ! j)"
    if "j < length (wb_clients W)" "j \<noteq> i"
    unfolding cs' using that by (cases "j = c"; cases "c = i") (simp_all add: clear_same keep_same)
qed

lemma send_logged:
  assumes "gathering W b n" "sent_ok refs W" "map keep (wb_clients W) = map keep cs" "logged cs chan rel W0 bs W"
  shows "logged cs chan rel W0 (bs @ [b]) (send_block refs chan rel W)"
  using send_block_result [OF assms(1,2), of chan rel] assms(4) block_log_keep [OF assms(3)]
  by (simp add: logged_def)

lemma put_logged:
  "sent_log (put_share clear c i bs W) = sent_log W" "sent_ok refs (put_share clear c i bs W) = sent_ok refs W"
  "logged cs chan rel W0 bls (put_share clear c i bs W) = logged cs chan rel W0 bls W"
proof -
  let ?W = "put_share clear c i bs W"
  have same: "wb_sent ?W = wb_sent W" "wb_addr ?W = wb_addr W" "wb_done ?W = wb_done W" "wb_uses ?W = wb_uses W"
    "wb_recorded ?W = wb_recorded W" "db_maxlen (wb_buf ?W) = db_maxlen (wb_buf W)"
    by (simp_all add: put_share_def own_bytes_def Let_def)
  then show log: "sent_log ?W = sent_log W" and "sent_ok refs ?W = sent_ok refs W"
    by (simp_all add: sent_log_def packet_log_def [abs_def] read_packet_def sent_ok_def packet_inside_def wb_start_def)
  show "logged cs chan rel W0 bls ?W = logged cs chan rel W0 bls W"
    by (simp add: logged_def log same)
qed

text \<open>One share: it joins the block, or the block is sent first.\<close>

lemma add_step:
  assumes W: "gathering W b n" "sent_ok refs W" "map keep (wb_clients W) = map keep cs" "logged cs chan rel W0 bs W"
    and job: "c < length cs" "i < length cs" "\<forall>s\<in>set b. sh_owner s \<le> c"
    and same: "f (wb_clients W ! i) = f (cs ! i)" "room (wb_clients W ! i) = room (cs ! i)"
    and fits: "f (cs ! i) \<noteq> []" "length (f (cs ! i)) \<le> n"
  defines "s \<equiv> share_of f room cs (c, i)" and "W' \<equiv> add c i W"
  defines "full \<equiv> int (length (bytes_of b) + sh_room s) > mtu"
  shows "gathering W' (if full then [s] else b @ [s]) (n - length (f (cs ! i)))" "sent_ok refs W'"
    and "map keep (wb_clients W') = map keep cs" "logged cs chan rel W0 (if full then bs @ [b] else bs) W'"
    and "\<And>j. j < length cs \<Longrightarrow> f (wb_clients W' ! j) = (if j = i then [] else f (wb_clients W ! j))"
    and "\<And>j. j < length cs \<Longrightarrow> j \<noteq> i \<Longrightarrow> room (wb_clients W' ! j) = room (wb_clients W ! j)"
proof -
  have len: "db_len (wb_buf W) = length (bytes_of b)" "length (wb_clients W) = length cs"
    using W(1) map_eq_imp_length_eq [OF W(3)] by (auto simp: gathering_def block_in_def)
  have s: "sh_owner s = c" "sh_room s = room (cs ! i)" "sh_bytes s = f (cs ! i)"
    by (simp_all add: s_def share_of_def)
  define V where "V = (if full then send_block refs chan rel W else W)"
  define b' where "b' = (if full then [] else b)"
  note sent = send_block_result [OF W(1,2), of chan rel]
  have V: "gathering V b' n" "sent_ok refs V" "wb_clients V = wb_clients W"
    "logged cs chan rel W0 (if full then bs @ [b] else bs) V"
    using W sent(1,2,5) send_logged [OF W] by (auto simp: V_def b'_def)
  have room: "databuf_ok (wb_buf V)" "db_len (wb_buf V) + length (f (cs ! i)) \<le> db_maxlen (wb_buf V)"
    using V(1) fits(2) by (auto simp: gathering_def block_in_def)
  have W': "W' = put_share clear c i (sh_bytes s) V"
    unfolding W'_def s using fits room V(3)
    by (subst add_share [of W i V]) (simp_all add: same V_def full_def s len(1))
  have "gathering W' (b' @ [s]) (n - length (sh_bytes s))"
    unfolding W' using V(1) s(1) job fits clear_same
    by (intro put_share_gathering) (simp_all add: s b'_def V(3) len)
  then show "gathering W' (if full then [s] else b @ [s]) (n - length (f (cs ! i)))"
    by (simp add: b'_def s split: if_splits)
  show "sent_ok refs W'" "logged cs chan rel W0 (if full then bs @ [b] else bs) W'"
    "map keep (wb_clients W') = map keep cs"
    using V(2,3,4) W(3) by (simp_all add: W' put_logged put_share_keep)
  show "f (wb_clients W' ! j) = (if j = i then [] else f (wb_clients W ! j))" if "j < length cs" for j
    using that by (simp add: W' put_share_keep V(3) len)
  show "room (wb_clients W' ! j) = room (wb_clients W ! j)" if "j < length cs" "j \<noteq> i" for j
    using that by (simp add: W' put_share_keep V(3) len)
qed

text \<open>All jobs of a client, and then of all clients.\<close>

definition amount :: "ws_client list \<Rightarrow> (nat \<times> nat) list \<Rightarrow> nat" where
  "amount cs js = sum_list (map (\<lambda>j. length (f (cs ! snd j))) js)"

lemma run_jobs:
  assumes "gathering W b (amount cs js + m)" "sent_ok refs W" "map keep (wb_clients W) = map keep cs"
    "logged cs chan rel W0 bs W"
    and "distinct (map snd js)" "\<forall>j\<in>set js. fst j < length cs \<and> snd j < length cs" "sorted (map fst js)"
    and "\<forall>s\<in>set b. \<forall>j\<in>set js. sh_owner s \<le> fst j"
    and "\<forall>j\<in>set js. f (wb_clients W ! snd j) = f (cs ! snd j) \<and> room (wb_clients W ! snd j) = room (cs ! snd j)"
  defines "W' \<equiv> fold (\<lambda>j. add (fst j) (snd j)) js W" and "bs' \<equiv> packed mtu b (share_list f room cs js)"
  shows "gathering W' (last bs') m \<and> sent_ok refs W' \<and> map keep (wb_clients W') = map keep cs \<and>
     logged cs chan rel W0 (bs @ butlast bs') W' \<and>
     (\<forall>i<length cs. f (wb_clients W' ! i) = (if i \<in> snd ` set js then [] else f (wb_clients W ! i))) \<and>
     (\<forall>i<length cs. i \<notin> snd ` set js \<longrightarrow> room (wb_clients W' ! i) = room (wb_clients W ! i)) \<and>
     (\<forall>s\<in>set (last bs'). s \<in> set b \<or> sh_owner s \<in> fst ` set js)"
  using assms(1-9) unfolding W'_def bs'_def
proof (induction js arbitrary: W b bs)
  case Nil
  then show ?case
    by (simp add: amount_def share_list_def)
next
  case (Cons j js)
  show ?case
  proof (cases "f (cs ! snd j) = []")
    case True
    then have "add (fst j) (snd j) W = W"
      using Cons.prems(9) by (intro add_nothing) simp
    then show ?thesis
      using Cons.IH [of W b bs] Cons.prems True by (auto simp: amount_def share_list_def)
  next
    case False
    let ?s = "share_of f room cs (fst j, snd j)"
    let ?b = "if int (length (bytes_of b) + sh_room ?s) > mtu then [?s] else b @ [?s]"
    let ?bs = "if int (length (bytes_of b) + sh_room ?s) > mtu then bs @ [b] else bs"
    let ?W = "add (fst j) (snd j) W"
    have same: "f (wb_clients W ! snd j) = f (cs ! snd j)" "room (wb_clients W ! snd j) = room (cs ! snd j)"
      and job: "fst j < length cs" "snd j < length cs" "\<forall>s\<in>set b. sh_owner s \<le> fst j"
      and fresh: "snd j \<notin> snd ` set js"
      using Cons.prems(5,6,8,9) by auto
    note step = add_step [OF Cons.prems(1-4) job same False]
    have W: "gathering ?W ?b (amount cs js + m)" "sent_ok refs ?W" "map keep (wb_clients ?W) = map keep cs"
      "logged cs chan rel W0 ?bs ?W"
      using step(1-4) by (simp_all add: amount_def)
    have f: "f (wb_clients ?W ! i) = (if i = snd j then [] else f (wb_clients W ! i))" if "i < length cs" for i
      using step(5) that by (simp add: amount_def)
    have r: "room (wb_clients ?W ! i) = room (wb_clients W ! i)" if "i < length cs" "i \<noteq> snd j" for i
      using step(6) that by (simp add: amount_def)
    have rest: "distinct (map snd js)" "\<forall>j\<in>set js. fst j < length cs \<and> snd j < length cs" "sorted (map fst js)"
      "\<forall>s\<in>set ?b. \<forall>j\<in>set js. sh_owner s \<le> fst j"
      using Cons.prems(5-8) by (auto simp: share_of_def)
    have others: "\<forall>j\<in>set js. f (wb_clients ?W ! snd j) = f (cs ! snd j) \<and> room (wb_clients ?W ! snd j) = room (cs ! snd j)"
    proof
      fix j' assume j': "j' \<in> set js"
      then have j'': "snd j' \<noteq> snd j" "snd j' < length cs"
        using fresh rest(2) imageI [OF j', of snd] by (metis, blast)
      then show "f (wb_clients ?W ! snd j') = f (cs ! snd j') \<and> room (wb_clients ?W ! snd j') = room (cs ! snd j')"
        using Cons.prems(9) j' j'' by (simp add: f r)
    qed
    have packed: "packed mtu b (share_list f room cs (j # js)) =
        (if int (length (bytes_of b) + sh_room ?s) > mtu then [b] else []) @ packed mtu ?b (share_list f room cs js)"
      using False by (simp add: share_list_def)
    let ?bl = "packed mtu ?b (share_list f room cs js)"
    have blocks: "last (packed mtu b (share_list f room cs (j # js))) = last ?bl"
      "bs @ butlast (packed mtu b (share_list f room cs (j # js))) = ?bs @ butlast ?bl"
      by (simp_all add: packed butlast_append)
    note IH = Cons.IH [OF W rest others]
    have "s \<in> set b \<or> sh_owner s \<in> fst ` set (j # js)" if "s \<in> set (last ?bl)" for s
    proof -
      have "s \<in> set ?b \<or> sh_owner s \<in> fst ` set js"
        using IH that by blast
      moreover have "set ?b \<subseteq> insert ?s (set b)" "sh_owner ?s = fst j"
        by (auto simp: share_of_def)
      ultimately show ?thesis
        by auto
    qed
    moreover have "f (wb_clients (fold (\<lambda>j. add (fst j) (snd j)) js ?W) ! i) =
        (if i \<in> snd ` set (j # js) then [] else f (wb_clients W ! i))" if "i < length cs" for i
      using IH that f fresh by simp
    moreover have "room (wb_clients (fold (\<lambda>j. add (fst j) (snd j)) js ?W) ! i) = room (wb_clients W ! i)"
      if "i < length cs" "i \<notin> snd ` set (j # js)" for i
      using IH that r by simp
    ultimately show ?thesis
      using IH unfolding blocks fold.simps comp_def by (intro conjI) simp_all
  qed
qed

lemma run_clients:
  assumes "gathering W b (amount cs (jobs cs ns) + m)" "sent_ok refs W" "map keep (wb_clients W) = map keep cs"
    "logged cs chan rel W0 bs W"
    and "distinct (map snd (jobs cs ns))" "\<forall>j\<in>set (jobs cs ns). snd j < length cs" "sorted ns" "\<forall>n\<in>set ns. n < length cs"
    "distinct ns"
    and "\<forall>s\<in>set b. \<forall>n\<in>set ns. sh_owner s \<le> n"
    and "\<forall>j\<in>set (jobs cs ns). f (wb_clients W ! snd j) = f (cs ! snd j) \<and> room (wb_clients W ! snd j) = room (cs ! snd j)"
  defines "W' \<equiv> fold (gather add) ns W" and "bs' \<equiv> packed mtu b (share_list f room cs (jobs cs ns))"
  shows "gathering W' (last bs') m \<and> sent_ok refs W' \<and> map keep (wb_clients W') = map keep cs \<and>
     logged cs chan rel W0 (bs @ butlast bs') W' \<and>
     (\<forall>i<length cs. f (wb_clients W' ! i) = (if i \<in> snd ` set (jobs cs ns) then [] else f (wb_clients W ! i)))"
  using assms(1-11) unfolding W'_def bs'_def
proof (induction ns arbitrary: W b bs)
  case Nil
  then show ?case
    by (simp add: amount_def share_list_def jobs_def)
next
  case (Cons n ns)
  let ?js = "client_jobs cs n"
  let ?W = "fold (\<lambda>j. add (fst j) (snd j)) ?js W"
  let ?bl = "packed mtu b (share_list f room cs ?js)"
  have split: "jobs cs (n # ns) = ?js @ jobs cs ns"
    by (simp add: jobs_def)
  have owners: "fst ` set ?js \<subseteq> {n}" "\<forall>j\<in>set ?js. fst j = n" "sorted (map fst ?js)"
    by (auto simp: client_jobs_def comp_def intro: sorted_map_same)
  have "keep (wb_clients W ! n) = keep (cs ! n)"
    using Cons.prems(3,8) by (metis list.set_intros(1) map_eq_imp_length_eq nth_map)
  then have "wc_ai (wb_clients W ! n) = wc_ai (cs ! n)" "wc_bots (wb_clients W ! n) = wc_bots (cs ! n)"
    using keep_roster by metis+
  then have gather: "gather add n W = ?W"
    by (simp add: gather_def client_jobs_def Let_def fold_map comp_def)
  have run: "gathering ?W (last ?bl) (amount cs (jobs cs ns) + m) \<and> sent_ok refs ?W \<and> map keep (wb_clients ?W) = map keep cs \<and>
     logged cs chan rel W0 (bs @ butlast ?bl) ?W \<and>
     (\<forall>i<length cs. f (wb_clients ?W ! i) = (if i \<in> snd ` set ?js then [] else f (wb_clients W ! i))) \<and>
     (\<forall>i<length cs. i \<notin> snd ` set ?js \<longrightarrow> room (wb_clients ?W ! i) = room (wb_clients W ! i)) \<and>
     (\<forall>s\<in>set (last ?bl). s \<in> set b \<or> sh_owner s \<in> fst ` set ?js)"
    using Cons.prems owners unfolding split
    by (intro run_jobs) (auto simp: amount_def add.assoc)
  have disjoint: "snd ` set ?js \<inter> snd ` set (jobs cs ns) = {}"
    using Cons.prems(5) by (simp add: split)
  have next_b: "\<forall>s\<in>set (last ?bl). \<forall>n'\<in>set ns. sh_owner s \<le> n'"
    using run owners(1) Cons.prems(7,10) by fastforce
  have next_f: "\<forall>j\<in>set (jobs cs ns). f (wb_clients ?W ! snd j) = f (cs ! snd j) \<and> room (wb_clients ?W ! snd j) = room (cs ! snd j)"
  proof
    fix j assume j: "j \<in> set (jobs cs ns)"
    then have "snd j \<notin> snd ` set ?js" "snd j < length cs"
      using disjoint Cons.prems(6) by (auto simp: split)
    then show "f (wb_clients ?W ! snd j) = f (cs ! snd j) \<and> room (wb_clients ?W ! snd j) = room (cs ! snd j)"
      using run Cons.prems(11) j by (simp add: split)
  qed
  have blocks: "packed mtu b (share_list f room cs (jobs cs (n # ns))) =
      butlast ?bl @ packed mtu (last ?bl) (share_list f room cs (jobs cs ns))"
    by (simp add: split share_list_def packed_append)
  have IH: "gathering (fold (gather add) ns ?W) (last (packed mtu (last ?bl) (share_list f room cs (jobs cs ns)))) m \<and>
      sent_ok refs (fold (gather add) ns ?W) \<and> map keep (wb_clients (fold (gather add) ns ?W)) = map keep cs \<and>
      logged cs chan rel W0 ((bs @ butlast ?bl) @ butlast (packed mtu (last ?bl) (share_list f room cs (jobs cs ns))))
        (fold (gather add) ns ?W) \<and>
     (\<forall>i<length cs. f (wb_clients (fold (gather add) ns ?W) ! i) =
        (if i \<in> snd ` set (jobs cs ns) then [] else f (wb_clients ?W ! i)))"
    using run Cons.prems next_b next_f by (intro Cons.IH) (simp_all add: split)
  have "f (wb_clients (fold (gather add) (n # ns) W) ! i) =
      (if i \<in> snd ` set (jobs cs (n # ns)) then [] else f (wb_clients W ! i))" if "i < length cs" for i
    using IH run that by (simp add: gather split image_Un)
  then show ?case
    using IH by (simp add: gather blocks butlast_append)
qed

lemma phase:
  assumes "gathering W [] (amount cs (jobs cs [0..<length cs]) + m)" "sent_ok refs W" "map keep (wb_clients W) = map keep cs"
    and "distinct (map snd (jobs cs [0..<length cs]))" "\<forall>j\<in>set (jobs cs [0..<length cs]). snd j < length cs"
    and "\<forall>i<length cs. f (wb_clients W ! i) = f (cs ! i) \<and> room (wb_clients W ! i) = room (cs ! i)"
  defines "W' \<equiv> send_block refs chan rel (fold (gather add) [0..<length cs] W)"
  shows "gathering W' [] m" "sent_ok refs W'" "map keep (wb_clients W') = map keep cs"
    and "logged cs chan rel W (packed mtu [] (shares f room cs)) W'"
    and "\<And>i. i \<in> snd ` set (jobs cs [0..<length cs]) \<Longrightarrow> f (wb_clients W' ! i) = []"
proof -
  let ?V = "fold (gather add) [0..<length cs] W"
  let ?bs = "packed mtu [] (shares f room cs)"
  have none: "logged cs chan rel W [] W"
    by (simp add: logged_def)
  have V: "gathering ?V (last ?bs) m \<and> sent_ok refs ?V \<and> map keep (wb_clients ?V) = map keep cs \<and>
     logged cs chan rel W ([] @ butlast ?bs) ?V \<and>
     (\<forall>i<length cs. f (wb_clients ?V ! i) = (if i \<in> snd ` set (jobs cs [0..<length cs]) then [] else f (wb_clients W ! i)))"
    using assms(5,6) unfolding shares_def
    by (intro run_clients assms(1-5) none) auto
  note sent = send_block_result [OF conjunct1 [OF V], of refs chan rel]
  show "gathering W' [] m" "sent_ok refs W'"
    using V sent(1,2) by (simp_all add: W'_def)
  have same: "wb_clients W' = wb_clients ?V"
    using V sent(5) by (simp add: W'_def)
  then show "map keep (wb_clients W') = map keep cs"
    using V by simp
  have "logged cs chan rel W ((butlast ?bs) @ [last ?bs]) W'"
    using V send_logged [of ?V "last ?bs" m cs W "butlast ?bs"] by (simp add: W'_def)
  then show "logged cs chan rel W ?bs W'"
    by simp
  show "f (wb_clients W' ! i) = []" if "i \<in> snd ` set (jobs cs [0..<length cs])" for i
  proof -
    have "i < length cs"
      using that assms(5) by auto
    then show ?thesis
      using V that by (simp add: same)
  qed
qed

end

text \<open>Both kinds of shares are gathered this way.\<close>

definition keep_messages :: "ws_client \<Rightarrow> ws_client" where
  "keep_messages ci = ci\<lparr>wc_position := [], wc_wsdata := None, wc_wslen := 0\<rparr>"

definition keep_positions :: "ws_client \<Rightarrow> ws_client" where
  "keep_positions ci = ci\<lparr>wc_messages := [], wc_wsdata := None, wc_wslen := 0\<rparr>"

lemma db_put_vals_append:
  "databuf_ok p \<Longrightarrow> db_len p + length (as @ bs) \<le> db_maxlen p \<Longrightarrow>
     db_put_vals bs (db_put_vals as p) = db_put_vals (as @ bs) p"
  by (simp add: db_put_vals_fits databuf_ok_def min_absorb2 ac_simps)

lemma db_put_vals_ok: "databuf_ok p \<Longrightarrow> db_len p + length bs \<le> db_maxlen p \<Longrightarrow>
    databuf_ok (db_put_vals bs p) \<and> db_len (db_put_vals bs p) = db_len p + length bs \<and>
    db_maxlen (db_put_vals bs p) = db_maxlen p"
  by (simp add: db_put_vals_fits databuf_ok_def)

lemma db_put_vals_one: "databuf_ok p \<Longrightarrow> db_len p < db_maxlen p \<Longrightarrow> db_put v p = db_put_vals [v] p"
  by (simp add: db_put_def db_put_vals_fits databuf_ok_def upd_conv_take_nth_drop)

lemma db_put_all_vals:
  "databuf_ok p \<Longrightarrow> db_len p + length bs \<le> db_maxlen p \<Longrightarrow> db_put_all bs p = db_put_vals bs p"
proof (induction bs arbitrary: p)
  case Nil
  then show ?case
    by (simp add: db_put_all_def db_put_vals_fits)
next
  case (Cons v bs)
  then have "db_put_all (v # bs) p = db_put_all bs (db_put_vals [v] p)"
    by (simp add: db_put_all_def db_put_vals_one)
  also have "\<dots> = db_put_vals bs (db_put_vals [v] p)"
    using Cons.prems by (intro Cons.IH) (simp_all add: db_put_vals_ok)
  also have "\<dots> = db_put_vals (v # bs) p"
    using db_put_vals_append [of p "[v]" bs] Cons.prems by simp
  finally show ?case .
qed

interpretation positions: share_adder "addposition refs mtu" wc_position "\<lambda>ci. length (wc_position ci)"
    "\<lambda>ci. ci\<lparr>wc_position := []\<rparr>" keep_messages refs 0 False mtu for refs mtu
  by unfold_locales (auto simp: addposition_def put_share_def keep_messages_def sendpositions_def Let_def)

interpretation messages: share_adder "addmessages refs rel mtu" message_bytes "\<lambda>ci. 10 + length (wc_messages ci)"
    "\<lambda>ci. ci\<lparr>wc_messages := []\<rparr>" keep_positions refs 1 rel mtu for refs rel mtu
proof unfold_locales
  fix W V c b
  assume "message_bytes (wb_clients W ! b) \<noteq> []"
    and V: "V = (if int (db_len (wb_buf W) + (10 + length (wc_messages (wb_clients W ! b)))) > mtu
      then send_block refs 1 rel W else W)" "wb_clients V = wb_clients W"
    and "databuf_ok (wb_buf V)" "db_len (wb_buf V) + length (message_bytes (wb_clients W ! b)) \<le> db_maxlen (wb_buf V)"
  then show "addmessages refs rel mtu c b W =
      put_share (\<lambda>ci. ci\<lparr>wc_messages := []\<rparr>) c b (message_bytes (wb_clients W ! b)) V"
    by (simp add: addmessages_def put_share_def message_bytes_def sendmessages_def Let_def db_put_all_vals
        db_put_vals_append db_put_vals_ok add.assoc split: if_splits flip: V(1))
qed (auto simp: addmessages_def message_bytes_def keep_positions_def split: if_splits)

subsection \<open>The whole broadcast\<close>

text \<open>A bot is in the list of one client, and every client and bot is in \<^verbatim>\<open>clients\<close>.\<close>

definition roster_ok :: "ws_client list \<Rightarrow> bool" where
  "roster_ok cs \<longleftrightarrow> distinct (map snd (jobs cs [0..<length cs])) \<and> (\<forall>j\<in>set (jobs cs [0..<length cs]). snd j < length cs)"

lemma sum_jobs_le:
  fixes g :: "'a \<Rightarrow> nat"
  assumes "distinct (map snd js)" "\<forall>j\<in>set js. snd j < length cs"
  shows "sum_list (map (\<lambda>j. g (cs ! snd j)) js) \<le> sum_list (map g cs)"
proof -
  have "sum_list (map (\<lambda>j. g (cs ! snd j)) js) = sum_list (map (\<lambda>i. g (cs ! i)) (map snd js))"
    by (simp add: comp_def)
  also have "\<dots> = sum (\<lambda>i. g (cs ! i)) (snd ` set js)"
    using sum_list_distinct_conv_sum_set [OF assms(1)] by simp
  also have "\<dots> \<le> sum (\<lambda>i. g (cs ! i)) {..<length cs}"
    using assms(2) by (intro sum_mono2) auto
  also have "\<dots> = sum_list (map g cs)"
    by (simp add: sum_list_sum_nth atLeast0LessThan)
  finally show ?thesis .
qed

lemma length_putint_le: "length (putint n) \<le> 5"
  by (simp add: putint_def)

lemma length_putuint_le: "length (putuint n) \<le> 4"
  by (simp add: putuint_def)

lemma message_bytes_length: "length (message_bytes ci) \<le> (if wc_messages ci \<noteq> [] then 10 + length (wc_messages ci) else 0)"
proof -
  have "length (putint N_CLIENT) = 1"
    by (simp add: putint_def N_CLIENT_def)
  then show ?thesis
    using length_putint_le [of "wc_clientnum ci"] length_putuint_le [of "word_of_nat (length (wc_messages ci))"]
    by (simp add: message_bytes_def)
qed

text \<open>The state of the broadcast before it starts, and what is in its packets in the end.\<close>

definition start_client :: "ws_client \<Rightarrow> ws_client" where
  "start_client ci = ci\<lparr>wc_overflow := 0, wc_wsdata := None\<rparr>"

definition ws_mtu :: "int \<Rightarrow> nat \<Rightarrow> int" where
  "ws_mtu servermtu len = (if servermtu - 100 \<le> 0 then int len else servermtu - 100)"

definition ws_read :: "worldstate \<Rightarrow> ws_packet \<Rightarrow> u8 list" where
  "ws_read ws p = take (wp_size p) (drop (wp_data p - ws_data ws) (ws_bytes ws))"

definition ws_log :: "worldstate \<Rightarrow> ws_packet \<Rightarrow> i32 \<times> nat \<times> bool \<times> u8 list" where
  "ws_log ws p = (wp_client p, wp_chan p, wp_reliable p, ws_read ws p)"

lemma packet_ws_log:
  "packet_inside W p \<Longrightarrow> ws_data ws = wb_addr W \<Longrightarrow> ws_bytes ws = wb_done W @ bs \<Longrightarrow> ws_log ws p = packet_log W p"
  by (auto simp: ws_log_def ws_read_def packet_log_def read_packet_def packet_inside_def wb_start_def)

lemma shares_cong:
  assumes "length cs' = length cs" "roster_ok cs"
    and same: "\<And>i. i < length cs \<Longrightarrow> wc_ai (cs' ! i) = wc_ai (cs ! i) \<and> wc_bots (cs' ! i) = wc_bots (cs ! i) \<and>
        f (cs' ! i) = f (cs ! i) \<and> room (cs' ! i) = room (cs ! i)"
  shows "jobs cs' [0..<length cs'] = jobs cs [0..<length cs]" "shares f room cs' = shares f room cs" "roster_ok cs'"
proof -
  show jobs: "jobs cs' [0..<length cs'] = jobs cs [0..<length cs]"
    unfolding jobs_def assms(1) by (intro arg_cong [of _ _ concat] map_cong refl) (simp add: client_jobs_def same)
  then show "roster_ok cs'"
    using assms(1,2) by (simp add: roster_ok_def)
  show "shares f room cs' = shares f room cs"
    unfolding shares_def share_list_def jobs using assms(2)
    by (intro map_cong filter_cong refl) (auto simp: share_of_def roster_ok_def same)
qed

lemma block_log_cong:
  assumes "length cs' = length cs"
    and "\<And>i. i < length cs \<Longrightarrow> wc_ai (cs' ! i) = wc_ai (cs ! i) \<and> wc_clientnum (cs' ! i) = wc_clientnum (cs ! i)"
  shows "block_log cs' chan rel b (length cs') = block_log cs chan rel b (length cs)"
  using assms by (auto simp: block_log_def intro!: map_cong filter_cong)

text \<open>The state in which the gathering starts.\<close>

definition build_start :: "ws_client list \<Rightarrow> nat \<times> u8 list \<Rightarrow> nat \<Rightarrow> (nat \<times> u8 list) list \<Rightarrow> ws_build" where
  "build_start cs m len rec =
     \<lparr>wb_uses = 0, wb_addr = fst m, wb_done = [], wb_buf = make_databuf (snd m) len,
      wb_clients = cs, wb_recorded = rec, wb_sent = []\<rparr>"

lemma build_start_ok:
  assumes "length (snd m) = len" "2 * n \<le> len" "\<forall>ci\<in>set cs. wc_wsdata ci = None"
  shows "gathering (build_start cs m len rec) [] n" "sent_ok refs (build_start cs m len rec)"
  using assms
  by (auto simp: gathering_def build_start_def block_in_def make_databuf_def databuf_ok_def db_overwrote_def
      knows_share_def own_def ptr_less_def sent_ok_def taken_def)

lemma buildworldstate_result:
  assumes "roster_ok (sv_clients S)" "buildworldstate refs servermtu new S = (flush, S')"
    and new: "\<And>n. length (snd (new n)) = n"
  defines "cs \<equiv> sv_clients S" and "len \<equiv> 2 * sum_list (map ws_need (sv_clients S))"
  defines "pos \<equiv> packed (ws_mtu servermtu len) [] (position_shares cs)"
    and "mess \<equiv> packed (ws_mtu servermtu len) [] (message_shares cs)"
  shows "\<exists>ps ws. sv_sent S' = sv_sent S @ ps \<and>
      map (ws_log ws) ps =
        concat (map (\<lambda>b. block_log cs 0 False b (length cs)) pos) @
        concat (map (\<lambda>b. block_log cs 1 (sv_reliablemessages S) b (length cs)) mess) \<and>
      sv_recorded S' = sv_recorded S @ map (\<lambda>b. (0, bytes_of b)) (filter (\<lambda>b. b \<noteq> []) pos) @
        map (\<lambda>b. (1, bytes_of b)) (filter (\<lambda>b. b \<noteq> []) mess) \<and>
      (\<forall>p\<in>set ps. ws_contains ws (wp_data p) \<and> wp_data p + wp_size p \<le> ws_data ws + ws_len ws) \<and>
      ws_data ws = fst (new len) \<and> ws_len ws = len \<and>
      ws_uses ws = taken refs ps \<and> flush = (ws_uses ws \<noteq> 0) \<and>
      sv_worldstates S' = (if ws_uses ws \<noteq> 0 then sv_worldstates S @ [ws] else sv_worldstates S)"
proof -
  let ?cs0 = "map start_client cs" and ?n = "length cs" and ?mtu = "ws_mtu servermtu len"
  let ?rel = "sv_reliablemessages S"
  define W0 where "W0 = build_start ?cs0 (new len) len (sv_recorded S)"
  define W1 where "W1 = send_block refs 0 False (fold (gather (addposition refs ?mtu)) [0..<?n] W0)"
  define W2 where "W2 = send_block refs 1 ?rel (fold (gather (addmessages refs ?rel ?mtu)) [0..<?n] W1)"
  have roster: "roster_ok cs" and len: "len = 2 * sum_list (map ws_need cs)"
    using assms(1) by (simp_all add: cs_def len_def)
  have start: "jobs ?cs0 [0..<?n] = jobs cs [0..<?n]"
    "shares wc_position (\<lambda>ci. length (wc_position ci)) ?cs0 = position_shares cs" "roster_ok ?cs0"
    using shares_cong [of ?cs0 cs wc_position "\<lambda>ci. length (wc_position ci)"] roster
    by (simp_all add: start_client_def position_shares_def)
  define pn where "pn = positions.amount ?cs0 (jobs ?cs0 [0..<?n])"
  define mn where "mn = messages.amount cs (jobs cs [0..<?n])"
  have "pn + mn \<le> sum_list (map ws_need cs)"
  proof -
    have "pn = sum_list (map (\<lambda>j. length (wc_position (cs ! snd j))) (jobs cs [0..<?n]))"
      unfolding pn_def positions.amount_def start using roster
      by (intro arg_cong [of _ _ sum_list] map_cong) (auto simp: roster_ok_def start_client_def)
    moreover have "mn \<le> sum_list (map (\<lambda>j. ws_need (cs ! snd j) - length (wc_position (cs ! snd j))) (jobs cs [0..<?n]))"
      unfolding mn_def messages.amount_def using message_bytes_length by (intro sum_list_mono) (simp add: ws_need_def)
    ultimately have "pn + mn \<le> sum_list (map (\<lambda>j. ws_need (cs ! snd j)) (jobs cs [0..<?n]))"
      by (simp add: ws_need_def sum_list_addf)
    also have "\<dots> \<le> sum_list (map ws_need cs)"
      using roster by (intro sum_jobs_le) (auto simp: roster_ok_def)
    finally show ?thesis .
  qed
  then have W0: "gathering W0 [] (pn + mn)" "sent_ok refs W0"
    using new unfolding W0_def by (auto simp: len_def cs_def start_client_def intro!: build_start_ok)
  have clients0: "wb_clients W0 = ?cs0" "wb_sent W0 = []" "wb_recorded W0 = sv_recorded S" "wb_addr W0 = fst (new len)"
    by (simp_all add: W0_def build_start_def)
  note first = positions.phase [where W = W0 and cs = ?cs0 and m = mn and refs = refs and mtu = ?mtu]
  have W1: "gathering W1 [] mn" "sent_ok refs W1" "map keep_messages (wb_clients W1) = map keep_messages ?cs0"
    "logged ?cs0 0 False W0 pos W1"
    using first W0 [unfolded pn_def] clients0(1) start roster by (simp_all add: W1_def pos_def roster_ok_def)
  have len1: "length (wb_clients W1) = ?n"
    using map_eq_imp_length_eq [OF W1(3)] by simp
  have same: "wc_ai (wb_clients W1 ! i) = wc_ai (cs ! i)" "wc_bots (wb_clients W1 ! i) = wc_bots (cs ! i)"
     "wc_messages (wb_clients W1 ! i) = wc_messages (cs ! i)" "wc_clientnum (wb_clients W1 ! i) = wc_clientnum (cs ! i)"
    if "i < ?n" for i
  proof -
    have "keep_messages (wb_clients W1 ! i) = keep_messages (?cs0 ! i)"
      using arg_cong [OF W1(3), of "\<lambda>xs. xs ! i"] that len1 by simp
    then have eq: "keep_messages (wb_clients W1 ! i) = keep_messages (start_client (cs ! i))"
      using that by simp
    show "wc_ai (wb_clients W1 ! i) = wc_ai (cs ! i)" "wc_bots (wb_clients W1 ! i) = wc_bots (cs ! i)"
     "wc_messages (wb_clients W1 ! i) = wc_messages (cs ! i)" "wc_clientnum (wb_clients W1 ! i) = wc_clientnum (cs ! i)"
      using arg_cong [OF eq, of wc_ai] arg_cong [OF eq, of wc_bots] arg_cong [OF eq, of wc_messages]
        arg_cong [OF eq, of wc_clientnum] by (simp_all add: keep_messages_def start_client_def)
  qed
  have again: "jobs (wb_clients W1) [0..<?n] = jobs cs [0..<?n]" "roster_ok (wb_clients W1)"
    "shares message_bytes (\<lambda>ci. 10 + length (wc_messages ci)) (wb_clients W1) = message_shares cs"
    using shares_cong [of "wb_clients W1" cs message_bytes "\<lambda>ci. 10 + length (wc_messages ci)"] roster
    by (simp_all add: same len1 message_shares_def message_bytes_def)
  have mn: "messages.amount (wb_clients W1) (jobs cs [0..<?n]) = mn"
    unfolding mn_def messages.amount_def using roster
    by (intro arg_cong [of _ _ sum_list] map_cong) (auto simp: roster_ok_def same message_bytes_def)
  have W2: "gathering W2 [] 0" "sent_ok refs W2" "logged (wb_clients W1) 1 ?rel W1 mess W2"
    using messages.phase [where W = W1 and cs = "wb_clients W1" and m = 0 and refs = refs and rel = ?rel and mtu = ?mtu] W1(1,2) again len1
    by (simp_all add: mn W2_def mess_def roster_ok_def)
  have blocks: "block_log ?cs0 chan r b (length ?cs0) = block_log cs chan r b ?n"
    "block_log (wb_clients W1) chan r b (length (wb_clients W1)) = block_log cs chan r b ?n" for chan r b
    by (intro block_log_cong; simp add: start_client_def same len1)+
  have log: "sent_log W2 =
        concat (map (\<lambda>b. block_log cs 0 False b (length cs)) pos) @
        concat (map (\<lambda>b. block_log cs 1 ?rel b (length cs)) mess)"
    using W1(4) W2(3) clients0 unfolding logged_def blocks by (simp add: sent_log_def)
  have recorded: "wb_recorded W2 = sv_recorded S @ map (\<lambda>b. (0, bytes_of b)) (filter (\<lambda>b. b \<noteq> []) pos) @
        map (\<lambda>b. (1, bytes_of b)) (filter (\<lambda>b. b \<noteq> []) mess)" "wb_addr W2 = fst (new len)"
      "length (wb_done W2) + db_maxlen (wb_buf W2) = len"
    using W1(4) W2(3) clients0 by (simp_all add: logged_def W0_def build_start_def make_databuf_def)
  have cleared: "map (\<lambda>ci. ci\<lparr>wc_overflow := 0, wc_wsdata := None\<rparr>) (sv_clients S) = ?cs0"
    by (simp add: cs_def start_client_def)
  have need: "sum_list (map ws_need ?cs0) = sum_list (map ws_need cs)"
    by (auto simp: start_client_def ws_need_def intro!: arg_cong [of _ _ sum_list])
  show ?thesis
  proof (cases "sum_list (map ws_need cs) = 0")
    case True
    then have "ws_need ci = 0" if "ci \<in> set cs" for ci
      using that by simp
    then have empty: "wc_position (cs ! i) = []" "wc_messages (cs ! i) = []" if "i < ?n" for i
      using that nth_mem [of i cs] by (fastforce simp: ws_need_def split: if_splits)+
    have "position_shares cs = []" "message_shares cs = []"
      using roster empty
      by (auto simp: position_shares_def message_shares_def shares_def share_list_def roster_ok_def filter_empty_conv
          message_bytes_def)
    moreover have "flush = False" "S' = S\<lparr>sv_clients := ?cs0, sv_reliablemessages := False\<rparr>"
      using assms(2) True unfolding buildworldstate_def Let_def cleared need by simp_all
    ultimately show ?thesis
      by (intro exI [of _ "[]"] exI [of _ "\<lparr>ws_uses = 0, ws_len = len, ws_data = fst (new len), ws_bytes = []\<rparr>"])
        (simp add: pos_def mess_def taken_def)
  next
    case False
    define ws where "ws = \<lparr>ws_uses = wb_uses W2, ws_len = len, ws_data = fst (new len),
      ws_bytes = wb_done W2 @ db_buf (wb_buf W2)\<rparr>"
    have build: "buildworldstate refs servermtu new S = (wb_uses W2 \<noteq> 0,
               S\<lparr>sv_clients := wb_clients W2, sv_reliablemessages := False, sv_recorded := wb_recorded W2,
                 sv_sent := sv_sent S @ wb_sent W2,
                 sv_worldstates := (if wb_uses W2 \<noteq> 0 then sv_worldstates S @ [ws] else sv_worldstates S)\<rparr>)"
      unfolding buildworldstate_def Let_def cleared need length_map case_prod_unfold len [symmetric] if_not_P [OF False]
        W2_def W1_def W0_def ws_def build_start_def sendpositions_def sendmessages_def ws_mtu_def
      by (rule refl)
    have inside: "ws_contains ws (wp_data p) \<and> wp_data p + wp_size p \<le> ws_data ws + ws_len ws \<and> ws_log ws p = packet_log W2 p"
      if "p \<in> set (wb_sent W2)" for p
    proof -
      have "packet_inside W2 p"
        using W2(2) that by (simp add: sent_ok_def)
      then show ?thesis
        using recorded(2,3) packet_ws_log [of W2 p ws "db_buf (wb_buf W2)"]
        by (auto simp: ws_contains_def packet_inside_def wb_start_def ws_def)
    qed
    have logs: "map (ws_log ws) (wb_sent W2) = sent_log W2"
      using inside by (simp add: sent_log_def)
    have uses: "ws_uses ws = wb_uses W2" "ws_data ws = fst (new len)" "ws_len ws = len" "wb_uses W2 = taken refs (wb_sent W2)"
      using W2(2) by (simp_all add: ws_def sent_ok_def)
    have result: "flush = (wb_uses W2 \<noteq> 0)" "sv_sent S' = sv_sent S @ wb_sent W2" "sv_recorded S' = wb_recorded W2"
      "sv_worldstates S' = (if wb_uses W2 \<noteq> 0 then sv_worldstates S @ [ws] else sv_worldstates S)"
      using build assms(2) by auto
    show ?thesis
      using inside
      by (intro exI [of _ "wb_sent W2"] exI [of _ ws] conjI ballI)
        (simp_all add: result uses logs log recorded(1) del: One_nat_def)
  qed
qed

text \<open>
  What a client receives on a channel: the bytes of its packets, read from the buffer.
\<close>

definition ws_received :: "worldstate \<Rightarrow> nat \<Rightarrow> i32 \<Rightarrow> ws_packet list \<Rightarrow> u8 list" where
  "ws_received ws chan cn ps = concat (map (ws_read ws) (filter (\<lambda>p. wp_client p = cn \<and> wp_chan p = chan) ps))"

definition log_received :: "nat \<Rightarrow> i32 \<Rightarrow> (i32 \<times> nat \<times> bool \<times> u8 list) list \<Rightarrow> u8 list" where
  "log_received chan cn L = concat (map (\<lambda>(_, _, _, bs). bs) (filter (\<lambda>(i, ch, _, _). i = cn \<and> ch = chan) L))"

lemma ws_received_log: "ws_received ws chan cn ps = log_received chan cn (map (ws_log ws) ps)"
  by (induction ps) (auto simp: ws_received_def log_received_def ws_log_def)

lemma log_received_append [simp]: "log_received chan cn (L @ L') = log_received chan cn L @ log_received chan cn L'"
  by (simp add: log_received_def)

lemma log_received_block:
  assumes "distinct (map wc_clientnum cs)" "c < length cs" "\<not> wc_ai (cs ! c)"
  shows "log_received chan (wc_clientnum (cs ! c)) (block_log cs chan' rel b (length cs)) =
     (if chan' = chan then others c b else [])"
proof -
  have same: "wc_clientnum (cs ! i) = wc_clientnum (cs ! c) \<longleftrightarrow> i = c" if "i < length cs" for i
    using assms(1,2) that nth_eq_iff_index_eq [OF assms(1), of i c] by simp
  have only: "filter (\<lambda>i. i = c \<and> Q) [0..<n] = (if c < n \<and> Q then [c] else [])" for Q n
    by (induction n) (auto simp: less_Suc_eq)
  have "filter (\<lambda>i. \<not> wc_ai (cs ! i) \<and> others i b \<noteq> [] \<and> wc_clientnum (cs ! i) = wc_clientnum (cs ! c)) [0..<length cs] =
      filter (\<lambda>i. i = c \<and> others c b \<noteq> []) [0..<length cs]"
    using assms(3) by (intro filter_cong refl) (auto simp: same)
  then have "filter (\<lambda>i. \<not> wc_ai (cs ! i) \<and> others i b \<noteq> [] \<and> wc_clientnum (cs ! i) = wc_clientnum (cs ! c)) [0..<length cs] =
      (if others c b \<noteq> [] then [c] else [])"
    using assms(2) by (simp add: only)
  then show ?thesis
    by (auto simp: log_received_def block_log_def filter_map comp_def conj_ac cong: conj_cong)
qed

lemma log_received_blocks:
  assumes "distinct (map wc_clientnum cs)" "c < length cs" "\<not> wc_ai (cs ! c)"
  shows "log_received chan (wc_clientnum (cs ! c)) (concat (map (\<lambda>b. block_log cs chan' rel b (length cs)) bs)) =
     (if chan' = chan then concat (map (others c) bs) else [])"
  by (induction bs) (simp_all add: log_received_block [OF assms] log_received_def [of _ _ "[]"])

lemma others_shares:
  assumes "\<forall>s\<in>set b. sh_bytes s \<noteq> []"
  shows "\<exists>ss. mset ss = {#s \<in># mset b. sh_owner s \<noteq> c#} \<and> others c b = bytes_of ss"
proof (cases "own c b = []")
  case True
  then have "\<forall>s\<in>set b. sh_owner s \<noteq> c"
    using assms by (auto simp: own_def bytes_of_def filter_empty_conv)
  then show ?thesis
    using True by (intro exI [of _ b]) (simp add: others_def filter_id_conv flip: mset_filter)
next
  case False
  have "mset (filter (\<lambda>s. c < sh_owner s) b @ filter (\<lambda>s. sh_owner s < c) b) = {#s \<in># mset b. sh_owner s \<noteq> c#}"
    by (induction b) auto
  then show ?thesis
    using False by (intro exI [of _ "filter (\<lambda>s. c < sh_owner s) b @ filter (\<lambda>s. sh_owner s < c) b"])
      (simp add: others_def before_def behind_def)
qed

lemma all_others_shares:
  assumes "\<forall>b\<in>set bs. \<forall>s\<in>set b. sh_bytes s \<noteq> []"
  shows "\<exists>ss. mset ss = {#s \<in># mset (concat bs). sh_owner s \<noteq> c#} \<and> concat (map (others c) bs) = bytes_of ss"
  using assms
proof (induction bs)
  case (Cons b bs)
  obtain ss where "mset ss = {#s \<in># mset (concat bs). sh_owner s \<noteq> c#}" "concat (map (others c) bs) = bytes_of ss"
    using Cons by auto
  moreover obtain ss' where "mset ss' = {#s \<in># mset b. sh_owner s \<noteq> c#}" "others c b = bytes_of ss'"
    using others_shares [of b c] Cons.prems by auto
  ultimately show ?case
    by (intro exI [of _ "ss' @ ss"]) simp
qed simp

lemma packed_shares_others:
  "\<exists>ss. mset ss = {#s \<in># mset (shares f room cs). sh_owner s \<noteq> c#} \<and>
     concat (map (others c) (packed mtu [] (shares f room cs))) = bytes_of ss"
proof -
  have "\<forall>s\<in>set (concat (packed mtu [] (shares f room cs))). sh_bytes s \<noteq> []"
    by (auto simp: concat_packed shares_def share_list_def share_of_def)
  then have "\<forall>b\<in>set (packed mtu [] (shares f room cs)). \<forall>s\<in>set b. sh_bytes s \<noteq> []"
    unfolding set_concat by blast
  then show ?thesis
    using all_others_shares [of "packed mtu [] (shares f room cs)" c] by (simp add: concat_packed)
qed

text \<open>
  C26. A broadcast reaches everyone else: every client receives, on each channel, the shares of
  all other clients and their bots, each exactly once and whole, and nothing of its own; every
  packet lies inside the shared buffer, whose use count is the number of packets the transport
  kept.
\<close>

theorem broadcast_reaches_everyone_else:
  assumes "roster_ok (sv_clients S)" "distinct (map wc_clientnum (sv_clients S))" "\<And>n. length (snd (new n)) = n"
    and "buildworldstate refs servermtu new S = (flush, S')"
  shows "\<exists>ps ws. sv_sent S' = sv_sent S @ ps \<and>
     (\<forall>c<length (sv_clients S). \<not> wc_ai (sv_clients S ! c) \<longrightarrow>
        (\<exists>ss. mset ss = {#s \<in># mset (position_shares (sv_clients S)). sh_owner s \<noteq> c#} \<and>
              ws_received ws 0 (wc_clientnum (sv_clients S ! c)) ps = bytes_of ss) \<and>
        (\<exists>ss. mset ss = {#s \<in># mset (message_shares (sv_clients S)). sh_owner s \<noteq> c#} \<and>
              ws_received ws 1 (wc_clientnum (sv_clients S ! c)) ps = bytes_of ss)) \<and>
     (\<forall>p\<in>set ps. ws_contains ws (wp_data p) \<and> wp_data p + wp_size p \<le> ws_data ws + ws_len ws) \<and>
     ws_uses ws = taken refs ps \<and> flush = (ws_uses ws \<noteq> 0) \<and>
     sv_worldstates S' = (if flush then sv_worldstates S @ [ws] else sv_worldstates S)"
proof -
  obtain ps ws where sent: "sv_sent S' = sv_sent S @ ps"
    and log: "map (ws_log ws) ps =
        concat (map (\<lambda>b. block_log (sv_clients S) 0 False b (length (sv_clients S)))
          (packed (ws_mtu servermtu (2 * sum_list (map ws_need (sv_clients S)))) [] (position_shares (sv_clients S)))) @
        concat (map (\<lambda>b. block_log (sv_clients S) 1 (sv_reliablemessages S) b (length (sv_clients S)))
          (packed (ws_mtu servermtu (2 * sum_list (map ws_need (sv_clients S)))) [] (message_shares (sv_clients S))))"
    and rest: "\<forall>p\<in>set ps. ws_contains ws (wp_data p) \<and> wp_data p + wp_size p \<le> ws_data ws + ws_len ws"
      "ws_uses ws = taken refs ps" "flush = (ws_uses ws \<noteq> 0)"
      "sv_worldstates S' = (if ws_uses ws \<noteq> 0 then sv_worldstates S @ [ws] else sv_worldstates S)"
    using buildworldstate_result [OF assms(1,4,3)] by blast
  have received:
    "(\<exists>ss. mset ss = {#s \<in># mset (position_shares (sv_clients S)). sh_owner s \<noteq> c#} \<and>
        ws_received ws 0 (wc_clientnum (sv_clients S ! c)) ps = bytes_of ss) \<and>
     (\<exists>ss. mset ss = {#s \<in># mset (message_shares (sv_clients S)). sh_owner s \<noteq> c#} \<and>
        ws_received ws 1 (wc_clientnum (sv_clients S ! c)) ps = bytes_of ss)"
    if "c < length (sv_clients S)" "\<not> wc_ai (sv_clients S ! c)" for c
    using packed_shares_others that assms(2)
    by (simp add: ws_received_log log log_received_blocks position_shares_def message_shares_def)
  show ?thesis
    using sent received rest by (intro exI [of _ ps] exI [of _ ws]) simp
qed

definition sample_clients :: "ws_client list" where
  "sample_clients =
     [\<lparr>wc_clientnum = 7, wc_ai = False, wc_position = [1, 2], wc_messages = [3], wc_bots = [2], wc_wsdata = None,
       wc_wslen = 0, wc_overflow = 0\<rparr>,
      \<lparr>wc_clientnum = 9, wc_ai = False, wc_position = [4], wc_messages = [5, 6], wc_bots = [], wc_wsdata = None,
       wc_wslen = 0, wc_overflow = 3\<rparr>,
      \<lparr>wc_clientnum = 128, wc_ai = True, wc_position = [8], wc_messages = [], wc_bots = [], wc_wsdata = None,
       wc_wslen = 0, wc_overflow = 0\<rparr>]"

definition sample_server :: ws_server where
  "sample_server = \<lparr>sv_clients = sample_clients, sv_worldstates = [], sv_reliablemessages = True,
     sv_recorded = [], sv_sent = []\<rparr>"

definition sample_new :: "nat \<Rightarrow> nat \<times> u8 list" where
  "sample_new n = (8, replicate n 0)"

lemma sample_roster: "roster_ok sample_clients" "distinct (map wc_clientnum sample_clients)"
  by (code_simp)+

lemma sample_server_simps:
  "sv_clients sample_server = sample_clients" "sv_sent sample_server = []" "sv_worldstates sample_server = []"
  "length sample_clients = 3" "wc_clientnum (sample_clients ! 0) = 7" "\<not> wc_ai (sample_clients ! 0)"
  "length (snd (sample_new n)) = n"
  by (simp_all add: sample_server_def sample_clients_def sample_new_def)

lemma sample_message_shares:
  "message_shares sample_clients = [\<lparr>sh_owner = 0, sh_room = 11, sh_bytes = [85, 7, 1, 3]\<rparr>,
     \<lparr>sh_owner = 1, sh_room = 12, sh_bytes = [85, 9, 2, 5, 6]\<rparr>]"
  by code_simp

theorem broadcast_reaches_everyone_else_witness:
  "\<exists>ws. ws_received ws 1 7 (sv_sent (snd (buildworldstate (\<lambda>_. 1) 1400 sample_new sample_server))) = [85, 9, 2, 5, 6]"
proof -
  let ?r = "buildworldstate (\<lambda>_. 1) 1400 sample_new sample_server"
  obtain ps ws where r: "sv_sent (snd ?r) = ps" and
    all: "\<forall>c<3. \<not> wc_ai (sample_clients ! c) \<longrightarrow>
        (\<exists>ss. mset ss = {#s \<in># mset (position_shares sample_clients). sh_owner s \<noteq> c#} \<and>
              ws_received ws 0 (wc_clientnum (sample_clients ! c)) ps = bytes_of ss) \<and>
        (\<exists>ss. mset ss = {#s \<in># mset (message_shares sample_clients). sh_owner s \<noteq> c#} \<and>
              ws_received ws 1 (wc_clientnum (sample_clients ! c)) ps = bytes_of ss)"
    using broadcast_reaches_everyone_else [of sample_server sample_new "\<lambda>_. 1" 1400 "fst ?r" "snd ?r",
        unfolded sample_server_simps append_Nil prod.collapse, OF sample_roster refl refl]
    by (elim exE conjE) (rule that)
  then obtain ss where "mset ss = {#s \<in># mset (message_shares sample_clients). sh_owner s \<noteq> 0#}"
    "ws_received ws 1 7 ps = bytes_of ss"
    using spec [OF all, of 0] by (auto simp: sample_server_simps)
  then show ?thesis
    using r by (auto simp: sample_message_shares)
qed

subsection \<open>The life of a buffer\<close>

text \<open>
  The buffers in use, and the addresses of the packets that the transport holds: an address is in
  one buffer at most, every buffer is counted once for each packet in it, and none is kept for
  nothing.
\<close>

definition worldstates_ok :: "worldstate list \<Rightarrow> nat multiset \<Rightarrow> bool" where
  "worldstates_ok wss live \<longleftrightarrow>
     (\<forall>a. size {#ws \<in># mset wss. ws_contains ws a#} \<le> 1) \<and>
     (\<forall>ws\<in>set wss. 0 < ws_uses ws \<and> ws_uses ws = size {#a \<in># live. ws_contains ws a#}) \<and>
     (\<forall>a\<in>#live. \<exists>ws\<in>set wss. ws_contains ws a)"

lemma worldstates_okI:
  assumes "mset wss = M" "\<And>a. size {#ws \<in># M. ws_contains ws a#} \<le> 1"
    and "\<And>a. a \<in># live \<Longrightarrow> \<exists>ws\<in>#M. ws_contains ws a"
    and "\<And>ws. ws \<in># M \<Longrightarrow> 0 < ws_uses ws \<and> ws_uses ws = size {#a \<in># live. ws_contains ws a#}"
  shows "worldstates_ok wss live"
  using assms(2-4) unfolding worldstates_ok_def assms(1) [symmetric] set_mset_mset by blast

lemma mset_removeunordered: "i < length xs \<Longrightarrow> mset (removeunordered i xs) = mset xs - {#xs ! i#}"
  by (cases xs rule: rev_cases) (auto simp: removeunordered_def Let_def nth_append mset_update less_Suc_eq)

lemma first_containing_Some:
  "first_containing a wss = Some i \<Longrightarrow> i < length wss \<and> ws_contains (wss ! i) a"
  by (induction wss arbitrary: i) (auto split: if_splits)

lemma first_containing_None: "first_containing a wss = None \<longleftrightarrow> (\<forall>ws\<in>set wss. \<not> ws_contains ws a)"
  by (induction wss) auto

lemma free_packet_ok:
  assumes "worldstates_ok (sv_worldstates S) live" "a \<in># live"
  shows "worldstates_ok (sv_worldstates (cleanworldstate a S)) (live - {#a#})"
proof -
  let ?wss = "sv_worldstates S"
  obtain i where i: "first_containing a ?wss = Some i"
    using assms first_containing_None [of a ?wss] by (auto simp: worldstates_ok_def)
  define ws where "ws = ?wss ! i"
  have ws: "i < length ?wss" "ws_contains ws a" "ws \<in># mset ?wss"
    using first_containing_Some [OF i] by (auto simp: ws_def)
  define rest where "rest = mset ?wss - {#ws#}"
  have split: "mset ?wss = add_mset ws rest"
    using ws(3) by (simp add: rest_def)
  have one: "size {#w \<in># mset ?wss. ws_contains w b#} \<le> 1" for b
    using assms(1) by (simp add: worldstates_ok_def)
  have others: "\<not> ws_contains w a" if "w \<in># rest" for w
    using one [of a] that ws(2) by (simp add: split)
  have uses: "0 < ws_uses w \<and> ws_uses w = size {#b \<in># live. ws_contains w b#}" if "w \<in># mset ?wss" for w
    using assms(1) that unfolding worldstates_ok_def set_mset_mset by blast
  have inside: "\<exists>w\<in>#mset ?wss. ws_contains w b" if "b \<in># live" for b
    using assms(1) that by (simp add: worldstates_ok_def)
  have freed: "size {#b \<in># live - {#a#}. ws_contains ws b#} = ws_uses ws - 1"
    using uses [OF ws(3)] assms(2) ws(2) by (simp add: filter_single_mset size_Diff_singleton)
  have kept: "{#b \<in># live - {#a#}. ws_contains w b#} = {#b \<in># live. ws_contains w b#}" if "w \<in># rest" for w
    using others [OF that] by (simp add: filter_single_mset)
  have still: "0 < ws_uses w \<and> ws_uses w = size {#b \<in># live - {#a#}. ws_contains w b#}" if "w \<in># rest" for w
    using uses [of w] that unfolding kept [OF that] by (simp add: split)
  show ?thesis
  proof (cases "ws_uses ws = 1")
    case True
    then have "mset (sv_worldstates (cleanworldstate a S)) = rest"
      using i ws(1) by (simp add: cleanworldstate_def rest_def mset_removeunordered ws_def)
    moreover have "size {#w \<in># rest. ws_contains w b#} \<le> 1" for b
    proof -
      have "rest \<subseteq># mset ?wss"
        by (simp add: split)
      then show ?thesis
        using one [of b] by (meson le_trans multiset_filter_mono size_mset_mono)
    qed
    moreover have "\<exists>w\<in>#rest. ws_contains w b" if "b \<in># live - {#a#}" for b
    proof -
      have "{#b \<in># live - {#a#}. ws_contains ws b#} = {#}"
        using freed True by (metis diff_self_eq_0 size_eq_0_iff_empty)
      then have "\<not> ws_contains ws b"
        using that by (metis filter_mset_eq_mempty_iff)
      then show ?thesis
        using inside [of b] that by (auto simp: split dest: in_diffD)
    qed
    ultimately show ?thesis
      using still by (rule worldstates_okI)
  next
    case False
    define ws' where "ws' = ws\<lparr>ws_uses := ws_uses ws - 1\<rparr>"
    have same: "ws_contains ws' = ws_contains ws"
      by (simp add: ws'_def ws_contains_def [abs_def])
    have "mset (sv_worldstates (cleanworldstate a S)) = add_mset ws' rest"
      using False uses [OF ws(3)] i ws(1)
      by (simp add: cleanworldstate_def rest_def mset_update ws_def ws'_def)
    moreover have "size {#w \<in># add_mset ws' rest. ws_contains w b#} \<le> 1" for b
      using one [of b] by (simp add: split same split: if_splits)
    moreover have "\<exists>w\<in>#add_mset ws' rest. ws_contains w b" if "b \<in># live - {#a#}" for b
      using inside [of b] that by (auto simp: split same dest: in_diffD)
    moreover have now: "0 < ws_uses ws' \<and> ws_uses ws' = size {#b \<in># live - {#a#}. ws_contains ws' b#}"
      unfolding same freed using False uses [OF ws(3)] by (simp add: ws'_def)
    moreover have "0 < ws_uses w \<and> ws_uses w = size {#b \<in># live - {#a#}. ws_contains w b#}"
      if "w \<in># add_mset ws' rest" for w
      using that still [of w] now by (cases "w = ws'") (simp only:, auto simp del: filter_diff_mset)
    ultimately show ?thesis
      by (intro worldstates_okI [where M = "add_mset ws' rest"]) assumption+
  qed
qed

lemma broadcast_ok:
  assumes "worldstates_ok wss live" "\<forall>w\<in>set wss. \<forall>a. ws_contains w a \<longrightarrow> \<not> ws_contains ws a"
    and "\<forall>p\<in>set ps. ws_contains ws (wp_data p)" "ws_uses ws = taken refs ps"
  shows "worldstates_ok (if ws_uses ws \<noteq> 0 then wss @ [ws] else wss)
     (live + image_mset wp_data (mset (filter (\<lambda>p. refs p \<noteq> 0) ps)))"
proof -
  let ?new = "image_mset wp_data (mset (filter (\<lambda>p. refs p \<noteq> 0) ps))"
  have new_in: "ws_contains ws a" if "a \<in># ?new" for a
    using assms(3) that by auto
  have live_in: "\<not> ws_contains ws a" if "a \<in># live" for a
    using assms(1,2) that by (auto simp: worldstates_ok_def)
  have "{#a \<in># live. ws_contains ws a#} = {#}" "{#a \<in># ?new. ws_contains ws a#} = ?new"
    using new_in live_in by (simp_all add: filter_mset_eq_conv)
  moreover have "{#a \<in># ?new. ws_contains w a#} = {#}" if "w \<in> set wss" for w
    using new_in assms(2) that by (simp only: filter_mset_eq_mempty_iff) blast
  moreover have "size ?new = ws_uses ws"
    by (simp add: assms(4) taken_def flip: mset_filter)
  moreover have none: "?new = {#}" if "ws_uses ws = 0"
    using that calculation(4) by simp
  moreover have "size {#w \<in># mset (wss @ [ws]). ws_contains w a#} \<le> 1" for a
  proof (cases "ws_contains ws a")
    case True
    then have "{#w \<in># mset wss. ws_contains w a#} = {#}"
      using assms(2) by auto
    then show ?thesis
      by (simp del: filter_mset_eq_mempty_iff)
  next
    case False
    then show ?thesis
      using assms(1) by (simp add: worldstates_ok_def)
  qed
  moreover have "\<forall>a\<in>#live. \<exists>w\<in>set wss. ws_contains w a" "\<forall>a. size {#w \<in># mset wss. ws_contains w a#} \<le> 1"
    "\<forall>w\<in>set wss. 0 < ws_uses w \<and> ws_uses w = size {#a \<in># live. ws_contains w a#}"
    using assms(1) unfolding worldstates_ok_def by blast+
  ultimately show ?thesis
    using new_in unfolding worldstates_ok_def by auto
qed

lemma broadcast_buffer:
  assumes "roster_ok (sv_clients S)" "\<And>n. length (snd (new n)) = n"
    and "buildworldstate refs servermtu new S = (flush, S')" "sv_sent S' = sv_sent S @ ps"
  obtains ws where "\<forall>p\<in>set ps. ws_contains ws (wp_data p)" "ws_uses ws = taken refs ps"
    "ws_data ws = fst (new (ws_len ws))"
    "sv_worldstates S' = (if ws_uses ws \<noteq> 0 then sv_worldstates S @ [ws] else sv_worldstates S)"
proof -
  obtain qs ws where qs: "sv_sent S' = sv_sent S @ qs"
      "\<forall>p\<in>set qs. ws_contains ws (wp_data p) \<and> wp_data p + wp_size p \<le> ws_data ws + ws_len ws"
    and ws: "ws_data ws = fst (new (2 * sum_list (map ws_need (sv_clients S))))"
      "ws_len ws = 2 * sum_list (map ws_need (sv_clients S))" "ws_uses ws = taken refs qs"
      "sv_worldstates S' = (if ws_uses ws \<noteq> 0 then sv_worldstates S @ [ws] else sv_worldstates S)"
    using buildworldstate_result [OF assms(1,3,2)] by (elim exE conjE) (rule that)
  moreover have "qs = ps"
    using qs(1) assms(4) by simp
  moreover have "ws_data ws = fst (new (ws_len ws))"
    by (simp only: ws(1,2))
  ultimately show thesis
    using that [of ws] by blast
qed

text \<open>
  The broadcasts of a server and the packets that the transport frees between them.  Before a
  broadcast the clients are whatever they have become; its buffer is fresh memory.
\<close>

inductive ws_history :: "(ws_packet \<Rightarrow> nat) \<Rightarrow> ws_server \<Rightarrow> nat multiset \<Rightarrow> bool" for refs where
  started: "sv_worldstates S = [] \<Longrightarrow> ws_history refs S {#}"
| broadcast:
    "ws_history refs S live \<Longrightarrow> T = S\<lparr>sv_clients := cs, sv_reliablemessages := rel\<rparr> \<Longrightarrow> roster_ok cs \<Longrightarrow>
     (\<forall>n. length (snd (new n)) = n) \<Longrightarrow>
     (\<forall>w\<in>set (sv_worldstates S). \<forall>a n. ws_contains w a \<longrightarrow> \<not> (fst (new n) \<le> a \<and> a < fst (new n) + n)) \<Longrightarrow>
     buildworldstate refs servermtu new T = (flush, S') \<Longrightarrow> sv_sent S' = sv_sent S @ ps \<Longrightarrow>
     ws_history refs S' (live + image_mset wp_data (mset (filter (\<lambda>p. refs p \<noteq> 0) ps)))"
| freed:
    "ws_history refs S live \<Longrightarrow> a \<in># live \<Longrightarrow> ws_history refs (cleanworldstate a S) (live - {#a#})"

lemma history_ok: "ws_history refs S live \<Longrightarrow> worldstates_ok (sv_worldstates S) live"
proof (induction rule: ws_history.induct)
  case (started S)
  then show ?case
    by (simp add: worldstates_ok_def)
next
  case (broadcast S live T rel cs new servermtu flush S' ps)
  have T: "roster_ok (sv_clients T)" "\<And>n. length (snd (new n)) = n" "sv_sent S' = sv_sent T @ ps"
    "sv_worldstates T = sv_worldstates S"
    using broadcast.hyps(2-4,7) by simp_all
  obtain ws where ws: "\<forall>p\<in>set ps. ws_contains ws (wp_data p)" "ws_uses ws = taken refs ps"
    "ws_data ws = fst (new (ws_len ws))"
    "sv_worldstates S' = (if ws_uses ws \<noteq> 0 then sv_worldstates T @ [ws] else sv_worldstates T)"
    by (rule broadcast_buffer [OF T(1,2) broadcast.hyps(6) T(3)])
  have "\<forall>w\<in>set (sv_worldstates S). \<forall>a. ws_contains w a \<longrightarrow> \<not> ws_contains ws a"
    using broadcast.hyps(5) unfolding ws_contains_def [of ws] ws(3) by blast
  then show ?case
    using broadcast_ok [OF broadcast.IH _ ws(1,2)] by (simp only: ws(4) T(4))
next
  case (freed S live a)
  then show ?case
    by (simp add: free_packet_ok)
qed

text \<open>
  C27. No packet that the transport still holds points into a buffer that was given back, and the
  buffers are given back with their last packets.
\<close>

theorem broadcast_buffers_live_as_packets:
  assumes "ws_history refs S live"
  shows "(\<forall>a\<in>#live. \<exists>!i. i < length (sv_worldstates S) \<and> ws_contains (sv_worldstates S ! i) a) \<and>
     (\<forall>ws\<in>set (sv_worldstates S). ws_uses ws = size {#a \<in># live. ws_contains ws a#}) \<and>
     (live = {#} \<longrightarrow> sv_worldstates S = [])"
proof -
  have ok: "worldstates_ok (sv_worldstates S) live"
    using assms by (rule history_ok)
  have "\<exists>!i. i < length (sv_worldstates S) \<and> ws_contains (sv_worldstates S ! i) a" if "a \<in># live" for a
  proof -
    have "length (filter (\<lambda>ws. ws_contains ws a) (sv_worldstates S)) \<le> 1"
      using ok by (simp add: worldstates_ok_def flip: mset_filter)
    then have "card {i. i < length (sv_worldstates S) \<and> ws_contains (sv_worldstates S ! i) a} \<le> 1"
      by (simp only: length_filter_conv_card)
    moreover have "\<exists>i. i < length (sv_worldstates S) \<and> ws_contains (sv_worldstates S ! i) a"
      using ok that unfolding worldstates_ok_def by (metis in_set_conv_nth)
    ultimately show ?thesis
      by (auto simp: card_le_Suc0_iff_eq)
  qed
  moreover have "sv_worldstates S = []" if "live = {#}"
    using ok that by (cases "sv_worldstates S") (auto simp: worldstates_ok_def)
  ultimately show ?thesis
    using ok by (simp add: worldstates_ok_def)
qed

definition quiet_server :: ws_server where
  "quiet_server = \<lparr>sv_clients =
     [\<lparr>wc_clientnum = 7, wc_ai = False, wc_position = [1], wc_messages = [], wc_bots = [], wc_wsdata = None,
       wc_wslen = 0, wc_overflow = 0\<rparr>,
      \<lparr>wc_clientnum = 9, wc_ai = False, wc_position = [], wc_messages = [], wc_bots = [], wc_wsdata = None,
       wc_wslen = 0, wc_overflow = 0\<rparr>],
     sv_worldstates = [], sv_reliablemessages = False, sv_recorded = [], sv_sent = []\<rparr>"

lemma quiet_server_sent:
  "sv_sent (snd (buildworldstate (\<lambda>_. 1) 0 sample_new quiet_server)) =
     [\<lparr>wp_client = 9, wp_chan = 0, wp_reliable = False, wp_data = 8, wp_size = 1\<rparr>]"
  by code_simp

lemma quiet_server_simps:
  "roster_ok (sv_clients quiet_server)" "sv_worldstates quiet_server = []" "sv_sent quiet_server = []"
  by code_simp (simp_all add: quiet_server_def)

theorem broadcast_buffers_live_as_packets_witness:
  "\<exists>S. ws_history (\<lambda>_. 1) S {#8#} \<and> (\<exists>!i. i < length (sv_worldstates S) \<and> ws_contains (sv_worldstates S ! i) 8)"
proof -
  define r where "r = buildworldstate (\<lambda>_. 1) 0 sample_new quiet_server"
  have "ws_history (\<lambda>_. 1) (snd r) ({#} + image_mset wp_data (mset (filter (\<lambda>p. (1::nat) \<noteq> 0) (sv_sent (snd r)))))"
    by (rule ws_history.broadcast [where S = quiet_server and T = quiet_server and
          cs = "sv_clients quiet_server" and rel = False and new = sample_new and servermtu = 0 and flush = "fst r"])
      (simp_all add: ws_history.started quiet_server_simps(1-3) sample_server_simps(7) r_def, simp add: quiet_server_def)
  then have "ws_history (\<lambda>_. 1) (snd r) {#8#}"
    by (simp add: r_def quiet_server_sent del: One_nat_def)
  then show ?thesis
    using broadcast_buffers_live_as_packets [of "\<lambda>_. 1" "snd r" "{#8#}"] by auto
qed

end
