(* ===== verification/Game_Mode.thy ===== *)
theory Game_Mode
  imports Prelude "HOL-Library.Signed_Division"
begin

text \<open>
  The constants of the game (\<^verbatim>\<open>fpsgame/game.h\<close>): the flags of the game modes and the macros that
  test them, the weapons and the items.  A C++ \<^verbatim>\<open>int\<close> is an integer here.
\<close>

named_theorems game_consts

subsection \<open>Game modes\<close>

definition M_TEAM :: u32 where [game_consts]: "M_TEAM = push_bit 0 1"
definition M_NOITEMS :: u32 where [game_consts]: "M_NOITEMS = push_bit 1 1"
definition M_NOAMMO :: u32 where [game_consts]: "M_NOAMMO = push_bit 2 1"
definition M_INSTA :: u32 where [game_consts]: "M_INSTA = push_bit 3 1"
definition M_EFFICIENCY :: u32 where [game_consts]: "M_EFFICIENCY = push_bit 4 1"
definition M_TACTICS :: u32 where [game_consts]: "M_TACTICS = push_bit 5 1"
definition M_CAPTURE :: u32 where [game_consts]: "M_CAPTURE = push_bit 6 1"
definition M_REGEN :: u32 where [game_consts]: "M_REGEN = push_bit 7 1"
definition M_CTF :: u32 where [game_consts]: "M_CTF = push_bit 8 1"
definition M_PROTECT :: u32 where [game_consts]: "M_PROTECT = push_bit 9 1"
definition M_HOLD :: u32 where [game_consts]: "M_HOLD = push_bit 10 1"
definition M_OVERTIME :: u32 where [game_consts]: "M_OVERTIME = push_bit 11 1"
definition M_EDIT :: u32 where [game_consts]: "M_EDIT = push_bit 12 1"
definition M_DEMO :: u32 where [game_consts]: "M_DEMO = push_bit 13 1"
definition M_LOCAL :: u32 where [game_consts]: "M_LOCAL = push_bit 14 1"
definition M_LOBBY :: u32 where [game_consts]: "M_LOBBY = push_bit 15 1"
definition M_DMSP :: u32 where [game_consts]: "M_DMSP = push_bit 16 1"
definition M_CLASSICSP :: u32 where [game_consts]: "M_CLASSICSP = push_bit 17 1"
definition M_COLLECT :: u32 where [game_consts]: "M_COLLECT = push_bit 19 1"

text \<open>The names and flags of \<^verbatim>\<open>gamemodes\<close>.\<close>

definition gamemodes :: "(string \<times> u32) list" where
  "gamemodes =
     [(''SP'', M_LOCAL OR M_CLASSICSP),
      (''DMSP'', M_LOCAL OR M_DMSP),
      (''demo'', M_DEMO OR M_LOCAL),
      (''ffa'', M_LOBBY),
      (''coop edit'', M_EDIT),
      (''teamplay'', M_TEAM),
      (''instagib'', M_NOITEMS OR M_INSTA),
      (''insta team'', M_NOITEMS OR M_INSTA OR M_TEAM),
      (''efficiency'', M_NOITEMS OR M_EFFICIENCY),
      (''effic team'', M_NOITEMS OR M_EFFICIENCY OR M_TEAM),
      (''tactics'', M_NOITEMS OR M_TACTICS),
      (''tac team'', M_NOITEMS OR M_TACTICS OR M_TEAM),
      (''capture'', M_NOAMMO OR M_TACTICS OR M_CAPTURE OR M_TEAM),
      (''regen capture'', M_NOITEMS OR M_CAPTURE OR M_REGEN OR M_TEAM),
      (''ctf'', M_CTF OR M_TEAM),
      (''insta ctf'', M_NOITEMS OR M_INSTA OR M_CTF OR M_TEAM),
      (''protect'', M_CTF OR M_PROTECT OR M_TEAM),
      (''insta protect'', M_NOITEMS OR M_INSTA OR M_CTF OR M_PROTECT OR M_TEAM),
      (''hold'', M_CTF OR M_HOLD OR M_TEAM),
      (''insta hold'', M_NOITEMS OR M_INSTA OR M_CTF OR M_HOLD OR M_TEAM),
      (''effic ctf'', M_NOITEMS OR M_EFFICIENCY OR M_CTF OR M_TEAM),
      (''effic protect'', M_NOITEMS OR M_EFFICIENCY OR M_CTF OR M_PROTECT OR M_TEAM),
      (''effic hold'', M_NOITEMS OR M_EFFICIENCY OR M_CTF OR M_HOLD OR M_TEAM),
      (''collect'', M_COLLECT OR M_TEAM),
      (''insta collect'', M_NOITEMS OR M_INSTA OR M_COLLECT OR M_TEAM),
      (''effic collect'', M_NOITEMS OR M_EFFICIENCY OR M_COLLECT OR M_TEAM)]"

definition STARTGAMEMODE :: int where [game_consts]: "STARTGAMEMODE = -3"

definition m_valid :: "int \<Rightarrow> bool" where
  "m_valid mode \<longleftrightarrow> STARTGAMEMODE \<le> mode \<and> mode < STARTGAMEMODE + int (length gamemodes)"

definition mode_flags :: "int \<Rightarrow> u32" where
  "mode_flags mode = snd (gamemodes ! nat (mode - STARTGAMEMODE))"

definition m_check :: "int \<Rightarrow> u32 \<Rightarrow> bool" where
  "m_check mode flag \<longleftrightarrow> m_valid mode \<and> mode_flags mode AND flag \<noteq> 0"

definition m_checknot :: "int \<Rightarrow> u32 \<Rightarrow> bool" where
  "m_checknot mode flag \<longleftrightarrow> m_valid mode \<and> mode_flags mode AND flag = 0"

definition m_checkall :: "int \<Rightarrow> u32 \<Rightarrow> bool" where
  "m_checkall mode flag \<longleftrightarrow> m_valid mode \<and> mode_flags mode AND flag = flag"

definition m_noitems :: "int \<Rightarrow> bool" where "m_noitems mode = m_check mode M_NOITEMS"
definition m_insta :: "int \<Rightarrow> bool" where "m_insta mode = m_check mode M_INSTA"
definition m_tactics :: "int \<Rightarrow> bool" where "m_tactics mode = m_check mode M_TACTICS"
definition m_efficiency :: "int \<Rightarrow> bool" where "m_efficiency mode = m_check mode M_EFFICIENCY"
definition m_regencapture :: "int \<Rightarrow> bool" where "m_regencapture mode = m_checkall mode (M_CAPTURE OR M_REGEN)"
definition m_ctf :: "int \<Rightarrow> bool" where "m_ctf mode = m_check mode M_CTF"
definition m_protect :: "int \<Rightarrow> bool" where "m_protect mode = m_checkall mode (M_CTF OR M_PROTECT)"
definition m_hold :: "int \<Rightarrow> bool" where "m_hold mode = m_checkall mode (M_CTF OR M_HOLD)"
definition m_collect :: "int \<Rightarrow> bool" where "m_collect mode = m_check mode M_COLLECT"
definition m_teammode :: "int \<Rightarrow> bool" where "m_teammode mode = m_check mode M_TEAM"
definition m_demo :: "int \<Rightarrow> bool" where "m_demo mode = m_check mode M_DEMO"
definition m_edit :: "int \<Rightarrow> bool" where "m_edit mode = m_check mode M_EDIT"
definition m_timed :: "int \<Rightarrow> bool" where "m_timed mode = m_checknot mode (M_DEMO OR M_EDIT OR M_LOCAL)"
definition m_mp :: "int \<Rightarrow> bool" where "m_mp mode = m_checknot mode M_LOCAL"
definition m_sp :: "int \<Rightarrow> bool" where "m_sp mode = m_check mode (M_DMSP OR M_CLASSICSP)"
definition m_dmsp :: "int \<Rightarrow> bool" where "m_dmsp mode = m_check mode M_DMSP"
definition m_classicsp :: "int \<Rightarrow> bool" where "m_classicsp mode = m_check mode M_CLASSICSP"

definition isteam :: "int \<Rightarrow> string \<Rightarrow> string \<Rightarrow> bool" where
  "isteam mode a b \<longleftrightarrow> m_teammode mode \<and> a = b"

definition modename :: "int \<Rightarrow> string \<Rightarrow> string" where
  "modename n unknown = (if m_valid n then fst (gamemodes ! nat (n - STARTGAMEMODE)) else unknown)"

text \<open>\<^verbatim>\<open>modecode\<close> searches from the first mode that is not local.\<close>

fun mode_index :: "string \<Rightarrow> nat \<Rightarrow> (string \<times> u32) list \<Rightarrow> nat option" where
  "mode_index name i [] = None"
| "mode_index name i (m # ms) = (if name = fst m then Some i else mode_index name (Suc i) ms)"

definition modecode :: "string \<Rightarrow> int" where
  "modecode name =
     (case mode_index name (nat (0 - STARTGAMEMODE)) (drop (nat (0 - STARTGAMEMODE)) gamemodes) of
        Some i \<Rightarrow> int i + STARTGAMEMODE | None \<Rightarrow> 0)"

subsection \<open>Weapons and items\<close>

definition GUN_FIST :: int where [game_consts]: "GUN_FIST = 0"
definition GUN_SG :: int where [game_consts]: "GUN_SG = 1"
definition GUN_CG :: int where [game_consts]: "GUN_CG = 2"
definition GUN_RL :: int where [game_consts]: "GUN_RL = 3"
definition GUN_RIFLE :: int where [game_consts]: "GUN_RIFLE = 4"
definition GUN_GL :: int where [game_consts]: "GUN_GL = 5"
definition GUN_PISTOL :: int where [game_consts]: "GUN_PISTOL = 6"
definition NUMGUNS :: int where [game_consts]: "NUMGUNS = 12"

definition A_BLUE :: int where [game_consts]: "A_BLUE = 0"
definition A_GREEN :: int where [game_consts]: "A_GREEN = 1"
definition A_YELLOW :: int where [game_consts]: "A_YELLOW = 2"

definition I_SHELLS :: int where [game_consts]: "I_SHELLS = 8"
definition I_HEALTH :: int where [game_consts]: "I_HEALTH = 14"
definition I_BOOST :: int where [game_consts]: "I_BOOST = 15"
definition I_GREENARMOUR :: int where [game_consts]: "I_GREENARMOUR = 16"
definition I_YELLOWARMOUR :: int where [game_consts]: "I_YELLOWARMOUR = 17"
definition I_QUAD :: int where [game_consts]: "I_QUAD = 18"

record itemstat =
  is_add :: int
  is_max :: int
  is_info :: int

text \<open>The table of the items from \<^verbatim>\<open>I_SHELLS\<close> to \<^verbatim>\<open>I_QUAD\<close>.\<close>

definition itemstats :: "itemstat list" where
  "itemstats =
     [\<lparr>is_add = 10, is_max = 30, is_info = GUN_SG\<rparr>,
      \<lparr>is_add = 20, is_max = 60, is_info = GUN_CG\<rparr>,
      \<lparr>is_add = 5, is_max = 15, is_info = GUN_RL\<rparr>,
      \<lparr>is_add = 5, is_max = 15, is_info = GUN_RIFLE\<rparr>,
      \<lparr>is_add = 10, is_max = 30, is_info = GUN_GL\<rparr>,
      \<lparr>is_add = 30, is_max = 120, is_info = GUN_PISTOL\<rparr>,
      \<lparr>is_add = 25, is_max = 100, is_info = -1\<rparr>,
      \<lparr>is_add = 10, is_max = 1000, is_info = -1\<rparr>,
      \<lparr>is_add = 100, is_max = 100, is_info = A_GREEN\<rparr>,
      \<lparr>is_add = 200, is_max = 200, is_info = A_YELLOW\<rparr>,
      \<lparr>is_add = 20000, is_max = 30000, is_info = -1\<rparr>]"

definition item_of :: "int \<Rightarrow> itemstat" where
  "item_of t = itemstats ! nat (t - I_SHELLS)"

end
