(* ===== verification/Player_State.thy ===== *)
theory Player_State
  imports Game_Mode Complex_Main "HOL-Library.Multiset"
begin

text \<open>
  The state of a player: \<^verbatim>\<open>fpsstate\<close> of \<^verbatim>\<open>fpsgame/game.h\<close>, and what the server adds to it
  (\<^verbatim>\<open>gamestate\<close>, \<^verbatim>\<open>projectilestate\<close> and \<^verbatim>\<open>savedscore\<close> of \<^verbatim>\<open>fpsgame/server.h\<close>).  Positions are
  triples of rational numbers, and so is the effectiveness: floating-point rounding is not
  modelled.
\<close>

type_synonym vec = "rat \<times> rat \<times> rat"

subsection \<open>Health, armour and ammunition\<close>

record fpsstate =
  health :: int
  maxhealth :: int
  boosts :: int
  armour :: int
  armourtype :: int
  quadmillis :: int
  gunselect :: int
  gunwait :: int
  ammo :: "int list"
  aitype :: int
  skill :: int

definition ammo_at :: "int \<Rightarrow> 'a fpsstate_scheme \<Rightarrow> int" where
  "ammo_at g s = ammo s ! nat g"

definition set_ammo :: "int \<Rightarrow> int \<Rightarrow> 'a fpsstate_scheme \<Rightarrow> 'a fpsstate_scheme" where
  "set_ammo g n s = s\<lparr>ammo := (ammo s)[nat g := n]\<rparr>"

definition baseammo :: "int \<Rightarrow> int \<Rightarrow> int \<Rightarrow> 'a fpsstate_scheme \<Rightarrow> 'a fpsstate_scheme" where
  "baseammo gun k scale s = set_ammo gun ((is_add (itemstats ! nat (gun - GUN_SG)) * k) sdiv scale) s"

definition addammo :: "int \<Rightarrow> int \<Rightarrow> int \<Rightarrow> 'a fpsstate_scheme \<Rightarrow> 'a fpsstate_scheme" where
  "addammo gun k scale s =
     (let is = itemstats ! nat (gun - GUN_SG)
      in set_ammo gun (min (ammo_at gun s + (is_add is * k) sdiv scale) (is_max is)) s)"

definition hasmaxammo :: "int \<Rightarrow> 'a fpsstate_scheme \<Rightarrow> bool" where
  "hasmaxammo type s \<longleftrightarrow> ammo_at (type - I_SHELLS + GUN_SG) s \<ge> is_max (item_of type)"

text \<open>The cases of the two \<^verbatim>\<open>switch\<close> statements; green armour falls through to yellow armour.\<close>

definition canpickup :: "int \<Rightarrow> 'a fpsstate_scheme \<Rightarrow> bool" where
  "canpickup type s =
     (if type < I_SHELLS \<or> type > I_QUAD then False
      else let is = item_of type in
        if type = I_BOOST then maxhealth s < is_max is
        else if type = I_HEALTH then health s < maxhealth s
        else if type = I_GREENARMOUR \<and> armourtype s = A_YELLOW \<and> armour s \<ge> 100 then False
        else if type = I_GREENARMOUR \<or> type = I_YELLOWARMOUR then armourtype s = 0 \<or> armour s < is_max is
        else if type = I_QUAD then quadmillis s < is_max is
        else ammo_at (is_info is) s < is_max is)"

definition pickup_item :: "int \<Rightarrow> 'a fpsstate_scheme \<Rightarrow> 'a fpsstate_scheme" where
  "pickup_item type s =
     (if type < I_SHELLS \<or> type > I_QUAD then s
      else let is = item_of type in
        if type = I_BOOST then
          let s = s\<lparr>maxhealth := min (maxhealth s + is_add is) (is_max is), boosts := boosts s + 1\<rparr>
          in s\<lparr>health := min (health s + is_add is) (maxhealth s)\<rparr>
        else if type = I_HEALTH then s\<lparr>health := min (health s + is_add is) (maxhealth s)\<rparr>
        else if type = I_GREENARMOUR \<or> type = I_YELLOWARMOUR then
          s\<lparr>armour := min (armour s + is_add is) (is_max is), armourtype := is_info is\<rparr>
        else if type = I_QUAD then s\<lparr>quadmillis := min (quadmillis s + is_add is) (is_max is)\<rparr>
        else set_ammo (is_info is) (min (ammo_at (is_info is) s + is_add is) (is_max is)) s)"

definition fps_respawn :: "'a fpsstate_scheme \<Rightarrow> 'a fpsstate_scheme" where
  "fps_respawn s =
     set_ammo GUN_FIST 1
       (s\<lparr>health := maxhealth s, armour := 0, armourtype := A_BLUE, quadmillis := 0, gunselect := GUN_PISTOL,
          gunwait := 0, ammo := replicate (nat NUMGUNS) 0\<rparr>)"

text \<open>\<^verbatim>\<open>server::spawn_mode_val\<close>, and the other settings that spawning depends on.\<close>

record spawn_mode_struct =
  sm_health :: int
  sm_armour :: int
  sm_armourtype :: int
  sm_quadmillis :: int
  sm_gunselect :: int
  sm_hboostval :: int
  sm_guns :: "int list"

record spawn_settings =
  spawn_mode :: int
  spawn_mode_val :: spawn_mode_struct
  hide_and_seek :: int

definition spawn_mode_hack :: "spawn_mode_struct \<Rightarrow> 'a fpsstate_scheme \<Rightarrow> 'a fpsstate_scheme" where
  "spawn_mode_hack v s =
     set_ammo GUN_FIST 1
       (s\<lparr>health := sm_health v + boosts s * sm_hboostval v, armour := sm_armour v, armourtype := sm_armourtype v,
          quadmillis := sm_quadmillis v, gunselect := sm_gunselect v, ammo := take (nat NUMGUNS) (sm_guns v)\<rparr>)"

text \<open>
  The random numbers of \<^verbatim>\<open>rnd(5)\<close> are a list: the loop that picks a second weapon goes on until
  one differs from the first, and \<open>None\<close> is a list that does not get there.
\<close>

fun pick_other :: "int \<Rightarrow> int list \<Rightarrow> (int \<times> int list) option" where
  "pick_other g [] = None"
| "pick_other g (r # rs) = (if g = r + 1 then pick_other g rs else Some (r + 1, rs))"

definition spawn_tactics :: "int \<Rightarrow> int list \<Rightarrow> 'a fpsstate_scheme \<Rightarrow> ('a fpsstate_scheme \<times> int list) option" where
  "spawn_tactics mode rs s =
     (case rs of [] \<Rightarrow> None
      | r # rs \<Rightarrow> do {
          let s = set_ammo GUN_PISTOL 40 (s\<lparr>armourtype := A_GREEN, armour := 100\<rparr>);
          let spawngun1 = r + 1;
          let s = baseammo spawngun1 (if m_noitems mode then 2 else 1) 1 (s\<lparr>gunselect := spawngun1\<rparr>);
          (spawngun2, rs) \<leftarrow> pick_other spawngun1 rs;
          let s = baseammo spawngun2 (if m_noitems mode then 2 else 1) 1 s;
          Some (if m_noitems mode then set_ammo GUN_GL (ammo_at GUN_GL s + 1) s else s, rs) })"

definition spawn_efficiency :: "int \<Rightarrow> 'a fpsstate_scheme \<Rightarrow> 'a fpsstate_scheme" where
  "spawn_efficiency hide s =
     (let s = s\<lparr>armourtype := A_GREEN, armour := 100\<rparr>
      in if hide \<noteq> 0 then (fold (\<lambda>i. baseammo (i + 1) 10 1) [0, 1, 2, 3, 4] s)\<lparr>gunselect := GUN_GL\<rparr>
         else let s = (fold (\<lambda>i. baseammo (i + 1) 2 1) [0, 1, 2, 3, 4] s)\<lparr>gunselect := GUN_CG\<rparr>
              in set_ammo GUN_CG (ammo_at GUN_CG s sdiv 2) s)"

definition spawnstate :: "spawn_settings \<Rightarrow> int \<Rightarrow> int list \<Rightarrow> 'a fpsstate_scheme \<Rightarrow> ('a fpsstate_scheme \<times> int list) option" where
  "spawnstate cfg mode rs s =
     (if 0 < spawn_mode cfg then Some (spawn_mode_hack (spawn_mode_val cfg) s, rs)
      else if m_demo mode then Some (s\<lparr>gunselect := GUN_FIST\<rparr>, rs)
      else if m_insta mode then
        Some (set_ammo GUN_RIFLE 100 (s\<lparr>armour := 0, health := 1, gunselect := GUN_RIFLE\<rparr>), rs)
      else if m_regencapture mode then
        Some (set_ammo GUN_GL 1 (set_ammo GUN_PISTOL 40
          (s\<lparr>armourtype := A_BLUE, armour := 25, gunselect := GUN_PISTOL\<rparr>)), rs)
      else if m_tactics mode then spawn_tactics mode rs s
      else if m_efficiency mode then Some (spawn_efficiency (hide_and_seek cfg) s, rs)
      else if m_ctf mode \<or> m_collect mode then
        Some (set_ammo GUN_GL 1 (set_ammo GUN_PISTOL 40 (s\<lparr>armourtype := A_BLUE, armour := 50\<rparr>)), rs)
      else if m_sp mode then
        Some (set_ammo GUN_GL 1 (set_ammo GUN_PISTOL 80
          (if m_dmsp mode then s\<lparr>armourtype := A_BLUE, armour := 25\<rparr> else s)), rs)
      else Some (set_ammo GUN_GL 1 (set_ammo GUN_PISTOL 40 (s\<lparr>armourtype := A_BLUE, armour := 25\<rparr>)), rs))"

definition fps_dodamage :: "int \<Rightarrow> 'a fpsstate_scheme \<Rightarrow> int \<times> 'a fpsstate_scheme" where
  "fps_dodamage damage s =
     (let ad = (damage * (armourtype s + 1) * 25) sdiv 100;
          ad = (if ad > armour s then armour s else ad);
          s = s\<lparr>armour := armour s - ad\<rparr>;
          damage = damage - ad
      in (damage, s\<lparr>health := health s - damage\<rparr>))"

text \<open>\<^verbatim>\<open>hasammo\<close> reads behind the array for \<^verbatim>\<open>gun == NUMGUNS\<close>, which is \<open>None\<close> here.\<close>

definition hasammo :: "int \<Rightarrow> int \<Rightarrow> 'a fpsstate_scheme \<Rightarrow> bool option" where
  "hasammo gun exclude s =
     (if gun \<ge> 0 \<and> gun \<le> NUMGUNS \<and> gun \<noteq> exclude
      then if nat gun < length (ammo s) then Some (ammo_at gun s > 0) else None
      else Some False)"

subsection \<open>Projectiles in flight\<close>

record projectilestate =
  projs :: "int list" \<comment> \<open>the array of \<open>N\<close> entries\<close>
  numprojs :: nat

definition proj_reset :: "projectilestate \<Rightarrow> projectilestate" where
  "proj_reset p = p\<lparr>numprojs := 0\<rparr>"

definition proj_add :: "nat \<Rightarrow> int \<Rightarrow> projectilestate \<Rightarrow> projectilestate" where
  "proj_add N val p =
     (let n = (if numprojs p \<ge> N then 0 else numprojs p)
      in p\<lparr>projs := (projs p)[n := val], numprojs := n + 1\<rparr>)"

fun proj_index :: "int \<Rightarrow> nat \<Rightarrow> int list \<Rightarrow> nat option" where
  "proj_index val n [] = None"
| "proj_index val n (x # xs) = (if n = 0 then None else if x = val then Some 0 else map_option Suc (proj_index val (n - 1) xs))"

definition proj_remove :: "int \<Rightarrow> projectilestate \<Rightarrow> bool \<times> projectilestate" where
  "proj_remove val p =
     (case proj_index val (numprojs p) (projs p) of
        None \<Rightarrow> (False, p)
      | Some i \<Rightarrow> let n = numprojs p - 1 in (True, p\<lparr>projs := (projs p)[i := projs p ! n], numprojs := n\<rparr>))"

subsection \<open>What the server knows of a player\<close>

datatype cs_state = CS_ALIVE | CS_DEAD | CS_SPAWNING | CS_LAGGED | CS_EDITING | CS_SPECTATOR

record gamestate = fpsstate +
  gs_o :: vec
  gs_state :: cs_state
  editstate :: cs_state
  lastdeath :: int
  deadflush :: int
  lastspawn :: int
  lifesequence :: int
  lastshot :: int
  rockets :: projectilestate
  grenades :: projectilestate
  frags :: int
  flags_scored :: int
  deaths :: int
  suicides :: int
  teamkills :: int
  shotdamage :: int
  damage_dealt :: int
  explosivedamage :: int
  tokens :: int
  hits :: int
  misses :: int
  shots :: int
  lasttimeplayed :: int
  timeplayed :: int
  effectiveness :: rat
  disconnecttime :: int

definition DEATHMILLIS :: int where [game_consts]: "DEATHMILLIS = 300"

definition isalive :: "int \<Rightarrow> gamestate \<Rightarrow> bool" where
  "isalive gamemillis gs \<longleftrightarrow>
     gs_state gs = CS_ALIVE \<or> (gs_state gs = CS_DEAD \<and> gamemillis - lastdeath gs \<le> DEATHMILLIS)"

definition waitexpired :: "int \<Rightarrow> gamestate \<Rightarrow> bool" where
  "waitexpired gamemillis gs \<longleftrightarrow> gamemillis - lastshot gs \<ge> gunwait gs"

definition nowhere :: vec where
  "nowhere = (-10000000000, -10000000000, -10000000000)"

definition gs_respawn :: "gamestate \<Rightarrow> gamestate" where
  "gs_respawn gs =
     (fps_respawn gs)\<lparr>gs_o := nowhere, deadflush := 0, lastspawn := -1, lastshot := 0, tokens := 0\<rparr>"

definition gs_reset :: "gamestate \<Rightarrow> gamestate" where
  "gs_reset gs =
     (let gs = (if gs_state gs \<noteq> CS_SPECTATOR then gs\<lparr>gs_state := CS_DEAD, editstate := CS_DEAD\<rparr> else gs);
          gs = gs\<lparr>maxhealth := 100, rockets := proj_reset (rockets gs), grenades := proj_reset (grenades gs),
                 timeplayed := 0, effectiveness := 0, frags := 0, flags_scored := 0, deaths := 0, suicides := 0,
                 teamkills := 0, shotdamage := 0, explosivedamage := 0, damage_dealt := 0, hits := 0, misses := 0,
                 shots := 0, tokens := 0, lastdeath := 0\<rparr>
      in gs_respawn gs)"

definition gs_reassign :: "gamestate \<Rightarrow> gamestate" where
  "gs_reassign gs =
     (let gs = gs_respawn gs in gs\<lparr>rockets := proj_reset (rockets gs), grenades := proj_reset (grenades gs)\<rparr>)"

text \<open>The score of a player who left, for when he comes back.\<close>

record savedscore =
  sc_ip :: u32
  sc_name :: string
  sc_maxhealth :: int
  sc_frags :: int
  sc_flags :: int
  sc_deaths :: int
  sc_suicides :: int
  sc_teamkills :: int
  sc_shotdamage :: int
  sc_explosivedamage :: int
  sc_damage :: int
  sc_hits :: int
  sc_misses :: int
  sc_shots :: int
  sc_timeplayed :: int
  sc_effectiveness :: rat
  sc_disconnecttime :: int

definition score_save :: "gamestate \<Rightarrow> savedscore \<Rightarrow> savedscore" where
  "score_save gs sc =
     sc\<lparr>sc_maxhealth := maxhealth gs, sc_frags := frags gs, sc_flags := flags_scored gs, sc_deaths := deaths gs,
        sc_suicides := suicides gs, sc_teamkills := teamkills gs, sc_shotdamage := shotdamage gs,
        sc_explosivedamage := explosivedamage gs, sc_damage := damage_dealt gs, sc_timeplayed := timeplayed gs,
        sc_effectiveness := effectiveness gs, sc_hits := hits gs, sc_misses := misses gs, sc_shots := shots gs,
        sc_disconnecttime := disconnecttime gs\<rparr>"

definition score_restore :: "savedscore \<Rightarrow> gamestate \<Rightarrow> gamestate" where
  "score_restore sc gs =
     (let gs = (if health gs = maxhealth gs then gs\<lparr>health := sc_maxhealth sc\<rparr> else gs)
      in gs\<lparr>maxhealth := sc_maxhealth sc, frags := sc_frags sc, flags_scored := sc_flags sc, deaths := sc_deaths sc,
            suicides := sc_suicides sc, teamkills := sc_teamkills sc, shotdamage := sc_shotdamage sc,
            explosivedamage := sc_explosivedamage sc, damage_dealt := sc_damage sc, timeplayed := sc_timeplayed sc,
            effectiveness := sc_effectiveness sc, hits := sc_hits sc, misses := sc_misses sc, shots := sc_shots sc,
            disconnecttime := sc_disconnecttime sc\<rparr>)"

subsection \<open>The bounds of a player's state\<close>

definition max_armour :: "int \<Rightarrow> int" where
  "max_armour type = (if type = A_YELLOW then 200 else 100)"

definition fps_ok :: "'a fpsstate_scheme \<Rightarrow> bool" where
  "fps_ok s \<longleftrightarrow>
     length (ammo s) = nat NUMGUNS \<and> (\<forall>n\<in>set (ammo s). 0 \<le> n) \<and>
     armourtype s \<in> {A_BLUE, A_GREEN, A_YELLOW} \<and> 0 \<le> armour s \<and> armour s \<le> max_armour (armourtype s) \<and>
     0 < maxhealth s \<and> maxhealth s \<le> 1000 \<and> health s \<le> maxhealth s \<and>
     0 \<le> quadmillis s \<and> quadmillis s \<le> 30000"

lemma fps_ok_fields:
  "fps_ok (s\<lparr>gunselect := g\<rparr>) = fps_ok s" "fps_ok (s\<lparr>gunwait := w\<rparr>) = fps_ok s" "fps_ok (s\<lparr>boosts := b\<rparr>) = fps_ok s"
  by (simp_all add: fps_ok_def)

lemma set_ammo_simps [simp]:
  "health (set_ammo g n s) = health s" "maxhealth (set_ammo g n s) = maxhealth s" "boosts (set_ammo g n s) = boosts s"
  "armour (set_ammo g n s) = armour s" "armourtype (set_ammo g n s) = armourtype s"
  "quadmillis (set_ammo g n s) = quadmillis s" "gunselect (set_ammo g n s) = gunselect s"
  "gunwait (set_ammo g n s) = gunwait s" "length (ammo (set_ammo g n s)) = length (ammo s)"
  by (simp_all add: set_ammo_def)

lemma set_ammo_ok: "fps_ok s \<Longrightarrow> 0 \<le> n \<Longrightarrow> fps_ok (set_ammo g n s)"
  by (auto simp: fps_ok_def set_ammo_def dest!: subsetD [OF set_update_subset_insert])

lemma ammo_at_nonneg: "fps_ok s \<Longrightarrow> 0 \<le> g \<Longrightarrow> g < NUMGUNS \<Longrightarrow> 0 \<le> ammo_at g s"
  by (simp add: fps_ok_def ammo_at_def game_consts)

lemma ammo_at_set: "0 \<le> g \<Longrightarrow> g < NUMGUNS \<Longrightarrow> fps_ok s \<Longrightarrow> 0 \<le> h \<Longrightarrow>
    ammo_at h (set_ammo g n s) = (if h = g then n else ammo_at h s)"
  by (auto simp: ammo_at_def set_ammo_def fps_ok_def game_consts nth_list_update)

text \<open>The items, one by one.\<close>

lemma item_cases:
  assumes "I_SHELLS \<le> t" "t \<le> I_QUAD"
  obtains "t = I_BOOST" | "t = I_HEALTH" | "t = I_GREENARMOUR" | "t = I_YELLOWARMOUR" | "t = I_QUAD"
    | "t \<in> {8, 9, 10, 11, 12, 13}"
proof -
  have "t = 8 \<or> t = 9 \<or> t = 10 \<or> t = 11 \<or> t = 12 \<or> t = 13 \<or> t = 14 \<or> t = 15 \<or> t = 16 \<or> t = 17 \<or> t = 18"
    using assms unfolding game_consts by presburger
  then show thesis
    using that by (auto simp: game_consts)
qed

lemma ammo_items:
  assumes "t \<in> {8, 9, 10, 11, 12, 13}"
  shows "0 < is_info (item_of t)" "is_info (item_of t) < NUMGUNS" "0 < is_add (item_of t)" "0 < is_max (item_of t)"
  using assms by (auto simp: item_of_def itemstats_def game_consts)

lemma other_items:
  "item_of I_BOOST = \<lparr>is_add = 10, is_max = 1000, is_info = -1\<rparr>"
  "item_of I_HEALTH = \<lparr>is_add = 25, is_max = 100, is_info = -1\<rparr>"
  "item_of I_GREENARMOUR = \<lparr>is_add = 100, is_max = 100, is_info = A_GREEN\<rparr>"
  "item_of I_YELLOWARMOUR = \<lparr>is_add = 200, is_max = 200, is_info = A_YELLOW\<rparr>"
  "item_of I_QUAD = \<lparr>is_add = 20000, is_max = 30000, is_info = -1\<rparr>"
  by (simp_all add: item_of_def itemstats_def game_consts)

lemma ammo_item_kind:
  "t \<in> {8, 9, 10, 11, 12, 13} \<Longrightarrow> I_SHELLS \<le> t \<and> t \<le> I_QUAD \<and> t \<noteq> I_BOOST \<and> t \<noteq> I_HEALTH \<and>
     t \<noteq> I_GREENARMOUR \<and> t \<noteq> I_YELLOWARMOUR \<and> t \<noteq> I_QUAD"
  by (auto simp: game_consts)

lemma pickup_simps:
  "pickup_item I_BOOST s = s\<lparr>maxhealth := min (maxhealth s + 10) 1000, boosts := boosts s + 1,
     health := min (health s + 10) (min (maxhealth s + 10) 1000)\<rparr>"
  "pickup_item I_HEALTH s = s\<lparr>health := min (health s + 25) (maxhealth s)\<rparr>"
  "pickup_item I_GREENARMOUR s = s\<lparr>armour := min (armour s + 100) 100, armourtype := A_GREEN\<rparr>"
  "pickup_item I_YELLOWARMOUR s = s\<lparr>armour := min (armour s + 200) 200, armourtype := A_YELLOW\<rparr>"
  "pickup_item I_QUAD s = s\<lparr>quadmillis := min (quadmillis s + 20000) 30000\<rparr>"
  unfolding pickup_item_def other_items by (simp_all add: game_consts Let_def)

lemma pickup_ammo:
  "t \<in> {8, 9, 10, 11, 12, 13} \<Longrightarrow> pickup_item t s = set_ammo (is_info (item_of t))
        (min (ammo_at (is_info (item_of t)) s + is_add (item_of t)) (is_max (item_of t))) s"
  using ammo_item_kind [of t] by (simp add: pickup_item_def Let_def)

lemma canpickup_simps:
  "canpickup I_BOOST s \<longleftrightarrow> maxhealth s < 1000"
  "canpickup I_HEALTH s \<longleftrightarrow> health s < maxhealth s"
  "canpickup I_GREENARMOUR s \<longleftrightarrow> \<not> (armourtype s = A_YELLOW \<and> armour s \<ge> 100) \<and> (armourtype s = 0 \<or> armour s < 100)"
  "canpickup I_YELLOWARMOUR s \<longleftrightarrow> armourtype s = 0 \<or> armour s < 200"
  "canpickup I_QUAD s \<longleftrightarrow> quadmillis s < 30000"
  "t \<in> {8, 9, 10, 11, 12, 13} \<Longrightarrow> canpickup t s \<longleftrightarrow> ammo_at (is_info (item_of t)) s < is_max (item_of t)"
  unfolding canpickup_def other_items by (simp_all add: game_consts Let_def) auto

lemma pickup_ok:
  assumes "fps_ok s"
  shows "fps_ok (pickup_item t s)"
proof (cases "t < I_SHELLS \<or> t > I_QUAD")
  case False
  then have "I_SHELLS \<le> t" "t \<le> I_QUAD"
    by auto
  then show ?thesis
  proof (cases rule: item_cases)
    case 6
    then show ?thesis
      unfolding pickup_ammo [OF 6] using assms ammo_items [OF 6] ammo_at_nonneg [OF assms, of "is_info (item_of t)"]
      by (intro set_ammo_ok) auto
  qed (use assms in \<open>simp_all add: pickup_simps fps_ok_def min_le_iff_disj, simp_all add: max_armour_def game_consts\<close>)
qed (simp add: pickup_item_def assms)

text \<open>What a player has of an item.\<close>

definition item_stock :: "int \<Rightarrow> 'a fpsstate_scheme \<Rightarrow> int" where
  "item_stock t s =
     (if t = I_BOOST then maxhealth s else if t = I_HEALTH then health s
      else if t = I_GREENARMOUR \<or> t = I_YELLOWARMOUR then armour s + (if armourtype s = A_BLUE then 0 else 1)
      else if t = I_QUAD then quadmillis s else ammo_at (is_info (item_of t)) s)"

lemma stock:
  "item_stock I_BOOST u = maxhealth u" "item_stock I_HEALTH u = health u" "item_stock I_QUAD u = quadmillis u"
  "item_stock I_GREENARMOUR u = armour u + (if armourtype u = A_BLUE then 0 else 1)"
  "item_stock I_YELLOWARMOUR u = armour u + (if armourtype u = A_BLUE then 0 else 1)"
  "t \<in> {8, 9, 10, 11, 12, 13} \<Longrightarrow> item_stock t u = ammo_at (is_info (item_of t)) u"
  by (simp_all add: item_stock_def game_consts) auto


definition sample_player :: fpsstate where
  "sample_player = \<lparr>health = 40, maxhealth = 100, boosts = 0, armour = 50, armourtype = A_BLUE, quadmillis = 0,
     gunselect = GUN_PISTOL, gunwait = 0, ammo = [1, 0, 0, 0, 0, 1, 40, 0, 0, 0, 0, 0], aitype = 0, skill = 0\<rparr>"

lemma sample_player_ok: "fps_ok sample_player"
  by code_simp




subsection \<open>Spawning\<close>

lemma pick_other_Some:
  "pick_other g rs = Some (h, rs') \<Longrightarrow> h \<noteq> g \<and> h - 1 \<in> set rs \<and> set rs' \<subseteq> set rs"
  by (induction g rs rule: pick_other.induct) (auto split: if_splits)

lemma pick_other_returns: "(\<exists>r. pick_other g rs = Some r) \<longleftrightarrow> (\<exists>r\<in>set rs. r + 1 \<noteq> g)"
  by (induction g rs rule: pick_other.induct) auto

text \<open>A spawned player: in bounds, alive, and with ammunition for the weapon in his hand.\<close>

definition armed :: "'a fpsstate_scheme \<Rightarrow> bool" where
  "armed s \<longleftrightarrow> fps_ok s \<and> 0 < health s \<and> 0 \<le> gunselect s \<and> gunselect s < NUMGUNS \<and> 0 < ammo_at (gunselect s) s"

lemma ammo_at_fields [simp]:
  "ammo_at g (s\<lparr>gunselect := h\<rparr>) = ammo_at g s" "ammo_at g (s\<lparr>armour := a\<rparr>) = ammo_at g s"
  "ammo_at g (s\<lparr>armourtype := a\<rparr>) = ammo_at g s" "ammo_at g (s\<lparr>health := a\<rparr>) = ammo_at g s"
  by (simp_all add: ammo_at_def)

lemma respawn_armed:
  assumes "0 < maxhealth s" "maxhealth s \<le> 1000"
  shows "fps_ok (fps_respawn s)" "health (fps_respawn s) = maxhealth s" "gunselect (fps_respawn s) = GUN_PISTOL"
    "maxhealth (fps_respawn s) = maxhealth s" "ammo_at GUN_FIST (fps_respawn s) = 1"
proof -
  have ammo: "ammo (fps_respawn s) = [1, 0, 0, 0, 0, 0, 0, 0, 0, 0, 0, 0]"
    by (simp add: fps_respawn_def set_ammo_def game_consts eval_nat_numeral)
  then show "fps_ok (fps_respawn s)"
    using assms by (simp add: fps_ok_def) (simp add: fps_respawn_def max_armour_def game_consts)
  show "ammo_at GUN_FIST (fps_respawn s) = 1"
    by (simp add: ammo_at_def ammo game_consts)
qed (simp_all add: fps_respawn_def)

lemma armour_ok: "fps_ok s \<Longrightarrow> type \<in> {A_BLUE, A_GREEN, A_YELLOW} \<Longrightarrow> 0 \<le> a \<Longrightarrow> a \<le> 100 \<Longrightarrow>
    fps_ok (s\<lparr>armourtype := type, armour := a\<rparr>)"
  by (simp add: fps_ok_def) (simp add: max_armour_def)

lemma baseammo_set:
  assumes "1 \<le> g" "g \<le> 6" "0 < k"
  shows "\<exists>n>0. baseammo g k 1 s = set_ammo g n s"
proof -
  have "g = 1 \<or> g = 2 \<or> g = 3 \<or> g = 4 \<or> g = 5 \<or> g = 6"
    using assms by presburger
  then have "0 < is_add (itemstats ! nat (g - GUN_SG)) * k"
    using assms(3) by (auto simp: itemstats_def game_consts)
  moreover have "x sdiv 1 = x" for x :: int
    by (simp add: signed_divide_int_def sgn_mult_abs)
  ultimately show ?thesis
    by (auto simp: baseammo_def)
qed

lemma baseammo_armed:
  assumes "fps_ok s" "1 \<le> g" "g \<le> 6" "0 < k"
  shows "fps_ok (baseammo g k 1 s)" "health (baseammo g k 1 s) = health s" "0 < ammo_at g (baseammo g k 1 s)"
    "gunselect (baseammo g k 1 s) = gunselect s"
    "\<And>h. 0 \<le> h \<Longrightarrow> h \<noteq> g \<Longrightarrow> ammo_at h (baseammo g k 1 s) = ammo_at h s"
  using baseammo_set [OF assms(2-4), of s] assms by (auto simp: set_ammo_ok ammo_at_set game_consts)

lemma spawn_tactics_armed:
  assumes "fps_ok s" "0 < health s" "\<forall>r\<in>set rs. 0 \<le> r \<and> r < 5" "spawn_tactics mode rs s = Some (t, rs')"
  shows "armed t"
proof -
  obtain r rs1 where rs: "rs = r # rs1"
    using assms(4) by (auto simp: spawn_tactics_def split: list.splits)
  define k :: int where "k = (if m_noitems mode then 2 else 1)"
  obtain h rs2 where h: "pick_other (r + 1) rs1 = Some (h, rs2)"
    using assms(4) by (auto simp: spawn_tactics_def rs Let_def bind_eq_Some_conv)
  define u where "u = set_ammo GUN_PISTOL 40 (s\<lparr>armourtype := A_GREEN, armour := 100\<rparr>)"
  define v where "v = baseammo (r + 1) k 1 (u\<lparr>gunselect := r + 1\<rparr>)"
  define w where "w = baseammo h k 1 v"
  have t: "t = (if m_noitems mode then set_ammo GUN_GL (ammo_at GUN_GL w + 1) w else w)"
    using assms(4) by (auto simp: spawn_tactics_def rs h w_def v_def u_def k_def Let_def)
  have range: "1 \<le> r + 1" "r + 1 \<le> 6" "1 \<le> h" "h \<le> 6" "h \<noteq> r + 1" "0 < k"
    using assms(3) pick_other_Some [OF h] by (auto simp: rs k_def)
  have "fps_ok u" "health u = health s"
    using assms(1) by (auto simp: u_def intro!: set_ammo_ok armour_ok)
  then have v: "fps_ok v" "health v = health s" "gunselect v = r + 1" "0 < ammo_at (r + 1) v"
    using baseammo_armed [of "u\<lparr>gunselect := r + 1\<rparr>" "r + 1" k] range by (simp_all add: v_def fps_ok_fields)
  have w: "fps_ok w" "health w = health s" "gunselect w = r + 1" "0 < ammo_at (r + 1) w"
    using baseammo_armed [OF v(1), of h k] range v(2-4) by (simp_all add: w_def)
  then have "armed w"
    using range assms(2) by (simp add: armed_def game_consts)
  moreover have "armed (set_ammo GUN_GL (ammo_at GUN_GL w + 1) w)"
    using w range assms(2) ammo_at_nonneg [OF w(1), of GUN_GL]
    by (auto simp: armed_def set_ammo_ok ammo_at_set game_consts)
  ultimately show ?thesis
    by (simp add: t)
qed

lemma spawn_efficiency_armed:
  assumes "fps_ok s" "0 < health s"
  shows "armed (spawn_efficiency hide s)"
proof -
  define u where "u = s\<lparr>armourtype := A_GREEN, armour := 100\<rparr>"
  have u: "fps_ok u" "0 < health u"
    using assms by (auto simp: u_def intro!: armour_ok)
  have filled: "fps_ok v \<and> health v = health u \<and> ammo_at GUN_CG v = 20 * k \<and> 0 < ammo_at GUN_GL v"
    if "0 < k" "v = fold (\<lambda>i. baseammo (i + 1) k 1) [0, 1, 2, 3, 4] u" for k v
  proof -
    define u1 where "u1 = baseammo 1 k 1 u"
    define u2 where "u2 = baseammo 2 k 1 u1"
    define u3 where "u3 = baseammo 3 k 1 u2"
    define u4 where "u4 = baseammo 4 k 1 u3"
    have v: "v = baseammo 5 k 1 u4"
      by (simp add: that(2) u1_def u2_def u3_def u4_def)
    have 1: "fps_ok u1" "health u1 = health u"
      using baseammo_armed [OF u(1), of 1 k] that(1) by (simp_all add: u1_def)
    have 2: "fps_ok u2" "health u2 = health u"
      using baseammo_armed [OF 1(1), of 2 k] that(1) 1 by (simp_all add: u2_def)
    have cg: "ammo_at 2 u2 = 20 * k"
      using 1(1) by (simp add: u2_def baseammo_def ammo_at_set itemstats_def signed_divide_int_def sgn_mult_abs game_consts)
    have 3: "fps_ok u3" "health u3 = health u" "ammo_at 2 u3 = 20 * k"
      using baseammo_armed [OF 2(1), of 3 k] that(1) 2 cg by (simp_all add: u3_def)
    have 4: "fps_ok u4" "health u4 = health u" "ammo_at 2 u4 = 20 * k"
      using baseammo_armed [OF 3(1), of 4 k] that(1) 3 by (simp_all add: u4_def)
    show ?thesis
      using baseammo_armed [OF 4(1), of 5 k] that(1) 4 by (simp add: v GUN_CG_def GUN_GL_def)
  qed
  show ?thesis
  proof (cases "hide = 0")
    case True
    define v where "v = fold (\<lambda>i. baseammo (i + 1) 2 1) [0, 1, 2, 3, 4] u"
    have v: "fps_ok v" "health v = health u" "ammo_at GUN_CG v = 40"
      using filled [of 2 v, OF _ v_def] by simp_all
    have "spawn_efficiency hide s = set_ammo GUN_CG (ammo_at GUN_CG (v\<lparr>gunselect := GUN_CG\<rparr>) sdiv 2) (v\<lparr>gunselect := GUN_CG\<rparr>)"
      unfolding spawn_efficiency_def Let_def v_def u_def by (simp only: True simp_thms if_False)
    then have "spawn_efficiency hide s = set_ammo GUN_CG 20 (v\<lparr>gunselect := GUN_CG\<rparr>)"
      using v(3) by (simp add: signed_divide_int_def)
    then show ?thesis
      using v u by (simp add: armed_def set_ammo_ok fps_ok_fields ammo_at_set game_consts)
  next
    case False
    define v where "v = fold (\<lambda>i. baseammo (i + 1) 10 1) [0, 1, 2, 3, 4] u"
    have "spawn_efficiency hide s = v\<lparr>gunselect := GUN_GL\<rparr>"
      unfolding spawn_efficiency_def Let_def v_def u_def using False by (simp only: simp_thms if_True)
    moreover have "fps_ok v \<and> health v = health u \<and> 0 < ammo_at GUN_GL v"
      using filled [of 10 v, OF _ v_def] by simp
    ultimately show ?thesis
      using u by (simp add: armed_def fps_ok_fields) (simp add: game_consts)
  qed
qed

lemma armed_pistol:
  "fps_ok v \<Longrightarrow> 0 < health v \<Longrightarrow> gunselect v = GUN_PISTOL \<Longrightarrow> 0 < n \<Longrightarrow>
     armed (set_ammo GUN_GL 1 (set_ammo GUN_PISTOL n v))"
  by (simp add: armed_def set_ammo_ok ammo_at_set game_consts)

lemma armed_rifle:
  assumes "fps_ok u"
  shows "armed (set_ammo GUN_RIFLE 100 (u\<lparr>armour := 0, health := 1, gunselect := GUN_RIFLE\<rparr>))"
proof -
  have "fps_ok (u\<lparr>armour := 0, health := 1, gunselect := GUN_RIFLE\<rparr>)"
    using assms by (simp add: fps_ok_def max_armour_def)
  then show ?thesis
    by (simp add: armed_def set_ammo_ok ammo_at_set game_consts)
qed

lemma blue_armour_ok: "fps_ok u \<Longrightarrow> 0 \<le> a \<Longrightarrow> a \<le> 100 \<Longrightarrow> fps_ok (u\<lparr>armourtype := A_BLUE, armour := a\<rparr>)"
  by (rule armour_ok) simp_all



subsection \<open>Projectiles as a bag\<close>

text \<open>
  A \<^verbatim>\<open>projectilestate<N>\<close> is a bag of at most \<open>N\<close> projectiles, of which nothing but the bag is
  seen from outside; firing into a full one forgets the others.
\<close>

definition proj_ok :: "nat \<Rightarrow> projectilestate \<Rightarrow> bool" where
  "proj_ok N p \<longleftrightarrow> length (projs p) = N \<and> numprojs p \<le> N"

definition in_flight :: "projectilestate \<Rightarrow> int multiset" where
  "in_flight p = mset (take (numprojs p) (projs p))"

lemma proj_index_Some:
  "n \<le> length xs \<Longrightarrow> proj_index v n xs = Some i \<Longrightarrow> i < n \<and> xs ! i = v"
proof (induction v n xs arbitrary: i rule: proj_index.induct)
  case (2 v n x xs)
  then show ?case
    by (cases n) (auto split: if_splits)
qed simp

lemma proj_index_None: "proj_index v n xs = None \<longleftrightarrow> v \<notin> set (take n xs)"
proof (induction v n xs rule: proj_index.induct)
  case (2 v n x xs)
  then show ?case
    by (cases n) auto
qed simp

lemma take_swap_last:
  assumes "i < n" "n \<le> length xs"
  shows "mset (take (n - 1) (xs[i := xs ! (n - 1)])) = mset (take n xs) - {#xs ! i#}"
proof -
  obtain m where m: "n = Suc m"
    using assms(1) by (cases n) auto
  have split: "take (Suc m) xs = take m xs @ [xs ! m]"
    using assms(2) by (simp add: m take_Suc_conv_app_nth)
  have "take m (xs[i := xs ! m]) = (take m xs)[i := xs ! m]"
    by (simp add: take_update_swap)
  then show ?thesis
  proof (cases "i = m")
    case False
    then have "xs ! i \<in># mset (take m xs)"
      using assms nth_mem [of i "take m xs"] by (simp add: m)
    then show ?thesis
      using False assms \<open>take m (xs[i := xs ! m]) = _\<close> by (simp add: m split mset_update)
  qed (simp add: m split)
qed

text \<open>
  C33. The projectiles in flight behave as a bag: firing adds one (and drops the others when the
  bag is full), and an explosion succeeds exactly when its projectile is in the bag, which it
  leaves.
\<close>

theorem projectiles_refine_bag:
  assumes "proj_ok N p" "0 < N"
  shows "proj_ok N (proj_add N v p) \<and>
     in_flight (proj_add N v p) = (if size (in_flight p) = N then {#v#} else add_mset v (in_flight p)) \<and>
     (fst (proj_remove v p) \<longleftrightarrow> v \<in># in_flight p) \<and>
     proj_ok N (snd (proj_remove v p)) \<and> in_flight (snd (proj_remove v p)) = in_flight p - {#v#}"
proof -
  have size: "size (in_flight p) = numprojs p"
    using assms(1) by (simp add: in_flight_def proj_ok_def)
  have add: "proj_ok N (proj_add N v p)"
    "in_flight (proj_add N v p) = (if size (in_flight p) = N then {#v#} else add_mset v (in_flight p))"
    using assms size by (auto simp: proj_ok_def proj_add_def in_flight_def take_Suc_conv_app_nth take_update_swap
        list_update_append Let_def)
  show ?thesis
  proof (cases "proj_index v (numprojs p) (projs p)")
    case None
    then have "v \<notin># in_flight p" "proj_remove v p = (False, p)"
      by (simp_all add: proj_remove_def in_flight_def proj_index_None [symmetric])
    then show ?thesis
      using add assms(1) by simp
  next
    case (Some i)
    then have i: "i < numprojs p" "projs p ! i = v"
      using assms(1) proj_index_Some by (auto simp: proj_ok_def)
    then have "v \<in># in_flight p"
      using assms(1) by (auto simp: in_flight_def proj_ok_def in_set_conv_nth)
    then show ?thesis
      using add assms(1) Some i take_swap_last [OF i(1), of "projs p"]
      by (auto simp: proj_remove_def in_flight_def proj_ok_def Let_def)
  qed
qed

theorem projectiles_refine_bag_witness:
  "in_flight (snd (proj_remove 5 \<lparr>projs = [4, 5, 6, 0], numprojs = 3\<rparr>)) = {#4, 6#}"
  using projectiles_refine_bag [of 4 "\<lparr>projs = [4, 5, 6, 0], numprojs = 3\<rparr>" 5]
  by (simp add: proj_ok_def in_flight_def)

end
